theory Spec2Isabelle
  imports Main "HOL-Library.Sublist"
begin

section \<open>SBE values, expressions and plan stages\<close>

text \<open>
  The stage builder of \<^verbatim>\<open>src/mongo/db/query/sbe_stage_builder.cpp\<close> lowers a
  query solution tree into a tree of SBE plan stages. The stages and expressions
  are constructors of the SBE library; the builder only assembles them, so they are
  modelled as free datatypes carrying the constructor arguments the builder passes.
\<close>

type_synonym SlotId = nat
type_synonym FrameId = nat
type_synonym SpoolId = nat
type_synonym PlanNodeId = nat

text \<open>A \<^verbatim>\<open>FieldPath\<close> has at least one component: the top-level field and the rest.\<close>

datatype FieldPath = FieldPath (topField: string) (restFields: "string list")

definition fieldNames :: "FieldPath \<Rightarrow> string list" where
  "fieldNames fp = topField fp # restFields fp"

definition getPathLength :: "FieldPath \<Rightarrow> nat" where
  "getPathLength fp = length (fieldNames fp)"

definition getFieldName :: "FieldPath \<Rightarrow> nat \<Rightarrow> string" where
  "getFieldName fp i = fieldNames fp ! i"

text \<open>
  One part of a \<^verbatim>\<open>SortPattern\<close>: a direction, and a field path unless the part is a
  \<^verbatim>\<open>$meta\<close> expression (then \<open>fieldPath\<close> is \<open>None\<close>).
\<close>

record SortPatternPart =
  isAscending :: bool
  fieldPath :: "FieldPath option"

datatype SbeValue =
    Nothing
  | Null
  | BsonUndefined
  | Boolean bool
  | NumberInt32 int
  | NumberInt64 int
  | StringV string
  | ObjectV "(string \<times> SbeValue) list"
  | ArrayV "SbeValue list"
  | SortSpecV "SortPatternPart list" bool
  | FtsMatcherV string
  | ShardFiltererV
  | TimeZoneDBV
  | CollatorV

datatype BinaryOp = logicOr | logicAnd | cmp3w | less | greater | lessEq | add

datatype UnaryOp = logicNot

datatype ErrorCode = BadValue | ErrorNumber nat

datatype EExpression =
    EConstant SbeValue
  | EVariable SlotId
  | ELocalVariable FrameId nat
  | EFunction string "EExpression list"
  | EPrimBinary BinaryOp EExpression EExpression
  | EPrimUnary UnaryOp EExpression
  | EIf EExpression EExpression EExpression
  | EFail ErrorCode string
  | ELocalBind FrameId "EExpression list" EExpression

datatype SortDirection = Ascending | Descending

text \<open>
  The plan stages the builder constructs. \<open>GeneratedStage\<close> stands for a subtree that
  one of the body generators outside this file returns (collection scan, index scan,
  virtual scan, filter, projection): a tag, the input stages it was given, and the slots it
  defines.
\<close>

datatype PlanStage =
    CoScanStage PlanNodeId
  | LimitSkipStage PlanStage "nat option" "nat option" PlanNodeId
  | ProjectStage PlanStage "(SlotId \<times> EExpression) list" PlanNodeId
  | FilterStage bool PlanStage EExpression PlanNodeId
  | ScanStage SlotId SlotId "SlotId option" PlanNodeId
  | LoopJoinStage PlanStage PlanStage "SlotId list" "SlotId list" PlanNodeId
  | TraverseStage PlanStage PlanStage SlotId SlotId SlotId EExpression PlanNodeId
  | SortStage PlanStage "SlotId list" "SortDirection list" "SlotId list" "nat option" nat bool
      PlanNodeId
  | UnionStage "PlanStage list" "SlotId list list" "SlotId list" PlanNodeId
  | UniqueStage PlanStage "SlotId list" PlanNodeId
  | MakeBsonObjStage PlanStage SlotId "SlotId option" "string list" "string list" "SlotId list"
      PlanNodeId
  | HashJoinStage PlanStage PlanStage "SlotId list" "SlotId list" "SlotId list" "SlotId list"
      "SlotId option" PlanNodeId
  | MergeJoinStage PlanStage PlanStage "SlotId list" "SlotId list" "SlotId list" "SlotId list"
      "SortDirection list" PlanNodeId
  | SortedMergeStage "PlanStage list" "SlotId list list" "SortDirection list" "SlotId list list"
      "SlotId list" PlanNodeId
  | GeneratedStage string "PlanStage list" "SlotId list"

subsection \<open>Expression and stage helpers\<close>

text \<open>
  The small constructors of \<^verbatim>\<open>sbe_stage_builder_helpers.h\<close> that the builder calls.
\<close>

definition makeConstant :: "string \<Rightarrow> EExpression" where
  "makeConstant s = EConstant (StringV s)"

definition makeVariable :: "SlotId \<Rightarrow> EExpression" where
  "makeVariable s = EVariable s"

definition makeFunction :: "string \<Rightarrow> EExpression list \<Rightarrow> EExpression" where
  "makeFunction name args = EFunction name args"

definition makeBinaryOp :: "BinaryOp \<Rightarrow> EExpression \<Rightarrow> EExpression \<Rightarrow> EExpression" where
  "makeBinaryOp op l r = EPrimBinary op l r"

definition makeNot :: "EExpression \<Rightarrow> EExpression" where
  "makeNot e = EPrimUnary logicNot e"

definition makeFillEmptyNull :: "EExpression \<Rightarrow> EExpression" where
  "makeFillEmptyNull e = makeFunction ''fillEmpty'' [e, EConstant Null]"

definition makeFillEmptyUndefined :: "EExpression \<Rightarrow> EExpression" where
  "makeFillEmptyUndefined e = makeFunction ''fillEmpty'' [e, EConstant BsonUndefined]"

definition makeProjectStage :: "PlanStage \<Rightarrow> PlanNodeId \<Rightarrow> SlotId \<Rightarrow> EExpression \<Rightarrow> PlanStage" where
  "makeProjectStage stage nodeId slot e = ProjectStage stage [(slot, e)] nodeId"

definition makeLimitCoScanTree :: "PlanNodeId \<Rightarrow> PlanStage" where
  "makeLimitCoScanTree nodeId = LimitSkipStage (CoScanStage nodeId) (Some 1) None nodeId"

section \<open>Index key rehydration\<close>

text \<open>
  \<^verbatim>\<open>IndexKeyPatternTreeNode\<close>: the children of a node in insertion order
  (\<^verbatim>\<open>children\<close> together with \<^verbatim>\<open>childrenOrder\<close>; \<^verbatim>\<open>emplace\<close> is only called for
  a name that \<^verbatim>\<open>find\<close> did not find, so the names are distinct), and the optional slot.
\<close>

datatype IndexKeyPatternTreeNode =
  IndexKeyPatternTreeNode (children: "(string \<times> IndexKeyPatternTreeNode) list")
    (indexKeySlot: "SlotId option")

definition emptyNode :: IndexKeyPatternTreeNode where
  "emptyNode = IndexKeyPatternTreeNode [] None"

text \<open>
  Modelled from the spec: the field names of a key pattern are dotted paths. \<^verbatim>\<open>FieldRef\<close>
  (not in this file) splits a name at its dots into parts, keeping empty parts; the empty
  name has no part.
\<close>

fun splitDots :: "string \<Rightarrow> string list" where
  "splitDots [] = [[]]"
| "splitDots (c # cs) =
     (if c = CHR ''.'' then [] # splitDots cs
      else (case splitDots cs of [] \<Rightarrow> [[c]] | p # ps \<Rightarrow> (c # p) # ps))"

definition fieldRefParts :: "string \<Rightarrow> string list" where
  "fieldRefParts name = (if name = [] then [] else splitDots name)"

fun replaceChild ::
  "string \<Rightarrow> IndexKeyPatternTreeNode \<Rightarrow> (string \<times> IndexKeyPatternTreeNode) list
    \<Rightarrow> (string \<times> IndexKeyPatternTreeNode) list" where
  "replaceChild name c [] = []"
| "replaceChild name c ((n, d) # rest) =
     (if n = name then (n, c) # rest else (n, d) # replaceChild name c rest)"

text \<open>
  One iteration of the outer loop of \<^verbatim>\<open>buildKeyPatternTree\<close>: the walk over the parts of
  one element, from \<open>node\<close>. The result is \<open>None\<close> when the walk sets \<^verbatim>\<open>skipElem\<close> (it
  met a node whose slot is set), and otherwise the tree with the new nodes emplaced and the
  slot stored at the node the walk ends in.
\<close>

fun insertPath ::
  "string list \<Rightarrow> SlotId \<Rightarrow> IndexKeyPatternTreeNode \<Rightarrow> IndexKeyPatternTreeNode option" where
  "insertPath [] slot node = Some (IndexKeyPatternTreeNode (children node) (Some slot))"
| "insertPath (part # rest) slot node =
     (case map_of (children node) part of
        Some child \<Rightarrow>
          (if indexKeySlot child \<noteq> None then None
           else (case insertPath rest slot child of
                   None \<Rightarrow> None
                 | Some child' \<Rightarrow>
                     Some (IndexKeyPatternTreeNode (replaceChild part child' (children node))
                             (indexKeySlot node))))
      | None \<Rightarrow>
          (case insertPath rest slot emptyNode of
             None \<Rightarrow> None
           | Some child' \<Rightarrow>
               Some (IndexKeyPatternTreeNode (children node @ [(part, child')])
                       (indexKeySlot node))))"

text \<open>
  The outer loop, with its counter \<open>i\<close>. \<^verbatim>\<open>slots[i]\<close> is read only for an element that
  is not skipped; reading past the end of \<open>slots\<close> is undefined in the source, and the
  model has no result there.
\<close>

fun buildKeyPatternTreeLoop ::
  "string list \<Rightarrow> SlotId list \<Rightarrow> nat \<Rightarrow> IndexKeyPatternTreeNode
    \<Rightarrow> IndexKeyPatternTreeNode option" where
  "buildKeyPatternTreeLoop [] slots i root = Some root"
| "buildKeyPatternTreeLoop (elem # rest) slots i root =
     (case insertPath (fieldRefParts elem) (slots ! i) root of
        None \<Rightarrow> buildKeyPatternTreeLoop rest slots (Suc i) root
      | Some root' \<Rightarrow>
          (if i < length slots then buildKeyPatternTreeLoop rest slots (Suc i) root'
           else None))"

definition buildKeyPatternTree ::
  "string list \<Rightarrow> SlotId list \<Rightarrow> IndexKeyPatternTreeNode option" where
  "buildKeyPatternTree keyPattern slots = buildKeyPatternTreeLoop keyPattern slots 0 emptyNode"

fun buildNewObjExpr :: "IndexKeyPatternTreeNode \<Rightarrow> EExpression"
  and buildNewObjArgs :: "(string \<times> IndexKeyPatternTreeNode) list \<Rightarrow> EExpression list" where
  "buildNewObjExpr (IndexKeyPatternTreeNode cs sl) = EFunction ''newObj'' (buildNewObjArgs cs)"
| "buildNewObjArgs [] = []"
| "buildNewObjArgs ((fieldName, child) # rest) =
     makeConstant fieldName
       # (case indexKeySlot child of
            Some slot \<Rightarrow> makeVariable slot
          | None \<Rightarrow> buildNewObjExpr child)
       # buildNewObjArgs rest"

definition rehydrateIndexKey ::
  "PlanStage \<Rightarrow> string list \<Rightarrow> PlanNodeId \<Rightarrow> SlotId list \<Rightarrow> SlotId \<Rightarrow> PlanStage option" where
  "rehydrateIndexKey stage indexKeyPattern nodeId indexKeySlots resultSlot =
     (case buildKeyPatternTree indexKeyPattern indexKeySlots of
        None \<Rightarrow> None
      | Some kpTree \<Rightarrow>
          Some (makeProjectStage stage nodeId resultSlot (buildNewObjExpr kpTree)))"

text \<open>
  Modelled from the spec: \<^verbatim>\<open>newObj(name1, value1, name2, value2, ...)\<close> constructs the
  object with these fields, a slot variable reads the slot's value, and a dotted path is
  extracted from an object field by field. Only the expressions the rehydrator emits
  evaluate.
\<close>

fun evalExpr :: "(SlotId \<Rightarrow> SbeValue) \<Rightarrow> EExpression \<Rightarrow> SbeValue option"
  and evalNewObjArgs :: "(SlotId \<Rightarrow> SbeValue) \<Rightarrow> EExpression list \<Rightarrow> (string \<times> SbeValue) list option"
  where
  "evalExpr env (EConstant v) = Some v"
| "evalExpr env (EVariable s) = Some (env s)"
| "evalExpr env (EFunction f args) =
     (if f = ''newObj'' then map_option ObjectV (evalNewObjArgs env args) else None)"
| "evalExpr env (ELocalVariable fr n) = None"
| "evalExpr env (EPrimBinary opr l r) = None"
| "evalExpr env (EPrimUnary opr e) = None"
| "evalExpr env (EIf c t e) = None"
| "evalExpr env (EFail code msg) = None"
| "evalExpr env (ELocalBind fr binds body) = None"
| "evalNewObjArgs env [] = Some []"
| "evalNewObjArgs env [e] = None"
| "evalNewObjArgs env (n # v # rest) =
     (case n of
        EConstant (StringV name) \<Rightarrow>
          (case evalExpr env v of
             None \<Rightarrow> None
           | Some x \<Rightarrow>
               (case evalNewObjArgs env rest of
                  None \<Rightarrow> None
                | Some fs \<Rightarrow> Some ((name, x) # fs)))
      | _ \<Rightarrow> None)"

fun getPath :: "SbeValue \<Rightarrow> string list \<Rightarrow> SbeValue option" where
  "getPath v [] = Some v"
| "getPath (ObjectV fs) (p # ps) =
     (case map_of fs p of None \<Rightarrow> None | Some v \<Rightarrow> getPath v ps)"
| "getPath v (p # ps) = None"

text \<open>The slots an expression reads.\<close>

fun exprSlots :: "EExpression \<Rightarrow> SlotId list" where
  "exprSlots (EConstant v) = []"
| "exprSlots (EVariable s) = [s]"
| "exprSlots (ELocalVariable fr n) = []"
| "exprSlots (EFunction f args) = concat (map exprSlots args)"
| "exprSlots (EPrimBinary opr l r) = exprSlots l @ exprSlots r"
| "exprSlots (EPrimUnary opr e) = exprSlots e"
| "exprSlots (EIf c t e) = exprSlots c @ exprSlots t @ exprSlots e"
| "exprSlots (EFail code msg) = []"
| "exprSlots (ELocalBind fr binds body) = concat (map exprSlots binds) @ exprSlots body"


section \<open>Requirements and slot bindings\<close>

datatype BuildError =
    InvariantFailure string
  | TAssert nat
  | UAssert nat
  | StdOutOfRange
  | UndefinedBehaviour string

datatype SlotName = kResult | kRecordId | kReturnKey | kOplogTs

text \<open>
  \<^verbatim>\<open>sbe::IndexKeysInclusionSet\<close> is a \<^verbatim>\<open>std::bitset\<close> of
  \<^verbatim>\<open>Ordering::kMaxCompoundIndexKeys\<close> = 32 bits: here the set of the positions that
  are set. \<^verbatim>\<open>set(i)\<close> and \<^verbatim>\<open>test(i)\<close> throw \<^verbatim>\<open>std::out_of_range\<close> from
  position 32 on.
\<close>

type_synonym IndexKeysInclusionSet = "nat set"

definition kMaxCompoundIndexKeys :: nat where
  "kMaxCompoundIndexKeys = 32"

definition bitPositions :: "IndexKeysInclusionSet \<Rightarrow> nat list" where
  "bitPositions w = filter (\<lambda>i. i \<in> w) [0..<kMaxCompoundIndexKeys]"

definition bitCount :: "IndexKeysInclusionSet \<Rightarrow> nat" where
  "bitCount w = length (bitPositions w)"

text \<open>
  Modelled from the spec: \<^verbatim>\<open>PlanStageReqs\<close> and \<^verbatim>\<open>PlanStageSlots\<close> are declared in
  \<^verbatim>\<open>sbe_stage_builder.h\<close>, which is not among the sources. The requirements are a set of
  named slot requests over result, recordId, returnKey and oplogTs, an optional index-key
  bitset and the two flags of the tailable rewrite; they compose by copy-then-modify. The
  bindings map the same names to slot ids and optionally carry an ordered vector of
  index-key slots. Iteration over the names (a hash map in the source) goes in the fixed
  order of \<open>allSlotNames\<close>.
\<close>

record PlanStageReqs =
  reqSlots :: "SlotName set"
  reqIndexKeyBitset :: "IndexKeysInclusionSet option"
  isBuildingUnionForTailableCollScan :: bool
  isTailableCollScanResumeBranch :: bool

definition emptyReqs :: PlanStageReqs where
  "emptyReqs = \<lparr>reqSlots = {}, reqIndexKeyBitset = None,
     isBuildingUnionForTailableCollScan = False, isTailableCollScanResumeBranch = False\<rparr>"

definition reqsHas :: "PlanStageReqs \<Rightarrow> SlotName \<Rightarrow> bool" where
  "reqsHas reqs name = (name \<in> reqSlots reqs)"

definition reqsSet :: "PlanStageReqs \<Rightarrow> SlotName \<Rightarrow> PlanStageReqs" where
  "reqsSet reqs name = reqs\<lparr>reqSlots := insert name (reqSlots reqs)\<rparr>"

definition reqsSetIf :: "PlanStageReqs \<Rightarrow> SlotName \<Rightarrow> bool \<Rightarrow> PlanStageReqs" where
  "reqsSetIf reqs name condition = (if condition then reqsSet reqs name else reqs)"

definition reqsClear :: "PlanStageReqs \<Rightarrow> SlotName \<Rightarrow> PlanStageReqs" where
  "reqsClear reqs name = reqs\<lparr>reqSlots := reqSlots reqs - {name}\<rparr>"

record PlanStageSlots =
  slotMap :: "SlotName \<rightharpoonup> SlotId"
  indexKeySlots :: "SlotId list option"

definition emptySlots :: PlanStageSlots where
  "emptySlots = \<lparr>slotMap = Map.empty, indexKeySlots = None\<rparr>"

definition slotsHas :: "PlanStageSlots \<Rightarrow> SlotName \<Rightarrow> bool" where
  "slotsHas outputs name = (slotMap outputs name \<noteq> None)"

definition slotsGet :: "PlanStageSlots \<Rightarrow> SlotName \<Rightarrow> BuildError + SlotId" where
  "slotsGet outputs name =
     (case slotMap outputs name of
        None \<Rightarrow> Inl (InvariantFailure ''it != _slots.end()'')
      | Some slot \<Rightarrow> Inr slot)"

definition slotsSet :: "PlanStageSlots \<Rightarrow> SlotName \<Rightarrow> SlotId \<Rightarrow> PlanStageSlots" where
  "slotsSet outputs name slot = outputs\<lparr>slotMap := (slotMap outputs)(name \<mapsto> slot)\<rparr>"

definition slotsClear :: "PlanStageSlots \<Rightarrow> SlotName \<Rightarrow> PlanStageSlots" where
  "slotsClear outputs name = outputs\<lparr>slotMap := (slotMap outputs)(name := None)\<rparr>"

definition setIndexKeySlots :: "PlanStageSlots \<Rightarrow> SlotId list option \<Rightarrow> PlanStageSlots" where
  "setIndexKeySlots outputs iks = outputs\<lparr>indexKeySlots := iks\<rparr>"

definition allSlotNames :: "SlotName list" where
  "allSlotNames = [kResult, kRecordId, kReturnKey, kOplogTs]"

text \<open>
  \<^verbatim>\<open>forEachSlot(reqs, fn)\<close> applies \<open>fn\<close> to the slot of every required name; a required
  name without a slot is a contract violation (tassert 5050900). The model returns the
  slots in the order \<open>fn\<close> sees them.
\<close>

fun forEachSlotLoop :: "SlotName list \<Rightarrow> PlanStageSlots \<Rightarrow> PlanStageReqs \<Rightarrow> BuildError + SlotId list" where
  "forEachSlotLoop [] outputs reqs = Inr []"
| "forEachSlotLoop (name # rest) outputs reqs =
     (if reqsHas reqs name then
        (case slotMap outputs name of
           None \<Rightarrow> Inl (TAssert 5050900)
         | Some slot \<Rightarrow>
             (case forEachSlotLoop rest outputs reqs of
                Inl e \<Rightarrow> Inl e
              | Inr slots \<Rightarrow> Inr (slot # slots)))
      else forEachSlotLoop rest outputs reqs)"

definition forEachSlot :: "PlanStageSlots \<Rightarrow> PlanStageReqs \<Rightarrow> BuildError + SlotId list" where
  "forEachSlot outputs reqs = forEachSlotLoop allSlotNames outputs reqs"

section \<open>Builder state\<close>

text \<open>
  The id generators and the runtime environment, which the builder shares with the
  generators it calls. Modelled from the spec: the generators are monotonic id factories
  and the ids are non-zero, so \<open>generate\<close> increments the counter and returns it.
\<close>

record BuildState =
  slotIdGenerator :: nat
  frameIdGenerator :: nat
  spoolIdGenerator :: nat
  runtimeEnv :: "(string \<times> SlotId) list"

definition generateSlotId :: "BuildState \<Rightarrow> SlotId \<times> BuildState" where
  "generateSlotId st = (Suc (slotIdGenerator st), st\<lparr>slotIdGenerator := Suc (slotIdGenerator st)\<rparr>)"

definition generateFrameId :: "BuildState \<Rightarrow> FrameId \<times> BuildState" where
  "generateFrameId st = (Suc (frameIdGenerator st), st\<lparr>frameIdGenerator := Suc (frameIdGenerator st)\<rparr>)"

definition getSlotIfExists :: "BuildState \<Rightarrow> string \<Rightarrow> SlotId option" where
  "getSlotIfExists st name = map_of (runtimeEnv st) name"

text \<open>
  The constructor \<^verbatim>\<open>PlanStageSlots(reqs, slotIdGenerator)\<close>: a fresh slot for every
  required name.
\<close>

fun makeSlotsLoop :: "SlotName list \<Rightarrow> PlanStageReqs \<Rightarrow> PlanStageSlots \<Rightarrow> BuildState
    \<Rightarrow> PlanStageSlots \<times> BuildState" where
  "makeSlotsLoop [] reqs outputs st = (outputs, st)"
| "makeSlotsLoop (name # rest) reqs outputs st =
     (if reqsHas reqs name then
        (case generateSlotId st of
           (slot, st') \<Rightarrow> makeSlotsLoop rest reqs (slotsSet outputs name slot) st')
      else makeSlotsLoop rest reqs outputs st)"

definition makePlanStageSlots :: "PlanStageReqs \<Rightarrow> BuildState \<Rightarrow> PlanStageSlots \<times> BuildState" where
  "makePlanStageSlots reqs st = makeSlotsLoop allSlotNames reqs emptySlots st"

section \<open>The EOF plan\<close>

definition generateEofPlan ::
  "PlanNodeId \<Rightarrow> PlanStageReqs \<Rightarrow> BuildState
    \<Rightarrow> BuildError + (PlanStage \<times> PlanStageSlots \<times> BuildState)" where
  "generateEofPlan nodeId reqs st =
     (case makePlanStageSlots reqs st of
        (outputs, st') \<Rightarrow>
          (case forEachSlot outputs reqs of
             Inl e \<Rightarrow> Inl e
           | Inr slots \<Rightarrow>
               (let projects = map (\<lambda>slot. (slot, EConstant Nothing)) slots;
                    stage = LimitSkipStage (CoScanStage nodeId) (Some 0) None nodeId
                in Inr (if projects \<noteq> [] then ProjectStage stage projects nodeId else stage,
                        outputs, st'))))"

section \<open>Helpers on index key patterns\<close>

text \<open>
  Modelled from the spec: \<^verbatim>\<open>makeIndexKeyInclusionSet\<close> (in the helpers header) matches
  the required fields against a key pattern and returns the bitset of the matching positions
  with their field names.
\<close>

fun makeIndexKeyInclusionSetLoop ::
  "string list \<Rightarrow> string set \<Rightarrow> nat \<Rightarrow> BuildError + (IndexKeysInclusionSet \<times> string list)" where
  "makeIndexKeyInclusionSetLoop [] requiredFields i = Inr ({}, [])"
| "makeIndexKeyInclusionSetLoop (elt # rest) requiredFields i =
     (if elt \<in> requiredFields then
        (if i \<ge> kMaxCompoundIndexKeys then Inl StdOutOfRange
         else (case makeIndexKeyInclusionSetLoop rest requiredFields (Suc i) of
                 Inl e \<Rightarrow> Inl e
               | Inr (bits, names) \<Rightarrow> Inr (insert i bits, elt # names)))
      else makeIndexKeyInclusionSetLoop rest requiredFields (Suc i))"

definition makeIndexKeyInclusionSet ::
  "string list \<Rightarrow> string set \<Rightarrow> BuildError + (IndexKeysInclusionSet \<times> string list)" where
  "makeIndexKeyInclusionSet indexKeyPattern requiredFields =
     makeIndexKeyInclusionSetLoop indexKeyPattern requiredFields 0"

text \<open>
  Modelled from the spec: \<^verbatim>\<open>makeIndexKeyOutputSlotsMatchingParentReqs\<close> (in the helpers)
  narrows the slot vector a child returned for \<open>childIndexKeyReqs\<close> back to the positions of
  \<open>parentIndexKeyReqs\<close>; the vector is aligned with the child's bitset. It is a contract
  violation (tassert 5308000) when the parent's bitset has more bits than the child's.
\<close>

fun matchingParentReqsLoop ::
  "nat list \<Rightarrow> IndexKeysInclusionSet \<Rightarrow> IndexKeysInclusionSet \<Rightarrow> SlotId list \<Rightarrow> nat
    \<Rightarrow> BuildError + SlotId list" where
  "matchingParentReqsLoop [] parentReqs childReqs childOutputSlots slotIdx = Inr []"
| "matchingParentReqsLoop (indexFieldNumber # rest) parentReqs childReqs childOutputSlots slotIdx =
     (let slotIdx' = (if indexFieldNumber \<in> childReqs then Suc slotIdx else slotIdx) in
      if indexFieldNumber \<in> parentReqs then
        (if slotIdx < length childOutputSlots then
           (case matchingParentReqsLoop rest parentReqs childReqs childOutputSlots slotIdx' of
              Inl e \<Rightarrow> Inl e
            | Inr slots \<Rightarrow> Inr (childOutputSlots ! slotIdx # slots))
         else Inl (UndefinedBehaviour ''childOutputSlots[slotIdx]''))
      else matchingParentReqsLoop rest parentReqs childReqs childOutputSlots slotIdx')"

definition makeIndexKeyOutputSlotsMatchingParentReqs ::
  "string list \<Rightarrow> IndexKeysInclusionSet \<Rightarrow> IndexKeysInclusionSet \<Rightarrow> SlotId list
    \<Rightarrow> BuildError + SlotId list" where
  "makeIndexKeyOutputSlotsMatchingParentReqs indexKeyPattern parentIndexKeyReqs childIndexKeyReqs
      childOutputSlots =
     (if bitCount parentIndexKeyReqs \<le> bitCount childIndexKeyReqs then
        matchingParentReqsLoop [0..<kMaxCompoundIndexKeys] parentIndexKeyReqs childIndexKeyReqs
          childOutputSlots 0
      else Inl (TAssert 5308000))"



section \<open>Query solution nodes\<close>

text \<open>
  A filter or a projection is opaque to the builder: it hands them to the expression
  sub-builders.
\<close>

datatype MatchExpression = MatchExpression string

datatype Projection = Projection string

record CollectionScanParams =
  csnTailable :: bool
  csnShouldTrackLatestOplogTimestamp :: bool
  csnRequestResumeToken :: bool

record VirtualScanParams =
  vsnDocs :: "SbeValue list"
  vsnHasRecordId :: bool
  vsnScanTypeIsCollScan :: bool
  vsnIndexKeyPattern :: "string list"

record IndexScanParams =
  ixnIndexName :: string
  ixnKeyPattern :: "string list"
  ixnAddKeyMetadata :: bool

record SortParams =
  snPattern :: "SortPatternPart list"
  snLimit :: nat
  snMaxMemoryUsageBytes :: nat

record ProjectionCoveredParams =
  pnRequiredFields :: "string list"
  pnCoveredKeyObj :: "string list"
  pnIsSimple :: bool

record TextMatchParams =
  tmIndexName :: string
  tmQueryIsFTSQueryImpl :: bool

datatype StageType =
    STAGE_COLLSCAN | STAGE_VIRTUAL_SCAN | STAGE_IXSCAN | STAGE_FETCH | STAGE_LIMIT | STAGE_SKIP
  | STAGE_SORT_SIMPLE | STAGE_SORT_DEFAULT | STAGE_SORT_KEY_GENERATOR | STAGE_PROJECTION_SIMPLE
  | STAGE_PROJECTION_DEFAULT | STAGE_PROJECTION_COVERED | STAGE_OR | STAGE_TEXT_OR
  | STAGE_TEXT_MATCH | STAGE_RETURN_KEY | STAGE_EOF | STAGE_AND_HASH | STAGE_AND_SORTED
  | STAGE_SORT_MERGE | STAGE_SHARDING_FILTER | STAGE_OTHER

text \<open>
  The solution tree: one constructor per node class the builder translates, with the
  fields it reads. \<open>SortNode\<close> carries its stage type (simple or default), \<open>OrNode\<close> whether
  it is a text-or; \<open>OtherNode\<close> is a node of any stage type without a translator. Nodes
  with exactly one child in every solution carry it as such.
\<close>

datatype QuerySolutionNode =
    CollectionScanNode PlanNodeId CollectionScanParams
  | VirtualScanNode PlanNodeId VirtualScanParams
  | IndexScanNode PlanNodeId IndexScanParams
  | FetchNode PlanNodeId "MatchExpression option" QuerySolutionNode
  | LimitNode PlanNodeId nat QuerySolutionNode
  | SkipNode PlanNodeId nat QuerySolutionNode
  | SortNode PlanNodeId bool SortParams QuerySolutionNode
  | SortKeyGeneratorNode PlanNodeId QuerySolutionNode
  | ProjectionNodeSimple PlanNodeId "string list" QuerySolutionNode
  | ProjectionNodeDefault PlanNodeId Projection QuerySolutionNode
  | ProjectionNodeCovered PlanNodeId ProjectionCoveredParams QuerySolutionNode
  | OrNode PlanNodeId bool bool "MatchExpression option" "QuerySolutionNode list"
  | TextMatchNode PlanNodeId TextMatchParams "QuerySolutionNode list"
  | ReturnKeyNode PlanNodeId QuerySolutionNode
  | EofNode PlanNodeId
  | AndHashNode PlanNodeId "QuerySolutionNode list"
  | AndSortedNode PlanNodeId "QuerySolutionNode list"
  | MergeSortNode PlanNodeId "SortPatternPart list" bool "QuerySolutionNode list"
  | ShardingFilterNode PlanNodeId QuerySolutionNode
  | OtherNode PlanNodeId "QuerySolutionNode list"

fun getType :: "QuerySolutionNode \<Rightarrow> StageType" where
  "getType (CollectionScanNode nodeId csn) = STAGE_COLLSCAN"
| "getType (VirtualScanNode nodeId vsn) = STAGE_VIRTUAL_SCAN"
| "getType (IndexScanNode nodeId ixn) = STAGE_IXSCAN"
| "getType (FetchNode nodeId flt child) = STAGE_FETCH"
| "getType (LimitNode nodeId n child) = STAGE_LIMIT"
| "getType (SkipNode nodeId n child) = STAGE_SKIP"
| "getType (SortNode nodeId simple sn child) = (if simple then STAGE_SORT_SIMPLE else STAGE_SORT_DEFAULT)"
| "getType (SortKeyGeneratorNode nodeId child) = STAGE_SORT_KEY_GENERATOR"
| "getType (ProjectionNodeSimple nodeId fs child) = STAGE_PROJECTION_SIMPLE"
| "getType (ProjectionNodeDefault nodeId proj child) = STAGE_PROJECTION_DEFAULT"
| "getType (ProjectionNodeCovered nodeId pn child) = STAGE_PROJECTION_COVERED"
| "getType (OrNode nodeId textOr dedup flt cs) = (if textOr then STAGE_TEXT_OR else STAGE_OR)"
| "getType (TextMatchNode nodeId tm cs) = STAGE_TEXT_MATCH"
| "getType (ReturnKeyNode nodeId child) = STAGE_RETURN_KEY"
| "getType (EofNode nodeId) = STAGE_EOF"
| "getType (AndHashNode nodeId cs) = STAGE_AND_HASH"
| "getType (AndSortedNode nodeId cs) = STAGE_AND_SORTED"
| "getType (MergeSortNode nodeId pat dedup cs) = STAGE_SORT_MERGE"
| "getType (ShardingFilterNode nodeId child) = STAGE_SHARDING_FILTER"
| "getType (OtherNode nodeId cs) = STAGE_OTHER"

fun getNodeId :: "QuerySolutionNode \<Rightarrow> PlanNodeId" where
  "getNodeId (CollectionScanNode n csn) = n"
| "getNodeId (VirtualScanNode n vsn) = n"
| "getNodeId (IndexScanNode n ixn) = n"
| "getNodeId (FetchNode n flt child) = n"
| "getNodeId (LimitNode n k child) = n"
| "getNodeId (SkipNode n k child) = n"
| "getNodeId (SortNode n simple sn child) = n"
| "getNodeId (SortKeyGeneratorNode n child) = n"
| "getNodeId (ProjectionNodeSimple n fs child) = n"
| "getNodeId (ProjectionNodeDefault n proj child) = n"
| "getNodeId (ProjectionNodeCovered n pn child) = n"
| "getNodeId (OrNode n textOr dedup flt cs) = n"
| "getNodeId (TextMatchNode n tm cs) = n"
| "getNodeId (ReturnKeyNode n child) = n"
| "getNodeId (EofNode n) = n"
| "getNodeId (AndHashNode n cs) = n"
| "getNodeId (AndSortedNode n cs) = n"
| "getNodeId (MergeSortNode n pat dedup cs) = n"
| "getNodeId (ShardingFilterNode n child) = n"
| "getNodeId (OtherNode n cs) = n"

fun nodeChildren :: "QuerySolutionNode \<Rightarrow> QuerySolutionNode list" where
  "nodeChildren (CollectionScanNode n csn) = []"
| "nodeChildren (VirtualScanNode n vsn) = []"
| "nodeChildren (IndexScanNode n ixn) = []"
| "nodeChildren (FetchNode n flt child) = [child]"
| "nodeChildren (LimitNode n k child) = [child]"
| "nodeChildren (SkipNode n k child) = [child]"
| "nodeChildren (SortNode n simple sn child) = [child]"
| "nodeChildren (SortKeyGeneratorNode n child) = [child]"
| "nodeChildren (ProjectionNodeSimple n fs child) = [child]"
| "nodeChildren (ProjectionNodeDefault n proj child) = [child]"
| "nodeChildren (ProjectionNodeCovered n pn child) = [child]"
| "nodeChildren (OrNode n textOr dedup flt cs) = cs"
| "nodeChildren (TextMatchNode n tm cs) = cs"
| "nodeChildren (ReturnKeyNode n child) = [child]"
| "nodeChildren (EofNode n) = []"
| "nodeChildren (AndHashNode n cs) = cs"
| "nodeChildren (AndSortedNode n cs) = cs"
| "nodeChildren (MergeSortNode n pat dedup cs) = cs"
| "nodeChildren (ShardingFilterNode n child) = [child]"
| "nodeChildren (OtherNode n cs) = cs"

lemma nodeChildren_size: "size_list size (nodeChildren n) \<le> size n"
  by (cases n) auto

text \<open>\<^verbatim>\<open>getNodeByType\<close>: the first node of the type in a depth-first walk.\<close>

function getNodeByType :: "QuerySolutionNode \<Rightarrow> StageType \<Rightarrow> QuerySolutionNode option"
  and getNodeByTypeIn :: "QuerySolutionNode list \<Rightarrow> StageType \<Rightarrow> QuerySolutionNode option" where
  "getNodeByType root ty =
     (if getType root = ty then Some root else getNodeByTypeIn (nodeChildren root) ty)"
| "getNodeByTypeIn [] ty = None"
| "getNodeByTypeIn (child # rest) ty =
     (case getNodeByType child ty of
        Some result \<Rightarrow> Some result
      | None \<Rightarrow> getNodeByTypeIn rest ty)"
  by pat_completeness auto
termination
  by (relation "measure (\<lambda>x. case x of Inl (n, ty) \<Rightarrow> 2 * size n + 2
                                      | Inr (cs, ty) \<Rightarrow> 2 * size_list size cs + 1)")
     (auto simp: less_Suc_eq_le nodeChildren_size)



section \<open>The builder's collaborators\<close>

text \<open>
  What the builder reads from the canonical query, the collection and the catalog.
  \<open>secondArgumentFirst\<close> is a property of the compiled builder: in the two-part
  parallel-arrays check of \<^verbatim>\<open>buildSort\<close> the two calls of \<^verbatim>\<open>makeIsNotArrayCheck\<close> are
  arguments of one call, C++ leaves the order of their evaluation open, and both draw frame
  ids; the field says whether the second argument is evaluated first.
\<close>

record FtsIndexLookup =
  hasDescriptor :: bool
  hasEntry :: bool
  hasAccessMethod :: bool

record BuildContext =
  cqTailable :: bool
  cqHasCollator :: bool
  cqAllowDiskUse :: bool
  hasCollection :: bool
  shardKeyPattern :: "(string \<times> bool) list"
  findIndexByName :: "string \<Rightarrow> FtsIndexLookup"
  secondArgumentFirst :: bool

type_synonym BuildResult = "BuildError + (PlanStage \<times> PlanStageSlots \<times> BuildState)"

text \<open>
  The functions the builder calls that are defined in other files (the collection-scan,
  index-scan and virtual-scan body generators, the filter and projection sub-builders, the
  shard-key binding helper, the runtime environment's \<^verbatim>\<open>registerSlot\<close> and
  \<^verbatim>\<open>QuerySolutionNode::fetched\<close>) are parameters of the model: every theorem about the
  builder holds for all of them unless it states an assumption.
\<close>

record Generators =
  generateCollScan :: "PlanNodeId \<Rightarrow> CollectionScanParams \<Rightarrow> bool \<Rightarrow> BuildState \<Rightarrow> BuildResult"
  generateIndexScan ::
    "PlanNodeId \<Rightarrow> IndexScanParams \<Rightarrow> IndexKeysInclusionSet \<Rightarrow> BuildState \<Rightarrow> BuildResult"
  generateVirtualScanMulti :: "nat \<Rightarrow> SbeValue \<Rightarrow> BuildState \<Rightarrow> SlotId list \<times> PlanStage \<times> BuildState"
  generateFilter ::
    "MatchExpression \<Rightarrow> PlanStage \<Rightarrow> SlotId \<Rightarrow> SlotId list \<Rightarrow> PlanNodeId \<Rightarrow> BuildState
      \<Rightarrow> BuildError + (SlotId \<times> PlanStage \<times> BuildState)"
  generateProjection ::
    "Projection \<Rightarrow> PlanStage \<Rightarrow> SlotId \<Rightarrow> SlotId list \<Rightarrow> PlanNodeId \<Rightarrow> BuildState
      \<Rightarrow> BuildError + (SlotId \<times> PlanStage \<times> BuildState)"
  generateShardKeyBinding :: "string list \<Rightarrow> EExpression \<Rightarrow> nat \<Rightarrow> BuildState \<Rightarrow> EExpression \<times> BuildState"
  registerSlot :: "string \<Rightarrow> SbeValue \<Rightarrow> BuildState \<Rightarrow> BuildError + (SlotId \<times> BuildState)"
  fetched :: "QuerySolutionNode \<Rightarrow> bool"

section \<open>Leaf translators\<close>

definition buildCollScan ::
  "Generators \<Rightarrow> PlanNodeId \<Rightarrow> CollectionScanParams \<Rightarrow> PlanStageReqs \<Rightarrow> BuildState \<Rightarrow> BuildResult" where
  "buildCollScan ext nid csn reqs st =
     (if reqIndexKeyBitset reqs \<noteq> None then Inl (InvariantFailure ''!reqs.getIndexKeyBitset()'')
      else
        (case generateCollScan ext nid csn (isTailableCollScanResumeBranch reqs) st of
           Inl e \<Rightarrow> Inl e
         | Inr (stage, outputs, st1) \<Rightarrow>
             (case (if reqsHas reqs kReturnKey then
                      (case generateSlotId st1 of
                         (slot, st2) \<Rightarrow>
                           (makeProjectStage stage nid slot (EFunction ''newObj'' []),
                            slotsSet outputs kReturnKey slot, st2))
                    else (stage, outputs, st1)) of
                (stage', outputs', st') \<Rightarrow>
                  (if reqsHas reqs kOplogTs \<and> \<not> slotsHas outputs' kOplogTs
                   then Inl (InvariantFailure ''!reqs.has(kOplogTs) || outputs.has(kOplogTs)'')
                   else Inr (stage', outputs', st')))))"

fun virtualScanProjections ::
  "string list \<Rightarrow> IndexKeysInclusionSet \<Rightarrow> nat \<Rightarrow> SlotId \<Rightarrow> BuildState
    \<Rightarrow> BuildError + (SlotId list \<times> (SlotId \<times> EExpression) list \<times> BuildState)" where
  "virtualScanProjections [] bits indexKeyPos resultSlot st = Inr ([], [], st)"
| "virtualScanProjections (field # rest) bits indexKeyPos resultSlot st =
     (if indexKeyPos \<ge> kMaxCompoundIndexKeys then Inl StdOutOfRange
      else if indexKeyPos \<in> bits then
        (case generateSlotId st of
           (slot, st1) \<Rightarrow>
             (case virtualScanProjections rest bits (Suc indexKeyPos) resultSlot st1 of
                Inl e \<Rightarrow> Inl e
              | Inr (slots, projections, st2) \<Rightarrow>
                  Inr (slot # slots,
                       (slot, makeFunction ''getField'' [EVariable resultSlot, makeConstant field])
                         # projections,
                       st2)))
      else virtualScanProjections rest bits (Suc indexKeyPos) resultSlot st)"

definition buildVirtualScan ::
  "Generators \<Rightarrow> PlanNodeId \<Rightarrow> VirtualScanParams \<Rightarrow> PlanStageReqs \<Rightarrow> BuildState \<Rightarrow> BuildResult" where
  "buildVirtualScan ext nid vsn reqs st =
     (if vsnScanTypeIsCollScan vsn \<and> reqIndexKeyBitset reqs \<noteq> None
      then Inl (InvariantFailure ''!reqs.getIndexKeyBitset()'')
      else if reqsHas reqs kOplogTs then Inl (InvariantFailure ''!reqs.has(kOplogTs)'')
      else
        (case generateVirtualScanMulti ext (if vsnHasRecordId vsn then 2 else 1)
                (ArrayV (vsnDocs vsn)) st of
           (scanSlots, stage, st1) \<Rightarrow>
             (if length scanSlots \<noteq> (if vsnHasRecordId vsn then 2 else 1)
              then Inl (InvariantFailure ''scanSlots.size()'')
              else
                (let resultSlot = (if vsnHasRecordId vsn then scanSlots ! 1 else scanSlots ! 0) in
                 case (if reqsHas reqs kResult
                       then Inr (stage, slotsSet emptySlots kResult resultSlot, st1)
                       else
                         (case reqIndexKeyBitset reqs of
                            None \<Rightarrow> Inr (stage, emptySlots, st1)
                          | Some bits \<Rightarrow>
                              (if vsnIndexKeyPattern vsn = []
                               then Inl (InvariantFailure ''!vsn->indexKeyPattern.isEmpty()'')
                               else
                                 (case virtualScanProjections (vsnIndexKeyPattern vsn) bits 0
                                         resultSlot st1 of
                                    Inl e \<Rightarrow> Inl e
                                  | Inr (slots, projections, st2) \<Rightarrow>
                                      Inr (ProjectStage stage projections nid,
                                           setIndexKeySlots emptySlots (Some slots), st2))))) of
                   Inl e \<Rightarrow> Inl e
                 | Inr (stage', outputs, st') \<Rightarrow>
                     (if reqsHas reqs kRecordId then
                        (if \<not> vsnHasRecordId vsn then Inl (InvariantFailure ''vsn->hasRecordId'')
                         else Inr (stage', slotsSet outputs kRecordId (scanSlots ! 0), st'))
                      else Inr (stage', outputs, st'))))))"

text \<open>
  The bitset \<^verbatim>\<open>buildIndexScan\<close> passes to the index-scan body generator (the local
  \<^verbatim>\<open>indexKeyBitset\<close>).
\<close>

definition indexScanKeyBitset :: "IndexScanParams \<Rightarrow> PlanStageReqs \<Rightarrow> BuildError + IndexKeysInclusionSet" where
  "indexScanKeyBitset ixn reqs =
     (if reqsHas reqs kReturnKey \<or> reqsHas reqs kResult then
        (if length (ixnKeyPattern ixn) > kMaxCompoundIndexKeys then Inl StdOutOfRange
         else Inr (set [0..<length (ixnKeyPattern ixn)]))
      else (case reqIndexKeyBitset reqs of Some bits \<Rightarrow> Inr bits | None \<Rightarrow> Inr {}))"

fun returnKeyArgs :: "string list \<Rightarrow> SlotId list option \<Rightarrow> nat \<Rightarrow> BuildError + EExpression list" where
  "returnKeyArgs [] iks i = Inr []"
| "returnKeyArgs (elem # rest) iks i =
     (case iks of
        None \<Rightarrow> Inl (UndefinedBehaviour ''*outputs.getIndexKeySlots()'')
      | Some slots \<Rightarrow>
          (if i < length slots then
             (case returnKeyArgs rest iks (Suc i) of
                Inl e \<Rightarrow> Inl e
              | Inr args \<Rightarrow> Inr (EConstant (StringV elem) # EVariable (slots ! i) # args))
           else Inl (UndefinedBehaviour ''(*outputs.getIndexKeySlots())[i]'')))"

definition indexScanReturnKey ::
  "PlanNodeId \<Rightarrow> IndexScanParams \<Rightarrow> PlanStageReqs \<Rightarrow> PlanStage \<Rightarrow> PlanStageSlots \<Rightarrow> BuildState
    \<Rightarrow> BuildResult" where
  "indexScanReturnKey nid ixn reqs stage outputs st =
     (if reqsHas reqs kReturnKey then
        (case returnKeyArgs (ixnKeyPattern ixn) (indexKeySlots outputs) 0 of
           Inl e \<Rightarrow> Inl e
         | Inr mkObjArgs \<Rightarrow>
             (case generateSlotId st of
                (slot, st1) \<Rightarrow>
                  Inr (makeProjectStage stage nid slot (EFunction ''newObj'' mkObjArgs),
                       slotsSet outputs kReturnKey slot, st1)))
      else Inr (stage, outputs, st))"

definition indexScanResult ::
  "PlanNodeId \<Rightarrow> IndexScanParams \<Rightarrow> PlanStageReqs \<Rightarrow> PlanStage \<Rightarrow> PlanStageSlots \<Rightarrow> BuildState
    \<Rightarrow> BuildResult" where
  "indexScanResult nid ixn reqs stage outputs st =
     (if reqsHas reqs kResult then
        (case generateSlotId st of
           (slot, st1) \<Rightarrow>
             (case indexKeySlots outputs of
                None \<Rightarrow> Inl (UndefinedBehaviour ''*outputs.getIndexKeySlots()'')
              | Some iks \<Rightarrow>
                  (case rehydrateIndexKey stage (ixnKeyPattern ixn) nid iks slot of
                     None \<Rightarrow> Inl (UndefinedBehaviour ''slots[i]'')
                   | Some stage1 \<Rightarrow> Inr (stage1, slotsSet outputs kResult slot, st1))))
      else Inr (stage, outputs, st))"

definition indexScanOutputSlots ::
  "IndexScanParams \<Rightarrow> PlanStageReqs \<Rightarrow> IndexKeysInclusionSet \<Rightarrow> PlanStage \<Rightarrow> PlanStageSlots
    \<Rightarrow> BuildState \<Rightarrow> BuildResult" where
  "indexScanOutputSlots ixn reqs indexKeyBitset stage outputs st =
     (case reqIndexKeyBitset reqs of
        Some parentBits \<Rightarrow>
          (case indexKeySlots outputs of
             None \<Rightarrow> Inl (UndefinedBehaviour ''*outputs.getIndexKeySlots()'')
           | Some iks \<Rightarrow>
               (case makeIndexKeyOutputSlotsMatchingParentReqs (ixnKeyPattern ixn) parentBits
                       indexKeyBitset iks of
                  Inl e \<Rightarrow> Inl e
                | Inr slots \<Rightarrow> Inr (stage, setIndexKeySlots outputs (Some slots), st)))
      | None \<Rightarrow> Inr (stage, setIndexKeySlots outputs None, st))"

definition buildIndexScan ::
  "Generators \<Rightarrow> PlanNodeId \<Rightarrow> IndexScanParams \<Rightarrow> PlanStageReqs \<Rightarrow> BuildState \<Rightarrow> BuildResult" where
  "buildIndexScan ext nid ixn reqs st =
     (if \<not> (reqsHas reqs kReturnKey \<or> \<not> ixnAddKeyMetadata ixn)
      then Inl (InvariantFailure ''reqs.has(kReturnKey) || !ixn->addKeyMetadata'')
      else if reqsHas reqs kOplogTs then Inl (InvariantFailure ''!reqs.has(kOplogTs)'')
      else
        (case indexScanKeyBitset ixn reqs of
           Inl e \<Rightarrow> Inl e
         | Inr indexKeyBitset \<Rightarrow>
             (case generateIndexScan ext nid ixn indexKeyBitset st of
                Inl e \<Rightarrow> Inl e
              | Inr (stage, outputs, st1) \<Rightarrow>
                  (case indexScanReturnKey nid ixn reqs stage outputs st1 of
                     Inl e \<Rightarrow> Inl e
                   | Inr (stage2, outputs2, st2) \<Rightarrow>
                       (case indexScanResult nid ixn reqs stage2 outputs2 st2 of
                          Inl e \<Rightarrow> Inl e
                        | Inr (stage3, outputs3, st3) \<Rightarrow>
                            indexScanOutputSlots ixn reqs indexKeyBitset stage3 outputs3 st3)))))"

section \<open>Fetch\<close>

definition makeLoopJoinForFetch ::
  "PlanStage \<Rightarrow> SlotId \<Rightarrow> PlanNodeId \<Rightarrow> SlotId list \<Rightarrow> BuildState
    \<Rightarrow> (SlotId \<times> SlotId \<times> PlanStage) \<times> BuildState" where
  "makeLoopJoinForFetch inputStage seekKeySlot planNodeId slotsToForward st =
     (case generateSlotId st of
        (resultSlot, st1) \<Rightarrow>
          (case generateSlotId st1 of
             (recordIdSlot, st2) \<Rightarrow>
               ((resultSlot, recordIdSlot,
                 LoopJoinStage inputStage
                   (LimitSkipStage (ScanStage resultSlot recordIdSlot (Some seekKeySlot) planNodeId)
                      (Some 1) None planNodeId)
                   slotsToForward [seekKeySlot] planNodeId),
                st2)))"

definition withIndexKeySlots :: "SlotId list \<Rightarrow> PlanStageSlots \<Rightarrow> SlotId list" where
  "withIndexKeySlots relevantSlots outputs =
     relevantSlots @ (case indexKeySlots outputs of None \<Rightarrow> [] | Some iks \<Rightarrow> iks)"

text \<open>\<^verbatim>\<open>buildFetch\<close>, from the return of \<^verbatim>\<open>build(fn->children[0], childReqs)\<close> on.\<close>

definition buildFetchAfterChild ::
  "Generators \<Rightarrow> PlanNodeId \<Rightarrow> MatchExpression option \<Rightarrow> PlanStageReqs \<Rightarrow> PlanStage
    \<Rightarrow> PlanStageSlots \<Rightarrow> BuildState \<Rightarrow> BuildResult" where
  "buildFetchAfterChild ext nid flt reqs stage outputs st =
     (if \<not> slotsHas outputs kRecordId then Inl (UAssert 4822880)
      else if reqsHas reqs kReturnKey \<and> \<not> slotsHas outputs kReturnKey then Inl (UAssert 4953600)
      else
        (case forEachSlot outputs (reqsClear (reqsClear reqs kResult) kRecordId) of
           Inl e \<Rightarrow> Inl e
         | Inr relevantSlots \<Rightarrow>
             (case slotsGet outputs kRecordId of
                Inl e \<Rightarrow> Inl e
              | Inr seekKeySlot \<Rightarrow>
                  (case makeLoopJoinForFetch stage seekKeySlot nid
                          (withIndexKeySlots relevantSlots outputs) st of
                     ((fetchResultSlot, fetchRecordIdSlot, stage1), st1) \<Rightarrow>
                       (let outputs1 = slotsSet (slotsSet outputs kResult fetchResultSlot)
                                         kRecordId fetchRecordIdSlot in
                        case flt of
                          None \<Rightarrow> Inr (stage1, outputs1, st1)
                        | Some f \<Rightarrow>
                            (case forEachSlot outputs1 (reqsSet (reqsSet reqs kResult) kRecordId) of
                               Inl e \<Rightarrow> Inl e
                             | Inr relevantSlots2 \<Rightarrow>
                                 (case slotsGet outputs1 kResult of
                                    Inl e \<Rightarrow> Inl e
                                  | Inr resultSlot \<Rightarrow>
                                      (case generateFilter ext f stage1 resultSlot
                                              (withIndexKeySlots relevantSlots2 outputs1) nid st1 of
                                         Inl e \<Rightarrow> Inl e
                                       | Inr (unused, stage2, st2) \<Rightarrow>
                                           Inr (stage2, outputs1, st2)))))))))"



section \<open>Sort\<close>

text \<open>The \<^verbatim>\<open>makeSortKey\<close> lambda of \<^verbatim>\<open>buildSort\<close>.\<close>

definition makeSortKey :: "SlotId option \<Rightarrow> SlotId \<Rightarrow> EExpression" where
  "makeSortKey collatorSlot inputSlot =
     (case collatorSlot of
        None \<Rightarrow> makeVariable inputSlot
      | Some c \<Rightarrow> makeFunction ''collComparisonKey'' [makeVariable inputSlot, makeVariable c])"

function generateSortKeyTraversal ::
  "PlanStage \<Rightarrow> SlotId \<Rightarrow> FieldPath \<Rightarrow> SortDirection \<Rightarrow> nat \<Rightarrow> PlanNodeId \<Rightarrow> SlotId option
    \<Rightarrow> BuildState \<Rightarrow> BuildError + ((SlotId \<times> PlanStage) \<times> BuildState)" where
  "generateSortKeyTraversal inputStage inputSlot fp direction level planNodeId collatorSlot st =
     (if \<not> level < getPathLength fp then Inl (InvariantFailure ''level < fp.getPathLength()'')
      else
        (let isLeafField = (level = getPathLength fp - 1) in
         case (if level > 0 then
                 (let getFieldExpr = makeFunction ''getField''
                        [EVariable inputSlot, EConstant (StringV (getFieldName fp level))] in
                  case generateSlotId st of
                    (fieldSlot, st1) \<Rightarrow>
                      (fieldSlot,
                       makeProjectStage inputStage planNodeId fieldSlot
                         (if isLeafField then makeFillEmptyNull getFieldExpr else getFieldExpr),
                       st1))
               else (inputSlot, inputStage, st)) of
           (fieldSlot, fromBranch, st1) \<Rightarrow>
             (case (if isLeafField then
                      (case generateSlotId st1 of
                         (innerSlot, st2) \<Rightarrow>
                           Inr ((innerSlot,
                                 makeProjectStage (makeLimitCoScanTree planNodeId) planNodeId
                                   innerSlot (makeSortKey collatorSlot fieldSlot)),
                                st2))
                    else generateSortKeyTraversal (makeLimitCoScanTree planNodeId) fieldSlot fp
                           direction (level + 1) planNodeId collatorSlot st1) of
                Inl e \<Rightarrow> Inl e
              | Inr ((innerSlot, innerBranch), st2) \<Rightarrow>
                  (case generateSlotId st2 of
                     (traverseSlot, st3) \<Rightarrow>
                       (case generateSlotId st3 of
                          (outputSlot, st4) \<Rightarrow>
                            (let opr = (if direction = Ascending then less else greater);
                                 outputStage = TraverseStage fromBranch innerBranch fieldSlot
                                   traverseSlot innerSlot
                                   (EIf (makeBinaryOp opr
                                           (makeBinaryOp cmp3w (makeVariable innerSlot)
                                              (makeVariable traverseSlot))
                                           (EConstant (NumberInt64 0)))
                                      (makeVariable innerSlot) (makeVariable traverseSlot))
                                   planNodeId
                             in Inr ((outputSlot,
                                      makeProjectStage outputStage planNodeId outputSlot
                                        (if isLeafField
                                         then makeFillEmptyUndefined (makeVariable traverseSlot)
                                         else makeFillEmptyNull (makeVariable traverseSlot))),
                                     st4)))))))"
  by pat_completeness auto
termination
  by (relation "measure (\<lambda>(inputStage, inputSlot, fp, direction, level, rest). getPathLength fp - level)")
     auto

function generateArrayCheckForSortHelper ::
  "EExpression \<Rightarrow> FieldPath \<Rightarrow> nat \<Rightarrow> BuildState \<Rightarrow> BuildError + (EExpression \<times> BuildState)" where
  "generateArrayCheckForSortHelper inputExpr fp level st =
     (if \<not> level < getPathLength fp then Inl (InvariantFailure ''level < fp.getPathLength()'')
      else
        (let fieldExpr = makeFillEmptyNull (makeFunction ''getField''
               [inputExpr, EConstant (StringV (getFieldName fp level))]) in
         if level = getPathLength fp - 1 then Inr (makeFunction ''isArray'' [fieldExpr], st)
         else
           (case generateFrameId st of
              (frameId, st1) \<Rightarrow>
                (case generateArrayCheckForSortHelper (ELocalVariable frameId 0) fp (level + 1) st1 of
                   Inl e \<Rightarrow> Inl e
                 | Inr (rest, st2) \<Rightarrow>
                     Inr (ELocalBind frameId [fieldExpr]
                            (makeBinaryOp logicOr
                               (makeFunction ''isArray'' [ELocalVariable frameId 0]) rest),
                          st2)))))"
  by pat_completeness auto
termination
  by (relation "measure (\<lambda>(inputExpr, fp, level, st). getPathLength fp - level)") auto

definition generateArrayCheckForSort ::
  "SlotId \<Rightarrow> FieldPath \<Rightarrow> BuildState \<Rightarrow> BuildError + (EExpression \<times> BuildState)" where
  "generateArrayCheckForSort inputSlot fp st =
     (if getPathLength fp = 1 then Inr (makeFunction ''isArray'' [makeVariable inputSlot], st)
      else
        (case generateArrayCheckForSortHelper (makeVariable inputSlot) fp 1 st of
           Inl e \<Rightarrow> Inl e
         | Inr (rest, st1) \<Rightarrow>
             Inr (makeBinaryOp logicOr (makeFunction ''isArray'' [makeVariable inputSlot]) rest,
                  st1)))"

definition parallelArraysError :: EExpression where
  "parallelArraysError = EFail BadValue ''cannot sort with keys that are parallel arrays''"

text \<open>The two lambdas of \<^verbatim>\<open>failOnParallelArrays\<close>.\<close>

definition makeIsNotArrayCheck ::
  "SlotId \<Rightarrow> FieldPath \<Rightarrow> BuildState \<Rightarrow> BuildError + (EExpression \<times> BuildState)" where
  "makeIsNotArrayCheck slot fp st =
     (case generateArrayCheckForSort slot fp st of
        Inl e \<Rightarrow> Inl e
      | Inr (chk, st1) \<Rightarrow> Inr (makeNot chk, st1))"

definition makeIsArrayCheck ::
  "SlotId \<Rightarrow> FieldPath \<Rightarrow> BuildState \<Rightarrow> BuildError + (EExpression \<times> BuildState)" where
  "makeIsArrayCheck slot fp st =
     (case generateArrayCheckForSort slot fp st of
        Inl e \<Rightarrow> Inl e
      | Inr (chk, st1) \<Rightarrow> Inr (makeBinaryOp cmp3w chk (EConstant (Boolean False)), st1))"

text \<open>The loop that sums the array checks of the parts from the second on.\<close>

fun numArraysLoop ::
  "EExpression \<Rightarrow> (SlotId \<times> FieldPath) list \<Rightarrow> BuildState \<Rightarrow> BuildError + (EExpression \<times> BuildState)" where
  "numArraysLoop numArraysExpr [] st = Inr (numArraysExpr, st)"
| "numArraysLoop numArraysExpr ((slot, fp) # rest) st =
     (case makeIsArrayCheck slot fp st of
        Inl e \<Rightarrow> Inl e
      | Inr (chk, st1) \<Rightarrow> numArraysLoop (makeBinaryOp add numArraysExpr chk) rest st1)"

text \<open>
  \<^verbatim>\<open>failOnParallelArrays\<close>, over the sort-key slots \<open>orderBy\<close> paired with the field paths of
  the parts. In the two-part case the checks of the two parts are the arguments of one call:
  with \<open>secondFirst\<close> the check of the second part is generated first, otherwise that of the
  first part. Only the frame ids inside the two checks depend on it.
\<close>

definition failOnParallelArrays ::
  "bool \<Rightarrow> (SlotId \<times> FieldPath) list \<Rightarrow> BuildState
    \<Rightarrow> BuildError + (EExpression option \<times> BuildState)" where
  "failOnParallelArrays secondFirst keys st =
     (if length keys < 2 then Inr (None, st)
      else if length keys = 2 then
        (if secondFirst then
           (case makeIsNotArrayCheck (fst (keys ! 1)) (snd (keys ! 1)) st of
              Inl e \<Rightarrow> Inl e
            | Inr (chk1, st1) \<Rightarrow>
                (case makeIsNotArrayCheck (fst (keys ! 0)) (snd (keys ! 0)) st1 of
                   Inl e \<Rightarrow> Inl e
                 | Inr (chk0, st2) \<Rightarrow>
                     Inr (Some (makeBinaryOp logicOr chk0
                                  (makeBinaryOp logicOr chk1 parallelArraysError)),
                          st2)))
         else
           (case makeIsNotArrayCheck (fst (keys ! 0)) (snd (keys ! 0)) st of
              Inl e \<Rightarrow> Inl e
            | Inr (chk0, st1) \<Rightarrow>
                (case makeIsNotArrayCheck (fst (keys ! 1)) (snd (keys ! 1)) st1 of
                   Inl e \<Rightarrow> Inl e
                 | Inr (chk1, st2) \<Rightarrow>
                     Inr (Some (makeBinaryOp logicOr chk0
                                  (makeBinaryOp logicOr chk1 parallelArraysError)),
                          st2))))
      else
        (case makeIsArrayCheck (fst (keys ! 0)) (snd (keys ! 0)) st of
           Inl e \<Rightarrow> Inl e
         | Inr (chk0, st1) \<Rightarrow>
             (case numArraysLoop chk0 (tl keys) st1 of
                Inl e \<Rightarrow> Inl e
              | Inr (numArraysExpr, st2) \<Rightarrow>
                  Inr (Some (makeBinaryOp logicOr
                               (makeBinaryOp lessEq numArraysExpr (EConstant (NumberInt32 1)))
                               parallelArraysError),
                       st2))))"

text \<open>
  The first loop of \<^verbatim>\<open>buildSort\<close> over the sort pattern: it asserts that every part has
  a field path, computes \<^verbatim>\<open>hasPartsWithCommonPrefix\<close> with \<^verbatim>\<open>prefixSet\<close> and records the
  directions. The model also returns the field paths, which the later loops dereference.
\<close>

fun sortPatternLoop ::
  "SortPatternPart list \<Rightarrow> string set \<Rightarrow> bool
    \<Rightarrow> BuildError + (bool \<times> SortDirection list \<times> FieldPath list)" where
  "sortPatternLoop [] prefixSet hasPartsWithCommonPrefix = Inr (hasPartsWithCommonPrefix, [], [])"
| "sortPatternLoop (part # rest) prefixSet hasPartsWithCommonPrefix =
     (case fieldPath part of
        None \<Rightarrow> Inl (TAssert 5037002)
      | Some fp \<Rightarrow>
          (case (if \<not> hasPartsWithCommonPrefix
                 then sortPatternLoop rest (insert (getFieldName fp 0) prefixSet)
                        (getFieldName fp 0 \<in> prefixSet)
                 else sortPatternLoop rest prefixSet hasPartsWithCommonPrefix) of
             Inl e \<Rightarrow> Inl e
           | Inr (h, direction, paths) \<Rightarrow>
               Inr (h, (if isAscending part then Ascending else Descending) # direction,
                    fp # paths)))"

text \<open>The loop of the fast regime that projects the top-level field of every part.\<close>

fun sortProjectLoop ::
  "FieldPath list \<Rightarrow> SlotId \<Rightarrow> BuildState \<Rightarrow> (SlotId \<times> EExpression) list \<times> SlotId list \<times> BuildState" where
  "sortProjectLoop [] resultSlot st = ([], [], st)"
| "sortProjectLoop (fp # rest) resultSlot st =
     (case generateSlotId st of
        (fieldSlot, st1) \<Rightarrow>
          (case sortProjectLoop rest resultSlot st1 of
             (projectMap, orderBy, st2) \<Rightarrow>
               ((fieldSlot,
                 makeFillEmptyNull (makeFunction ''getField''
                   [makeVariable resultSlot, EConstant (StringV (getFieldName fp 0))]))
                  # projectMap,
                fieldSlot # orderBy, st2)))"

text \<open>The loop of the fast regime that builds the traversal of every part.\<close>

fun sortKeyLoop ::
  "PlanStage \<Rightarrow> (SlotId \<times> FieldPath \<times> SortDirection) list \<Rightarrow> PlanNodeId \<Rightarrow> SlotId option
    \<Rightarrow> BuildState \<Rightarrow> BuildError + (PlanStage \<times> SlotId list \<times> BuildState)" where
  "sortKeyLoop inputStage [] nid collatorSlot st = Inr (inputStage, [], st)"
| "sortKeyLoop inputStage ((slot, fp, direction) # rest) nid collatorSlot st =
     (case generateSortKeyTraversal inputStage slot fp direction 0 nid collatorSlot st of
        Inl e \<Rightarrow> Inl e
      | Inr ((sortKeySlot, stage1), st1) \<Rightarrow>
          (case sortKeyLoop stage1 rest nid collatorSlot st1 of
             Inl e \<Rightarrow> Inl e
           | Inr (stage2, orderBy, st2) \<Rightarrow> Inr (stage2, sortKeySlot # orderBy, st2)))"

text \<open>The branch of \<^verbatim>\<open>buildSort\<close> for a pattern without a common prefix.\<close>

definition buildSortFast ::
  "bool \<Rightarrow> PlanNodeId \<Rightarrow> FieldPath list \<Rightarrow> SortDirection list \<Rightarrow> SlotId option \<Rightarrow> PlanStage
    \<Rightarrow> PlanStageSlots \<Rightarrow> BuildState
    \<Rightarrow> BuildError + (PlanStage \<times> SlotId list \<times> SortDirection list \<times> BuildState)" where
  "buildSortFast secondFirst nid paths direction collatorSlot inputStage outputs st =
     (case slotsGet outputs kResult of
        Inl e \<Rightarrow> Inl e
      | Inr resultSlot \<Rightarrow>
          (case sortProjectLoop paths resultSlot st of
             (projectMap, orderBy, st1) \<Rightarrow>
               (let stage1 = ProjectStage inputStage projectMap nid in
                case failOnParallelArrays secondFirst (zip orderBy paths) st1 of
                  Inl e \<Rightarrow> Inl e
                | Inr (chk, st2) \<Rightarrow>
                    (case (case chk of
                             None \<Rightarrow> (stage1, st2)
                           | Some e \<Rightarrow>
                               (case generateSlotId st2 of
                                  (slot, st3) \<Rightarrow> (makeProjectStage stage1 nid slot e, st3))) of
                       (stage2, st3) \<Rightarrow>
                         (case sortKeyLoop stage2 (zip orderBy (zip paths direction)) nid
                                 collatorSlot st3 of
                            Inl e \<Rightarrow> Inl e
                          | Inr (stage3, orderBy', st4) \<Rightarrow>
                              Inr (stage3, orderBy', direction, st4))))))"

text \<open>The branch for a pattern in which two parts share their top-level field.\<close>

definition buildSortSlow ::
  "BuildContext \<Rightarrow> PlanNodeId \<Rightarrow> SortParams \<Rightarrow> PlanStage \<Rightarrow> PlanStageSlots \<Rightarrow> BuildState
    \<Rightarrow> BuildError + (PlanStage \<times> SlotId list \<times> SortDirection list \<times> BuildState)" where
  "buildSortSlow ctx nid sn inputStage outputs st =
     (case generateSlotId st of
        (slot, st1) \<Rightarrow>
          (case slotsGet outputs kResult of
             Inl e \<Rightarrow> Inl e
           | Inr resultSlot \<Rightarrow>
               Inr (makeProjectStage inputStage nid slot
                      (makeFunction ''generateSortKey''
                         [EConstant (SortSpecV (snPattern sn) (cqHasCollator ctx)),
                          makeVariable resultSlot]),
                    [slot], [Ascending], st1)))"

text \<open>\<^verbatim>\<open>buildSort\<close>, from the return of \<^verbatim>\<open>build(sn->children[0], childReqs)\<close> on.\<close>

definition buildSortAfterChild ::
  "BuildContext \<Rightarrow> PlanNodeId \<Rightarrow> SortParams \<Rightarrow> PlanStageReqs \<Rightarrow> PlanStage \<Rightarrow> PlanStageSlots
    \<Rightarrow> BuildState \<Rightarrow> BuildResult" where
  "buildSortAfterChild ctx nid sn childReqs inputStage outputs st =
     (case sortPatternLoop (snPattern sn) {} False of
        Inl e \<Rightarrow> Inl e
      | Inr (hasPartsWithCommonPrefix, direction, paths) \<Rightarrow>
          (case (if \<not> hasPartsWithCommonPrefix
                 then buildSortFast (secondArgumentFirst ctx) nid paths direction
                        (getSlotIfExists st ''collator'') inputStage outputs st
                 else buildSortSlow ctx nid sn inputStage outputs st) of
             Inl e \<Rightarrow> Inl e
           | Inr (stage1, orderBy, direction', st1) \<Rightarrow>
               (case forEachSlot outputs childReqs of
                  Inl e \<Rightarrow> Inl e
                | Inr values \<Rightarrow>
                    Inr (SortStage stage1 orderBy direction' values
                           (if snLimit sn \<noteq> 0 then Some (snLimit sn) else None)
                           (snMaxMemoryUsageBytes sn) (cqAllowDiskUse ctx) nid,
                         outputs, st1))))"



section \<open>Translators of the inner nodes, from the return of their children on\<close>

definition buildLimitStage ::
  "PlanNodeId \<Rightarrow> nat option \<Rightarrow> nat option \<Rightarrow> PlanStageReqs \<Rightarrow> PlanStage \<Rightarrow> PlanStage" where
  "buildLimitStage nid limit skip reqs stage =
     (if \<not> isTailableCollScanResumeBranch reqs then LimitSkipStage stage limit skip nid
      else stage)"

text \<open>The skip and the child of a node of type \<^verbatim>\<open>STAGE_SKIP\<close>.\<close>

fun skipChild :: "QuerySolutionNode \<Rightarrow> (nat \<times> QuerySolutionNode) option" where
  "skipChild (SkipNode n skip child) = Some (skip, child)"
| "skipChild other = None"

lemma skipChild_size: "skipChild n = Some (skip, c) \<Longrightarrow> size c < size n"
  by (cases n) auto

definition buildProjectionSimpleAfterChild ::
  "PlanNodeId \<Rightarrow> string list \<Rightarrow> PlanStage \<Rightarrow> PlanStageSlots \<Rightarrow> BuildState \<Rightarrow> BuildResult" where
  "buildProjectionSimpleAfterChild nid requiredFields inputStage outputs st =
     (case slotsGet outputs kResult of
        Inl e \<Rightarrow> Inl e
      | Inr childResult \<Rightarrow>
          (case generateSlotId st of
             (slot, st1) \<Rightarrow>
               Inr (MakeBsonObjStage inputStage slot (Some childResult) requiredFields [] [] nid,
                    slotsSet outputs kResult slot, st1)))"

definition buildProjectionCoveredAfterChild ::
  "PlanNodeId \<Rightarrow> string list \<Rightarrow> PlanStage \<Rightarrow> PlanStageSlots \<Rightarrow> BuildState \<Rightarrow> BuildResult" where
  "buildProjectionCoveredAfterChild nid keyFieldNames inputStage outputs st =
     (case indexKeySlots outputs of
        None \<Rightarrow> Inl (UndefinedBehaviour ''*outputs.extractIndexKeySlots()'')
      | Some iks \<Rightarrow>
          (case generateSlotId st of
             (slot, st1) \<Rightarrow>
               Inr (MakeBsonObjStage inputStage slot None [] keyFieldNames iks nid,
                    slotsSet (setIndexKeySlots outputs None) kResult slot, st1)))"

definition buildProjectionDefaultAfterChild ::
  "Generators \<Rightarrow> PlanNodeId \<Rightarrow> Projection \<Rightarrow> PlanStageReqs \<Rightarrow> PlanStage \<Rightarrow> PlanStageSlots
    \<Rightarrow> BuildState \<Rightarrow> BuildResult" where
  "buildProjectionDefaultAfterChild ext nid proj reqs inputStage outputs st =
     (case forEachSlot outputs reqs of
        Inl e \<Rightarrow> Inl e
      | Inr relevantSlots \<Rightarrow>
          (case slotsGet outputs kResult of
             Inl e \<Rightarrow> Inl e
           | Inr resultSlot \<Rightarrow>
               (case generateProjection ext proj inputStage resultSlot relevantSlots nid st of
                  Inl e \<Rightarrow> Inl e
                | Inr (slot, stage, st1) \<Rightarrow> Inr (stage, slotsSet outputs kResult slot, st1))))"

text \<open>
  What a loop over the children keeps of one child: its stage and two slot vectors.
\<close>

type_synonym ChildItem = "PlanStage \<times> SlotId list \<times> SlotId list"

definition orChildAfter ::
  "PlanStageReqs \<Rightarrow> QuerySolutionNode \<Rightarrow> PlanStage \<Rightarrow> PlanStageSlots \<Rightarrow> BuildError + ChildItem" where
  "orChildAfter childReqs child stage outputs =
     (case forEachSlot outputs childReqs of
        Inl e \<Rightarrow> Inl e
      | Inr sv \<Rightarrow> Inr (stage, sv, []))"

definition buildOrAfterChildren ::
  "Generators \<Rightarrow> PlanNodeId \<Rightarrow> bool \<Rightarrow> MatchExpression option \<Rightarrow> PlanStageReqs \<Rightarrow> PlanStageReqs
    \<Rightarrow> ChildItem list \<Rightarrow> BuildState \<Rightarrow> BuildResult" where
  "buildOrAfterChildren ext nid dedup flt reqs childReqs items st =
     (case makePlanStageSlots childReqs st of
        (outputs, st1) \<Rightarrow>
          (case forEachSlot outputs childReqs of
             Inl e \<Rightarrow> Inl e
           | Inr unionOutputSlots \<Rightarrow>
               (case (if dedup then
                        (case slotsGet outputs kRecordId of
                           Inl e \<Rightarrow> Inl e
                         | Inr rid \<Rightarrow>
                             Inr (UniqueStage
                                    (UnionStage (map fst items) (map (\<lambda>i. fst (snd i)) items)
                                       unionOutputSlots nid)
                                    [rid] nid))
                      else Inr (UnionStage (map fst items) (map (\<lambda>i. fst (snd i)) items)
                                  unionOutputSlots nid)) of
                  Inl e \<Rightarrow> Inl e
                | Inr stage \<Rightarrow>
                    (case flt of
                       None \<Rightarrow> Inr (stage, outputs, st1)
                     | Some f \<Rightarrow>
                         (case slotsGet outputs kResult of
                            Inl e \<Rightarrow> Inl e
                          | Inr resultSlot \<Rightarrow>
                              (case forEachSlot outputs (reqsClear reqs kResult) of
                                 Inl e \<Rightarrow> Inl e
                               | Inr forwarded \<Rightarrow>
                                   (case generateFilter ext f stage resultSlot
                                           (resultSlot # forwarded) nid st1 of
                                      Inl e \<Rightarrow> Inl e
                                    | Inr (unused, stage2, st2) \<Rightarrow>
                                        Inr (stage2, outputs, st2))))))))"

definition makeFtsMatcher :: "BuildContext \<Rightarrow> string \<Rightarrow> bool \<Rightarrow> BuildError + SbeValue" where
  "makeFtsMatcher ctx indexName queryIsFTSQueryImpl =
     (if \<not> hasDescriptor (findIndexByName ctx indexName) then Inl (TAssert 5432209)
      else if \<not> hasEntry (findIndexByName ctx indexName) then Inl (TAssert 5432210)
      else if \<not> hasAccessMethod (findIndexByName ctx indexName) then Inl (TAssert 5432211)
      else if \<not> queryIsFTSQueryImpl then Inl (TAssert 5432220)
      else Inr (FtsMatcherV indexName))"

definition buildTextMatchAfterChild ::
  "BuildContext \<Rightarrow> PlanNodeId \<Rightarrow> TextMatchParams \<Rightarrow> PlanStageReqs \<Rightarrow> PlanStage \<Rightarrow> PlanStageSlots
    \<Rightarrow> BuildState \<Rightarrow> BuildResult" where
  "buildTextMatchAfterChild ctx nid tm reqs stage outputs st =
     (if \<not> slotsHas outputs kResult then Inl (TAssert 5432217)
      else
        (case makeFtsMatcher ctx (tmIndexName tm) (tmQueryIsFTSQueryImpl tm) of
           Inl e \<Rightarrow> Inl e
         | Inr matcher \<Rightarrow>
             (case slotsGet outputs kResult of
                Inl e \<Rightarrow> Inl e
              | Inr resultSlot \<Rightarrow>
                  (let stage1 = FilterStage False stage
                         (EIf (makeFunction ''isObject'' [makeVariable resultSlot])
                            (makeFunction ''ftsMatch'' [EConstant matcher, makeVariable resultSlot])
                            (EFail (ErrorNumber 4623400)
                               ''textmatch requires input to be an object''))
                         nid in
                   if reqsHas reqs kReturnKey then
                     (case generateSlotId st of
                        (slot, st1) \<Rightarrow>
                          Inr (makeProjectStage stage1 nid slot (makeFunction ''newObj'' []),
                               slotsSet outputs kReturnKey slot, st1))
                   else Inr (stage1, outputs, st)))))"

definition buildReturnKeyAfterChild ::
  "PlanStage \<Rightarrow> PlanStageSlots \<Rightarrow> BuildState \<Rightarrow> BuildResult" where
  "buildReturnKeyAfterChild stage outputs st =
     (case slotsGet outputs kReturnKey of
        Inl e \<Rightarrow> Inl e
      | Inr slot \<Rightarrow> Inr (stage, slotsClear (slotsSet outputs kResult slot) kReturnKey, st))"

subsection \<open>And-hash and and-sorted\<close>

definition getIdAndResult :: "PlanStageSlots \<Rightarrow> BuildError + (SlotId \<times> SlotId)" where
  "getIdAndResult outputs =
     (case slotsGet outputs kRecordId of
        Inl e \<Rightarrow> Inl e
      | Inr idSlot \<Rightarrow>
          (case slotsGet outputs kResult of
             Inl e \<Rightarrow> Inl e
           | Inr resultSlot \<Rightarrow> Inr (idSlot, resultSlot)))"

definition checkIdAndResult :: "nat \<Rightarrow> nat \<Rightarrow> PlanStageSlots \<Rightarrow> BuildError + (SlotId \<times> SlotId)" where
  "checkIdAndResult idCode resultCode outputs =
     (if \<not> slotsHas outputs kRecordId then Inl (TAssert idCode)
      else if \<not> slotsHas outputs kResult then Inl (TAssert resultCode)
      else getIdAndResult outputs)"

definition joinChildAfter ::
  "nat \<Rightarrow> nat \<Rightarrow> QuerySolutionNode \<Rightarrow> PlanStage \<Rightarrow> PlanStageSlots \<Rightarrow> BuildError + ChildItem" where
  "joinChildAfter idCode resultCode child stage outputs =
     (case checkIdAndResult idCode resultCode outputs of
        Inl e \<Rightarrow> Inl e
      | Inr (idSlot, resultSlot) \<Rightarrow> Inr (stage, [idSlot], [resultSlot]))"

text \<open>The \<^verbatim>\<open>outputs\<close> both translators designate: fresh slots for \<open>reqs\<close>, with the inner
  child's record id and result in place of the fresh ones.\<close>

definition designateOutputs ::
  "PlanStageReqs \<Rightarrow> SlotId \<Rightarrow> SlotId \<Rightarrow> BuildState \<Rightarrow> PlanStageSlots \<times> BuildState" where
  "designateOutputs reqs innerIdSlot innerResultSlot st =
     (case makePlanStageSlots reqs st of
        (outputs, st1) \<Rightarrow>
          (let outputs1 = (if reqsHas reqs kRecordId then slotsSet outputs kRecordId innerIdSlot
                           else outputs);
               outputs2 = (if reqsHas reqs kResult then slotsSet outputs1 kResult innerResultSlot
                           else outputs1)
           in (outputs2, st1)))"

fun hashJoinRest ::
  "PlanStage \<Rightarrow> ChildItem list \<Rightarrow> SlotId \<Rightarrow> SlotId \<Rightarrow> SlotId option \<Rightarrow> PlanNodeId \<Rightarrow> PlanStage" where
  "hashJoinRest hashJoinStage [] innerIdSlot innerResultSlot collatorSlot nid = hashJoinStage"
| "hashJoinRest hashJoinStage ((stage, condSlots, projectSlots) # rest) innerIdSlot innerResultSlot
      collatorSlot nid =
     hashJoinRest
       (HashJoinStage stage hashJoinStage condSlots projectSlots [innerIdSlot] [innerResultSlot]
          collatorSlot nid)
       rest innerIdSlot innerResultSlot collatorSlot nid"

fun mergeJoinRest ::
  "PlanStage \<Rightarrow> ChildItem list \<Rightarrow> SlotId \<Rightarrow> SlotId \<Rightarrow> PlanNodeId \<Rightarrow> PlanStage" where
  "mergeJoinRest mergeJoinStage [] innerIdSlot innerResultSlot nid = mergeJoinStage"
| "mergeJoinRest mergeJoinStage ((stage, keySlots, projectSlots) # rest) innerIdSlot innerResultSlot
      nid =
     mergeJoinRest
       (MergeJoinStage stage mergeJoinStage keySlots projectSlots [innerIdSlot] [innerResultSlot]
          [Ascending] nid)
       rest innerIdSlot innerResultSlot nid"

subsection \<open>Sort-merge\<close>

fun joinDots :: "string list \<Rightarrow> string" where
  "joinDots [] = []"
| "joinDots [p] = p"
| "joinDots (p # q # rest) = p @ CHR ''.'' # joinDots (q # rest)"

definition fullPath :: "FieldPath \<Rightarrow> string" where
  "fullPath fp = joinDots (fieldNames fp)"

text \<open>
  The loop of \<^verbatim>\<open>buildSortMerge\<close> over the key pattern of a child's index scan: the bitset of
  the positions whose field is the full path of a sort part, and the map from these fields to
  their rank among the chosen positions.
\<close>

fun sortMergeBitsetLoop ::
  "string list \<Rightarrow> string list \<Rightarrow> nat \<Rightarrow> IndexKeysInclusionSet \<Rightarrow> (string \<times> nat) list
    \<Rightarrow> BuildError + (IndexKeysInclusionSet \<times> (string \<times> nat) list)" where
  "sortMergeBitsetLoop [] sortPaths i bits positionMap = Inr (bits, positionMap)"
| "sortMergeBitsetLoop (elt # rest) sortPaths i bits positionMap =
     (if elt \<in> set sortPaths then
        (if i \<ge> kMaxCompoundIndexKeys then Inl StdOutOfRange
         else sortMergeBitsetLoop rest sortPaths (Suc i) (insert i bits)
                (if map_of positionMap elt = None
                 then positionMap @ [(elt, length positionMap)] else positionMap))
      else sortMergeBitsetLoop rest sortPaths (Suc i) bits positionMap)"

fun sortMergePaths :: "SortPatternPart list \<Rightarrow> BuildError + (SortDirection list \<times> string list)" where
  "sortMergePaths [] = Inr ([], [])"
| "sortMergePaths (part # rest) =
     (case fieldPath part of
        None \<Rightarrow> Inl (UAssert 4822881)
      | Some fp \<Rightarrow>
          (case sortMergePaths rest of
             Inl e \<Rightarrow> Inl e
           | Inr (direction, paths) \<Rightarrow>
               Inr ((if isAscending part then Ascending else Descending) # direction,
                    fullPath fp # paths)))"

definition sortMergeChildReqs ::
  "string list \<Rightarrow> PlanStageReqs \<Rightarrow> QuerySolutionNode \<Rightarrow> BuildError + PlanStageReqs" where
  "sortMergeChildReqs sortPaths childReqs child =
     (case getNodeByType child STAGE_IXSCAN of
        Some (IndexScanNode n ixn) \<Rightarrow>
          (case sortMergeBitsetLoop (ixnKeyPattern ixn) sortPaths 0 {} [] of
             Inl e \<Rightarrow> Inl e
           | Inr (bits, positionMap) \<Rightarrow> Inr (childReqs\<lparr>reqIndexKeyBitset := Some bits\<rparr>))
      | _ \<Rightarrow> Inl (TAssert 5184300))"

fun sortMergeKeys :: "string list \<Rightarrow> (string \<times> nat) list \<Rightarrow> SlotId list \<Rightarrow> BuildError + SlotId list" where
  "sortMergeKeys [] positionMap indexKeys = Inr []"
| "sortMergeKeys (partPath # rest) positionMap indexKeys =
     (case map_of positionMap partPath of
        None \<Rightarrow> Inl (TAssert 5184303)
      | Some indexPos \<Rightarrow>
          (if \<not> indexPos < length indexKeys then Inl (TAssert 5184304)
           else (case sortMergeKeys rest positionMap indexKeys of
                   Inl e \<Rightarrow> Inl e
                 | Inr keys \<Rightarrow> Inr (indexKeys ! indexPos # keys))))"

definition sortMergeChildAfter ::
  "string list \<Rightarrow> bool \<Rightarrow> PlanStageReqs \<Rightarrow> QuerySolutionNode \<Rightarrow> PlanStage \<Rightarrow> PlanStageSlots
    \<Rightarrow> BuildError + ChildItem" where
  "sortMergeChildAfter sortPaths dedup childReqs child stage outputs =
     (if dedup \<and> \<not> slotsHas outputs kRecordId then Inl (TAssert 5184301)
      else
        (case indexKeySlots outputs of
           None \<Rightarrow> Inl (TAssert 5184302)
         | Some indexKeys \<Rightarrow>
             (case getNodeByType child STAGE_IXSCAN of
                Some (IndexScanNode n ixn) \<Rightarrow>
                  (case sortMergeBitsetLoop (ixnKeyPattern ixn) sortPaths 0 {} [] of
                     Inl e \<Rightarrow> Inl e
                   | Inr (bits, positionMap) \<Rightarrow>
                       (case sortMergeKeys sortPaths positionMap indexKeys of
                          Inl e \<Rightarrow> Inl e
                        | Inr inputKeysForChild \<Rightarrow>
                            (case forEachSlot (setIndexKeySlots outputs None) childReqs of
                               Inl e \<Rightarrow> Inl e
                             | Inr sv \<Rightarrow> Inr (stage, inputKeysForChild, sv))))
              | _ \<Rightarrow> Inl (TAssert 5184300))))"

definition buildSortMergeAfterChildren ::
  "PlanNodeId \<Rightarrow> bool \<Rightarrow> SortDirection list \<Rightarrow> PlanStageReqs \<Rightarrow> ChildItem list \<Rightarrow> BuildState
    \<Rightarrow> BuildResult" where
  "buildSortMergeAfterChildren nid dedup direction childReqs items st =
     (case makePlanStageSlots childReqs st of
        (outputs, st1) \<Rightarrow>
          (case forEachSlot outputs childReqs of
             Inl e \<Rightarrow> Inl e
           | Inr outputVals \<Rightarrow>
               (let stage = SortedMergeStage (map fst items) (map (\<lambda>i. fst (snd i)) items) direction
                              (map (\<lambda>i. snd (snd i)) items) outputVals nid in
                if dedup then
                  (case slotsGet outputs kRecordId of
                     Inl e \<Rightarrow> Inl e
                   | Inr rid \<Rightarrow> Inr (UniqueStage stage [rid] nid, outputs, st1))
                else Inr (stage, outputs, st1))))"

subsection \<open>Shard filter\<close>

definition buildShardFilterGivenShardKeySlot :: "SlotId \<Rightarrow> PlanStage \<Rightarrow> PlanNodeId \<Rightarrow> PlanStage" where
  "buildShardFilterGivenShardKeySlot shardKeySlot childStage nid =
     FilterStage False childStage
       (makeFunction ''shardFilter'' [EConstant ShardFiltererV, EVariable shardKeySlot]) nid"

text \<open>The index key pattern \<^verbatim>\<open>buildShardFilter\<close> reads off its child.\<close>

fun childIndexKeyPattern :: "QuerySolutionNode \<Rightarrow> string list" where
  "childIndexKeyPattern (IndexScanNode n ixn) = ixnKeyPattern ixn"
| "childIndexKeyPattern (VirtualScanNode n vsn) = vsnIndexKeyPattern vsn"
| "childIndexKeyPattern other = []"

text \<open>
  The requirements \<^verbatim>\<open>buildShardFilterCovered\<close> passes to its child: the parent's with the
  shard key's positions added to the bitset.
\<close>

definition shardFilterCoveredChildReqs ::
  "IndexKeysInclusionSet \<Rightarrow> PlanStageReqs \<Rightarrow> PlanStageReqs" where
  "shardFilterCoveredChildReqs shardKeyIndexReqs childReqs =
     childReqs\<lparr>reqIndexKeyBitset :=
       Some ((case reqIndexKeyBitset childReqs of None \<Rightarrow> {} | Some bits \<Rightarrow> bits)
             \<union> shardKeyIndexReqs)\<rparr>"

text \<open>\<^verbatim>\<open>buildShardFilterCovered\<close>, from the return of \<^verbatim>\<open>build(child, childReqs)\<close> on.\<close>

definition buildShardFilterCoveredAfterChild ::
  "PlanNodeId \<Rightarrow> string list \<Rightarrow> string list \<Rightarrow> IndexKeysInclusionSet option
    \<Rightarrow> IndexKeysInclusionSet \<Rightarrow> PlanStage \<Rightarrow> PlanStageSlots \<Rightarrow> BuildState \<Rightarrow> BuildResult" where
  "buildShardFilterCoveredAfterChild nid indexKeyPattern projectFields parentIndexKeyReqs
      childIndexKeyReqs stage outputs st =
     (case indexKeySlots outputs of
        None \<Rightarrow> Inl (InvariantFailure ''outputs.getIndexKeySlots()'')
      | Some iks \<Rightarrow>
          (case generateSlotId st of
             (shardKeySlot, st1) \<Rightarrow>
               (let filterStage = buildShardFilterGivenShardKeySlot shardKeySlot
                      (MakeBsonObjStage stage shardKeySlot None [] projectFields iks nid) nid in
                case parentIndexKeyReqs of
                  None \<Rightarrow> Inr (filterStage, setIndexKeySlots outputs None, st1)
                | Some parentBits \<Rightarrow>
                    (case makeIndexKeyOutputSlotsMatchingParentReqs indexKeyPattern parentBits
                            childIndexKeyReqs iks of
                       Inl e \<Rightarrow> Inl e
                     | Inr slots \<Rightarrow>
                         Inr (filterStage, setIndexKeySlots outputs (Some slots), st1)))))"

text \<open>The loop of \<^verbatim>\<open>buildShardFilter\<close> over the shard key pattern.\<close>

fun shardKeyProjections ::
  "Generators \<Rightarrow> (string \<times> bool) list \<Rightarrow> SlotId \<Rightarrow> BuildState
    \<Rightarrow> (SlotId \<times> EExpression) list \<times> SlotId list \<times> string list \<times> BuildState" where
  "shardKeyProjections ext [] resultSlot st = ([], [], [], st)"
| "shardKeyProjections ext ((fieldName, hashed) # rest) resultSlot st =
     (case generateSlotId st of
        (fieldSlot, st1) \<Rightarrow>
          (case generateShardKeyBinding ext (fieldRefParts fieldName) (EVariable resultSlot) 0 st1 of
             (shardKeyBinding, st2) \<Rightarrow>
               (case shardKeyProjections ext rest resultSlot st2 of
                  (projections, fieldSlots, projectFields, st3) \<Rightarrow>
                    ((fieldSlot,
                      if hashed then makeFunction ''shardHash'' [shardKeyBinding]
                      else shardKeyBinding) # projections,
                     fieldSlot # fieldSlots, fieldName # projectFields, st3))))"

fun arrayChecksLoop :: "EExpression \<Rightarrow> SlotId list \<Rightarrow> EExpression" where
  "arrayChecksLoop arrayChecks [] = arrayChecks"
| "arrayChecksLoop arrayChecks (fieldSlot # rest) =
     arrayChecksLoop
       (makeBinaryOp logicOr arrayChecks (makeNot (makeFunction ''exists'' [EVariable fieldSlot])))
       rest"

text \<open>\<^verbatim>\<open>buildShardFilter\<close> on its fallback path, from the return of the child on.\<close>

definition buildShardFilterAfterChild ::
  "Generators \<Rightarrow> BuildContext \<Rightarrow> PlanNodeId \<Rightarrow> PlanStage \<Rightarrow> PlanStageSlots \<Rightarrow> BuildState
    \<Rightarrow> BuildResult" where
  "buildShardFilterAfterChild ext ctx nid stage outputs st =
     (case (if shardKeyPattern ctx = [] then Inr 0 else slotsGet outputs kResult) of
        Inl e \<Rightarrow> Inl e
      | Inr resultSlot \<Rightarrow>
          (case shardKeyProjections ext (shardKeyPattern ctx) resultSlot st of
             (projections, fieldSlots, projectFields, st1) \<Rightarrow>
               (case generateSlotId st1 of
                  (shardKeySlot, st2) \<Rightarrow>
                    (case fieldSlots of
                       [] \<Rightarrow> Inl (InvariantFailure ''fieldSlots.size() > 0'')
                     | firstSlot # otherSlots \<Rightarrow>
                         (case generateSlotId st2 of
                            (finalShardKeySlot, st3) \<Rightarrow>
                              Inr (buildShardFilterGivenShardKeySlot finalShardKeySlot
                                     (makeProjectStage
                                        (MakeBsonObjStage (ProjectStage stage projections nid)
                                           shardKeySlot None [] projectFields fieldSlots nid)
                                        nid finalShardKeySlot
                                        (EIf (arrayChecksLoop
                                                (makeNot (EFunction ''exists''
                                                            [EVariable firstSlot]))
                                                otherSlots)
                                           (EConstant Nothing) (EVariable shardKeySlot)))
                                     nid,
                                   outputs, st3))))))"

subsection \<open>The union for a tailable collection scan\<close>

text \<open>\<^verbatim>\<open>makeUnionForTailableCollScan\<close>, from the two branches on.\<close>

definition makeTailableUnion ::
  "PlanNodeId \<Rightarrow> PlanStageReqs \<Rightarrow> SlotId \<Rightarrow> PlanStage \<Rightarrow> SlotId list \<Rightarrow> PlanStage \<Rightarrow> SlotId list
    \<Rightarrow> BuildState \<Rightarrow> BuildResult" where
  "makeTailableUnion nid reqs resumeRecordIdSlot anchorBranch anchorBranchSlots resumeBranch
      resumeBranchSlots st =
     (if length anchorBranchSlots \<noteq> length resumeBranchSlots
      then Inl (InvariantFailure ''anchorBranchSlots.size() == resumeBranchSlots.size()'')
      else
        (case makePlanStageSlots reqs st of
           (outputs, st1) \<Rightarrow>
             (case forEachSlot outputs reqs of
                Inl e \<Rightarrow> Inl e
              | Inr unionOutputSlots \<Rightarrow>
                  Inr (UnionStage
                         [FilterStage True anchorBranch
                            (makeNot (makeFunction ''exists'' [EVariable resumeRecordIdSlot])) nid,
                          FilterStage True (LimitSkipStage resumeBranch None (Some 1) nid)
                            (EFunction ''exists'' [EVariable resumeRecordIdSlot]) nid]
                         [anchorBranchSlots, resumeBranchSlots] unionOutputSlots nid,
                       outputs, st1))))"



section \<open>The dispatcher and the recursive translators\<close>

text \<open>
  \<open>build\<close> is \<^verbatim>\<open>SlotBasedStageBuilder::build(root, reqs)\<close>, \<open>buildNode\<close> the call through
  the table \<^verbatim>\<open>kStageBuilders\<close> with one equation per translator, and \<open>buildChildren\<close> a loop
  of a translator over its children: \<open>reqsFor\<close> gives the requirements for a child and
  \<open>after\<close> what the loop body does with the child's stage and outputs.
\<close>

function build ::
    "Generators \<Rightarrow> BuildContext \<Rightarrow> QuerySolutionNode \<Rightarrow> PlanStageReqs \<Rightarrow> BuildState \<Rightarrow> BuildResult"
  and makeUnionForTailableCollScan ::
    "Generators \<Rightarrow> BuildContext \<Rightarrow> QuerySolutionNode \<Rightarrow> PlanStageReqs \<Rightarrow> BuildState \<Rightarrow> BuildResult"
  and buildNode ::
    "Generators \<Rightarrow> BuildContext \<Rightarrow> QuerySolutionNode \<Rightarrow> PlanStageReqs \<Rightarrow> BuildState \<Rightarrow> BuildResult"
  and buildChildren ::
    "Generators \<Rightarrow> BuildContext \<Rightarrow> (QuerySolutionNode \<Rightarrow> BuildError + PlanStageReqs)
      \<Rightarrow> (QuerySolutionNode \<Rightarrow> PlanStage \<Rightarrow> PlanStageSlots \<Rightarrow> BuildError + ChildItem)
      \<Rightarrow> QuerySolutionNode list \<Rightarrow> BuildState \<Rightarrow> BuildError + (ChildItem list \<times> BuildState)"
  where
  "build ext ctx root reqs st =
     (if getType root = STAGE_OTHER then Inl (TAssert 4822884)
      else if (getType root = STAGE_COLLSCAN \<or> getType root = STAGE_LIMIT \<or> getType root = STAGE_SKIP)
              \<and> cqTailable ctx \<and> \<not> isBuildingUnionForTailableCollScan reqs
      then makeUnionForTailableCollScan ext ctx root
             (reqs\<lparr>isBuildingUnionForTailableCollScan := True\<rparr>) st
      else buildNode ext ctx root reqs st)"
| "makeUnionForTailableCollScan ext ctx root reqs st =
     (if reqIndexKeyBitset reqs \<noteq> None then Inl (InvariantFailure ''!reqs.getIndexKeyBitset()'')
      else
        (case registerSlot ext ''resumeRecordId'' Nothing st of
           Inl e \<Rightarrow> Inl e
         | Inr (resumeRecordIdSlot, st1) \<Rightarrow>
             (case build ext ctx root (reqs\<lparr>isTailableCollScanResumeBranch := False\<rparr>) st1 of
                Inl e \<Rightarrow> Inl e
              | Inr (anchorBranch, anchorOutputs, st2) \<Rightarrow>
                  (case forEachSlot anchorOutputs reqs of
                     Inl e \<Rightarrow> Inl e
                   | Inr anchorBranchSlots \<Rightarrow>
                       (case build ext ctx root (reqs\<lparr>isTailableCollScanResumeBranch := True\<rparr>)
                               st2 of
                          Inl e \<Rightarrow> Inl e
                        | Inr (resumeBranch, resumeOutputs, st3) \<Rightarrow>
                            (case forEachSlot resumeOutputs reqs of
                               Inl e \<Rightarrow> Inl e
                             | Inr resumeBranchSlots \<Rightarrow>
                                 makeTailableUnion (getNodeId root) reqs resumeRecordIdSlot
                                   anchorBranch anchorBranchSlots resumeBranch resumeBranchSlots
                                   st3))))))"
| "buildNode ext ctx (CollectionScanNode nid csn) reqs st = buildCollScan ext nid csn reqs st"
| "buildNode ext ctx (VirtualScanNode nid vsn) reqs st = buildVirtualScan ext nid vsn reqs st"
| "buildNode ext ctx (IndexScanNode nid ixn) reqs st = buildIndexScan ext nid ixn reqs st"
| "buildNode ext ctx (FetchNode nid flt child) reqs st =
     (if reqsHas reqs kOplogTs then Inl (InvariantFailure ''!reqs.has(kOplogTs)'')
      else
        (case build ext ctx child (reqsSet (reqsClear reqs kResult) kRecordId) st of
           Inl e \<Rightarrow> Inl e
         | Inr (stage, outputs, st1) \<Rightarrow> buildFetchAfterChild ext nid flt reqs stage outputs st1))"
| "buildNode ext ctx (LimitNode nid limit child) reqs st =
     (case skipChild child of
        Some (skip, skipped) \<Rightarrow>
          (case build ext ctx skipped reqs st of
             Inl e \<Rightarrow> Inl e
           | Inr (stage, outputs, st1) \<Rightarrow>
               Inr (buildLimitStage nid (Some limit) (Some skip) reqs stage, outputs, st1))
      | None \<Rightarrow>
          (case build ext ctx child reqs st of
             Inl e \<Rightarrow> Inl e
           | Inr (stage, outputs, st1) \<Rightarrow>
               Inr (buildLimitStage nid (Some limit) None reqs stage, outputs, st1)))"
| "buildNode ext ctx (SkipNode nid skip child) reqs st =
     (case build ext ctx child reqs st of
        Inl e \<Rightarrow> Inl e
      | Inr (stage, outputs, st1) \<Rightarrow>
          Inr (buildLimitStage nid None (Some skip) reqs stage, outputs, st1))"
| "buildNode ext ctx (SortNode nid simple sn child) reqs st =
     (if reqIndexKeyBitset reqs \<noteq> None then Inl (InvariantFailure ''!reqs.getIndexKeyBitset()'')
      else if snPattern sn = [] then Inl (TAssert 5037001)
      else
        (case build ext ctx child (reqsSet reqs kResult) st of
           Inl e \<Rightarrow> Inl e
         | Inr (inputStage, outputs, st1) \<Rightarrow>
             buildSortAfterChild ctx nid sn (reqsSet reqs kResult) inputStage outputs st1))"
| "buildNode ext ctx (SortKeyGeneratorNode nid child) reqs st = Inl (UAssert 4822883)"
| "buildNode ext ctx (ProjectionNodeSimple nid requiredFields child) reqs st =
     (if reqIndexKeyBitset reqs \<noteq> None then Inl (InvariantFailure ''!reqs.getIndexKeyBitset()'')
      else
        (case build ext ctx child (reqsSet reqs kResult) st of
           Inl e \<Rightarrow> Inl e
         | Inr (inputStage, outputs, st1) \<Rightarrow>
             buildProjectionSimpleAfterChild nid requiredFields inputStage outputs st1))"
| "buildNode ext ctx (ProjectionNodeDefault nid proj child) reqs st =
     (if reqIndexKeyBitset reqs \<noteq> None then Inl (InvariantFailure ''!reqs.getIndexKeyBitset()'')
      else
        (case build ext ctx child (reqsSet reqs kResult) st of
           Inl e \<Rightarrow> Inl e
         | Inr (inputStage, outputs, st1) \<Rightarrow>
             buildProjectionDefaultAfterChild ext nid proj reqs inputStage outputs st1))"
| "buildNode ext ctx (ProjectionNodeCovered nid pn child) reqs st =
     (if reqIndexKeyBitset reqs \<noteq> None then Inl (InvariantFailure ''!reqs.getIndexKeyBitset()'')
      else if \<not> pnIsSimple pn then Inl (InvariantFailure ''pn->proj.isSimple()'')
      else if fetched ext child then Inl (TAssert 5037301)
      else
        (case makeIndexKeyInclusionSet (pnCoveredKeyObj pn) (set (pnRequiredFields pn)) of
           Inl e \<Rightarrow> Inl e
         | Inr (indexKeyBitset, keyFieldNames) \<Rightarrow>
             (case build ext ctx child
                     ((reqsClear reqs kResult)\<lparr>reqIndexKeyBitset := Some indexKeyBitset\<rparr>) st of
                Inl e \<Rightarrow> Inl e
              | Inr (inputStage, outputs, st1) \<Rightarrow>
                  buildProjectionCoveredAfterChild nid keyFieldNames inputStage outputs st1)))"
| "buildNode ext ctx (OrNode nid textOr dedup flt cs) reqs st =
     (if reqIndexKeyBitset reqs \<noteq> None then Inl (InvariantFailure ''!reqs.getIndexKeyBitset()'')
      else
        (case buildChildren ext ctx
                (\<lambda>child. Inr (reqsSetIf (reqsSetIf reqs kResult (flt \<noteq> None)) kRecordId dedup))
                (orChildAfter (reqsSetIf (reqsSetIf reqs kResult (flt \<noteq> None)) kRecordId dedup))
                cs st of
           Inl e \<Rightarrow> Inl e
         | Inr (items, st1) \<Rightarrow>
             buildOrAfterChildren ext nid dedup flt reqs
               (reqsSetIf (reqsSetIf reqs kResult (flt \<noteq> None)) kRecordId dedup) items st1))"
| "buildNode ext ctx (TextMatchNode nid tm cs) reqs st =
     (if \<not> hasCollection ctx then Inl (TAssert 5432212)
      else if reqIndexKeyBitset reqs \<noteq> None then Inl (TAssert 5432213)
      else if reqsHas reqs kOplogTs then Inl (TAssert 5432214)
      else
        (case cs of
           [child] \<Rightarrow>
             (if \<not> fetched ext child then Inl (TAssert 5432216)
              else
                (case build ext ctx child (reqsSet reqs kResult) st of
                   Inl e \<Rightarrow> Inl e
                 | Inr (stage, outputs, st1) \<Rightarrow>
                     buildTextMatchAfterChild ctx nid tm reqs stage outputs st1))
         | _ \<Rightarrow> Inl (TAssert 5432215)))"
| "buildNode ext ctx (ReturnKeyNode nid child) reqs st =
     (if reqIndexKeyBitset reqs \<noteq> None then Inl (InvariantFailure ''!reqs.getIndexKeyBitset()'')
      else
        (case build ext ctx child (reqsSet (reqsClear reqs kResult) kReturnKey) st of
           Inl e \<Rightarrow> Inl e
         | Inr (stage, outputs, st1) \<Rightarrow> buildReturnKeyAfterChild stage outputs st1))"
| "buildNode ext ctx (EofNode nid) reqs st = generateEofPlan nid reqs st"
| "buildNode ext ctx (AndHashNode nid cs) reqs st =
     (case cs of
        outerChild # innerChild # rest \<Rightarrow>
          (case build ext ctx outerChild (reqsSet (reqsSet reqs kResult) kRecordId) st of
             Inl e \<Rightarrow> Inl e
           | Inr (outerStage, outerOutputs, st1) \<Rightarrow>
               (case getIdAndResult outerOutputs of
                  Inl e \<Rightarrow> Inl e
                | Inr (outerIdSlot, outerResultSlot) \<Rightarrow>
                    (case build ext ctx innerChild (reqsSet (reqsSet reqs kResult) kRecordId) st1 of
                       Inl e \<Rightarrow> Inl e
                     | Inr (innerStage, innerOutputs, st2) \<Rightarrow>
                         (case checkIdAndResult 5073712 5073713 innerOutputs of
                            Inl e \<Rightarrow> Inl e
                          | Inr (innerIdSlot, innerResultSlot) \<Rightarrow>
                              (case designateOutputs reqs innerIdSlot innerResultSlot st2 of
                                 (outputs, st3) \<Rightarrow>
                                   (case buildChildren ext ctx
                                           (\<lambda>child. Inr (reqsSet (reqsSet reqs kResult) kRecordId))
                                           (joinChildAfter 5073714 5073715) rest st3 of
                                      Inl e \<Rightarrow> Inl e
                                    | Inr (items, st4) \<Rightarrow>
                                        Inr (hashJoinRest
                                               (HashJoinStage outerStage innerStage [outerIdSlot]
                                                  [outerResultSlot] [innerIdSlot] [innerResultSlot]
                                                  (getSlotIfExists st2 ''collator'') nid)
                                               items innerIdSlot innerResultSlot
                                               (getSlotIfExists st2 ''collator'') nid,
                                             outputs, st4)))))))
      | _ \<Rightarrow> Inl (TAssert 5073711))"
| "buildNode ext ctx (AndSortedNode nid cs) reqs st =
     (case cs of
        outerChild # innerChild # rest \<Rightarrow>
          (case build ext ctx outerChild (reqsSet (reqsSet reqs kResult) kRecordId) st of
             Inl e \<Rightarrow> Inl e
           | Inr (outerStage, outerOutputs, st1) \<Rightarrow>
               (case getIdAndResult outerOutputs of
                  Inl e \<Rightarrow> Inl e
                | Inr (outerIdSlot, outerResultSlot) \<Rightarrow>
                    (case build ext ctx innerChild (reqsSet (reqsSet reqs kResult) kRecordId) st1 of
                       Inl e \<Rightarrow> Inl e
                     | Inr (innerStage, innerOutputs, st2) \<Rightarrow>
                         (case checkIdAndResult 5073707 5073708 innerOutputs of
                            Inl e \<Rightarrow> Inl e
                          | Inr (innerIdSlot, innerResultSlot) \<Rightarrow>
                              (case designateOutputs reqs innerIdSlot innerResultSlot st2 of
                                 (outputs, st3) \<Rightarrow>
                                   (case buildChildren ext ctx
                                           (\<lambda>child. Inr (reqsSet (reqsSet reqs kResult) kRecordId))
                                           (joinChildAfter 5073709 5073710) rest st3 of
                                      Inl e \<Rightarrow> Inl e
                                    | Inr (items, st4) \<Rightarrow>
                                        Inr (mergeJoinRest
                                               (MergeJoinStage outerStage innerStage [outerIdSlot]
                                                  [outerResultSlot] [innerIdSlot] [innerResultSlot]
                                                  [Ascending] nid)
                                               items innerIdSlot innerResultSlot nid,
                                             outputs, st4)))))))
      | _ \<Rightarrow> Inl (TAssert 5073706))"
| "buildNode ext ctx (MergeSortNode nid sortPattern dedup cs) reqs st =
     (if reqIndexKeyBitset reqs \<noteq> None then Inl (InvariantFailure ''!reqs.getIndexKeyBitset()'')
      else
        (case sortMergePaths sortPattern of
           Inl e \<Rightarrow> Inl e
         | Inr (direction, sortPaths) \<Rightarrow>
             (case buildChildren ext ctx
                     (sortMergeChildReqs sortPaths (reqsSetIf reqs kRecordId dedup))
                     (sortMergeChildAfter sortPaths dedup (reqsSetIf reqs kRecordId dedup)) cs st of
                Inl e \<Rightarrow> Inl e
              | Inr (items, st1) \<Rightarrow>
                  buildSortMergeAfterChildren nid dedup direction (reqsSetIf reqs kRecordId dedup)
                    items st1)))"
| "buildNode ext ctx (ShardingFilterNode nid child) reqs st =
     (if \<not> reqsHas (reqsSetIf reqs kResult (childIndexKeyPattern child = [])) kResult then
        (case makeIndexKeyInclusionSet (childIndexKeyPattern child)
                (fst ` set (shardKeyPattern ctx)) of
           Inl e \<Rightarrow> Inl e
         | Inr (shardKeyIndexReqs, projectFields) \<Rightarrow>
             (case build ext ctx child
                     (shardFilterCoveredChildReqs shardKeyIndexReqs
                        (reqsSetIf reqs kResult (childIndexKeyPattern child = []))) st of
                Inl e \<Rightarrow> Inl e
              | Inr (stage, outputs, st1) \<Rightarrow>
                  buildShardFilterCoveredAfterChild nid (childIndexKeyPattern child) projectFields
                    (reqIndexKeyBitset reqs)
                    ((case reqIndexKeyBitset reqs of None \<Rightarrow> {} | Some bits \<Rightarrow> bits)
                     \<union> shardKeyIndexReqs)
                    stage outputs st1))
      else
        (case build ext ctx child (reqsSetIf reqs kResult (childIndexKeyPattern child = [])) st of
           Inl e \<Rightarrow> Inl e
         | Inr (stage, outputs, st1) \<Rightarrow> buildShardFilterAfterChild ext ctx nid stage outputs st1))"
| "buildNode ext ctx (OtherNode nid cs) reqs st = Inl (TAssert 4822884)"
| "buildChildren ext ctx reqsFor after [] st = Inr ([], st)"
| "buildChildren ext ctx reqsFor after (child # rest) st =
     (case reqsFor child of
        Inl e \<Rightarrow> Inl e
      | Inr childReqs \<Rightarrow>
          (case build ext ctx child childReqs st of
             Inl e \<Rightarrow> Inl e
           | Inr (stage, outputs, st1) \<Rightarrow>
               (case after child stage outputs of
                  Inl e \<Rightarrow> Inl e
                | Inr item \<Rightarrow>
                    (case buildChildren ext ctx reqsFor after rest st1 of
                       Inl e \<Rightarrow> Inl e
                     | Inr (items, st2) \<Rightarrow> Inr (item # items, st2)))))"
  by pat_completeness auto


termination build
  by (relation "measures
        [\<lambda>x. case x of
            Inl (Inl (ext, ctx, root, reqs, st)) \<Rightarrow> size root
          | Inl (Inr (ext, ctx, root, reqs, st)) \<Rightarrow> size root
          | Inr (Inl (ext, ctx, root, reqs, st)) \<Rightarrow> size root
          | Inr (Inr (ext, ctx, reqsFor, after, cs, st)) \<Rightarrow> size_list size cs,
         \<lambda>x. case x of
            Inl (Inl (ext, ctx, root, reqs, st)) \<Rightarrow>
              (if isBuildingUnionForTailableCollScan reqs then 1 else 3)
          | Inl (Inr (ext, ctx, root, reqs, st)) \<Rightarrow>
              (if isBuildingUnionForTailableCollScan reqs then 2 else 4)
          | Inr (Inl (ext, ctx, root, reqs, st)) \<Rightarrow> 0
          | Inr (Inr (ext, ctx, reqsFor, after, cs, st)) \<Rightarrow> 0]")
     (auto dest: skipChild_size)

declare build.simps [simp del] makeUnionForTailableCollScan.simps [simp del]

section \<open>The builder object and its entry point\<close>

record SlotBasedStageBuilder =
  builderState :: BuildState
  buildHasStarted :: bool
  shouldProduceRecordIdSlot :: bool
  shouldTrackLatestOplogTimestamp :: bool
  shouldTrackResumeToken :: bool
  shouldUseTailableScan :: bool
  dataOutputs :: PlanStageSlots

definition makeRuntimeEnvironment :: "Generators \<Rightarrow> BuildContext \<Rightarrow> BuildState \<Rightarrow> BuildError + BuildState" where
  "makeRuntimeEnvironment ext ctx st =
     (case registerSlot ext ''timeZoneDB'' TimeZoneDBV st of
        Inl e \<Rightarrow> Inl e
      | Inr (tz, st1) \<Rightarrow>
          (if cqHasCollator ctx then
             (case registerSlot ext ''collator'' CollatorV st1 of
                Inl e \<Rightarrow> Inl e
              | Inr (c, st2) \<Rightarrow> Inr st2)
           else Inr st1))"

text \<open>The constructor, with its scan of the solution for a collection scan and a virtual scan.\<close>

definition newSlotBasedStageBuilder ::
  "Generators \<Rightarrow> BuildContext \<Rightarrow> QuerySolutionNode \<Rightarrow> BuildError + SlotBasedStageBuilder" where
  "newSlotBasedStageBuilder ext ctx root =
     (case makeRuntimeEnvironment ext ctx
             \<lparr>slotIdGenerator = 0, frameIdGenerator = 0, spoolIdGenerator = 0, runtimeEnv = []\<rparr> of
        Inl e \<Rightarrow> Inl e
      | Inr st \<Rightarrow>
          Inr \<lparr>builderState = st,
               buildHasStarted = False,
               shouldProduceRecordIdSlot =
                 (case getNodeByType root STAGE_VIRTUAL_SCAN of
                    Some (VirtualScanNode n vsn) \<Rightarrow> vsnHasRecordId vsn
                  | _ \<Rightarrow> False),
               shouldTrackLatestOplogTimestamp =
                 (case getNodeByType root STAGE_COLLSCAN of
                    Some (CollectionScanNode n csn) \<Rightarrow> csnShouldTrackLatestOplogTimestamp csn
                  | _ \<Rightarrow> False),
               shouldTrackResumeToken =
                 (case getNodeByType root STAGE_COLLSCAN of
                    Some (CollectionScanNode n csn) \<Rightarrow> csnRequestResumeToken csn
                  | _ \<Rightarrow> False),
               shouldUseTailableScan =
                 (case getNodeByType root STAGE_COLLSCAN of
                    Some (CollectionScanNode n csn) \<Rightarrow> csnTailable csn
                  | _ \<Rightarrow> False),
               dataOutputs = emptySlots\<rparr>)"

definition topLevelReqs :: "SlotBasedStageBuilder \<Rightarrow> PlanStageReqs" where
  "topLevelReqs sb =
     reqsSetIf (reqsSetIf (reqsSet emptyReqs kResult) kRecordId (shouldProduceRecordIdSlot sb))
       kOplogTs (shouldTrackLatestOplogTimestamp sb)"

text \<open>
  \<^verbatim>\<open>SlotBasedStageBuilder::build(root)\<close>, the entry point: the result of the call and the
  builder object after it. A failed \<^verbatim>\<open>invariant\<close> aborts the process; a \<^verbatim>\<open>tassert\<close> or
  \<^verbatim>\<open>uassert\<close> throws and leaves the object with the flag set.
\<close>

definition buildTopLevel ::
  "Generators \<Rightarrow> BuildContext \<Rightarrow> QuerySolutionNode \<Rightarrow> SlotBasedStageBuilder
    \<Rightarrow> (BuildError + PlanStage) \<times> SlotBasedStageBuilder" where
  "buildTopLevel ext ctx root sb =
     (if buildHasStarted sb then (Inl (InvariantFailure ''!_buildHasStarted''), sb)
      else
        (case build ext ctx root (topLevelReqs sb) (builderState sb) of
           Inl e \<Rightarrow> (Inl e, sb\<lparr>buildHasStarted := True\<rparr>)
         | Inr (stage, outputs, st) \<Rightarrow>
             (if \<not> slotsHas outputs kResult
              then (Inl (InvariantFailure ''outputs.has(kResult)''),
                    sb\<lparr>buildHasStarted := True, builderState := st\<rparr>)
              else if shouldProduceRecordIdSlot sb \<and> \<not> slotsHas outputs kRecordId
              then (Inl (InvariantFailure ''!_shouldProduceRecordIdSlot || outputs.has(kRecordId)''),
                    sb\<lparr>buildHasStarted := True, builderState := st\<rparr>)
              else if shouldTrackLatestOplogTimestamp sb \<and> \<not> slotsHas outputs kOplogTs
              then (Inl (InvariantFailure
                           ''!_data.shouldTrackLatestOplogTimestamp || outputs.has(kOplogTs)''),
                    sb\<lparr>buildHasStarted := True, builderState := st\<rparr>)
              else (Inr stage,
                    sb\<lparr>buildHasStarted := True, builderState := st, dataOutputs := outputs\<rparr>))))"

section \<open>An instance of the collaborators\<close>

text \<open>
  One implementation of the functions of other files, to run the builder on concrete
  solutions. Modelled from the spec: the collection-scan body generator binds result and
  recordId, and oplogTs when the node tracks the latest oplog timestamp; the index-scan body
  generator binds recordId and one index-key slot per position of the bitset it is given,
  in the order of the positions; \<^verbatim>\<open>registerSlot\<close> installs a named slot once.
\<close>

fun generateMultiple :: "nat \<Rightarrow> BuildState \<Rightarrow> SlotId list \<times> BuildState" where
  "generateMultiple 0 st = ([], st)"
| "generateMultiple (Suc n) st =
     (case generateSlotId st of
        (slot, st1) \<Rightarrow> (case generateMultiple n st1 of (slots, st2) \<Rightarrow> (slot # slots, st2)))"

definition modelGenerateCollScan ::
  "PlanNodeId \<Rightarrow> CollectionScanParams \<Rightarrow> bool \<Rightarrow> BuildState \<Rightarrow> BuildResult" where
  "modelGenerateCollScan nid csn resumeBranch st =
     (case generateMultiple (if csnShouldTrackLatestOplogTimestamp csn then 3 else 2) st of
        (slots, st1) \<Rightarrow>
          Inr (GeneratedStage ''scan'' [] slots,
               \<lparr>slotMap = (if csnShouldTrackLatestOplogTimestamp csn
                            then [kResult \<mapsto> slots ! 0, kRecordId \<mapsto> slots ! 1, kOplogTs \<mapsto> slots ! 2]
                            else [kResult \<mapsto> slots ! 0, kRecordId \<mapsto> slots ! 1]),
                indexKeySlots = None\<rparr>,
               st1))"

definition modelGenerateIndexScan ::
  "PlanNodeId \<Rightarrow> IndexScanParams \<Rightarrow> IndexKeysInclusionSet \<Rightarrow> BuildState \<Rightarrow> BuildResult" where
  "modelGenerateIndexScan nid ixn indexKeyBitset st =
     (case generateSlotId st of
        (recordIdSlot, st1) \<Rightarrow>
          (case generateMultiple (bitCount indexKeyBitset) st1 of
             (slots, st2) \<Rightarrow>
               Inr (GeneratedStage ''ixscan'' [] (recordIdSlot # slots),
                    \<lparr>slotMap = [kRecordId \<mapsto> recordIdSlot], indexKeySlots = Some slots\<rparr>,
                    st2)))"

definition modelGenerateVirtualScanMulti ::
  "nat \<Rightarrow> SbeValue \<Rightarrow> BuildState \<Rightarrow> SlotId list \<times> PlanStage \<times> BuildState" where
  "modelGenerateVirtualScanMulti numSlots docs st =
     (case generateMultiple numSlots st of
        (slots, st1) \<Rightarrow> (slots, GeneratedStage ''virtualscan'' [] slots, st1))"

definition modelGenerateFilter ::
  "MatchExpression \<Rightarrow> PlanStage \<Rightarrow> SlotId \<Rightarrow> SlotId list \<Rightarrow> PlanNodeId \<Rightarrow> BuildState
    \<Rightarrow> BuildError + (SlotId \<times> PlanStage \<times> BuildState)" where
  "modelGenerateFilter flt stage inputSlot relevantSlots nid st =
     Inr (inputSlot, GeneratedStage ''filter'' [stage] relevantSlots, st)"

definition modelGenerateProjection ::
  "Projection \<Rightarrow> PlanStage \<Rightarrow> SlotId \<Rightarrow> SlotId list \<Rightarrow> PlanNodeId \<Rightarrow> BuildState
    \<Rightarrow> BuildError + (SlotId \<times> PlanStage \<times> BuildState)" where
  "modelGenerateProjection proj stage inputSlot relevantSlots nid st =
     (case generateSlotId st of
        (slot, st1) \<Rightarrow> Inr (slot, GeneratedStage ''projection'' [stage] (slot # relevantSlots), st1))"

definition modelGenerateShardKeyBinding ::
  "string list \<Rightarrow> EExpression \<Rightarrow> nat \<Rightarrow> BuildState \<Rightarrow> EExpression \<times> BuildState" where
  "modelGenerateShardKeyBinding parts e level st =
     (foldl (\<lambda>acc part. makeFunction ''getField'' [acc, makeConstant part]) e parts, st)"

definition modelRegisterSlot :: "string \<Rightarrow> SbeValue \<Rightarrow> BuildState \<Rightarrow> BuildError + (SlotId \<times> BuildState)" where
  "modelRegisterSlot name v st =
     (if map_of (runtimeEnv st) name \<noteq> None then Inl (UAssert 4946303)
      else (case generateSlotId st of
              (slot, st1) \<Rightarrow> Inr (slot, st1\<lparr>runtimeEnv := runtimeEnv st1 @ [(name, slot)]\<rparr>)))"

definition modelFetched :: "QuerySolutionNode \<Rightarrow> bool" where
  "modelFetched node =
     (getNodeByType node STAGE_FETCH \<noteq> None \<or> getNodeByType node STAGE_COLLSCAN \<noteq> None)"

definition modelGenerators :: Generators where
  "modelGenerators =
     \<lparr>generateCollScan = modelGenerateCollScan,
      generateIndexScan = modelGenerateIndexScan,
      generateVirtualScanMulti = modelGenerateVirtualScanMulti,
      generateFilter = modelGenerateFilter,
      generateProjection = modelGenerateProjection,
      generateShardKeyBinding = modelGenerateShardKeyBinding,
      registerSlot = modelRegisterSlot,
      fetched = modelFetched\<rparr>"

definition modelContext :: BuildContext where
  "modelContext =
     \<lparr>cqTailable = False, cqHasCollator = False, cqAllowDiskUse = False, hasCollection = True,
      shardKeyPattern = [(''a'', False)],
      findIndexByName = (\<lambda>name. \<lparr>hasDescriptor = True, hasEntry = True, hasAccessMethod = True\<rparr>),
      secondArgumentFirst = True\<rparr>"

definition initialState :: BuildState where
  "initialState = \<lparr>slotIdGenerator = 0, frameIdGenerator = 0, spoolIdGenerator = 0, runtimeEnv = []\<rparr>"

section \<open>Definitions used in the proofs\<close>

fun slotAt :: "IndexKeyPatternTreeNode \<Rightarrow> string list \<Rightarrow> SlotId option" where
  "slotAt node [] = indexKeySlot node"
| "slotAt node (p # ps) =
     (case map_of (children node) p of None \<Rightarrow> None | Some c \<Rightarrow> slotAt c ps)"

fun wfNode :: "IndexKeyPatternTreeNode \<Rightarrow> bool" where
  "wfNode (IndexKeyPatternTreeNode cs sl) =
     (distinct (map fst cs) \<and> (\<forall>c \<in> snd ` set cs. wfNode c))"

fun objOf :: "(SlotId \<Rightarrow> SbeValue) \<Rightarrow> IndexKeyPatternTreeNode \<Rightarrow> SbeValue"
  and fieldsOf :: "(SlotId \<Rightarrow> SbeValue) \<Rightarrow> (string \<times> IndexKeyPatternTreeNode) list \<Rightarrow> (string \<times> SbeValue) list" where
  "objOf env (IndexKeyPatternTreeNode cs sl) = ObjectV (fieldsOf env cs)"
| "fieldsOf env [] = []"
| "fieldsOf env ((n, c) # rest) =
     (n, case indexKeySlot c of Some s \<Rightarrow> env s | None \<Rightarrow> objOf env c) # fieldsOf env rest"

text \<open>The loop as a fold over the elements paired with their slots.\<close>

definition stepElem :: "IndexKeyPatternTreeNode \<Rightarrow> string \<times> SlotId \<Rightarrow> IndexKeyPatternTreeNode" where
  "stepElem root es = (case insertPath (fieldRefParts (fst es)) (snd es) root of None \<Rightarrow> root | Some r \<Rightarrow> r)"

fun lookupArg :: "EExpression list \<Rightarrow> string \<Rightarrow> EExpression option" where
  "lookupArg [] name = None"
| "lookupArg [e] name = None"
| "lookupArg (n # v # rest) name = (if n = makeConstant name then Some v else lookupArg rest name)"

fun exprAtPath :: "EExpression \<Rightarrow> string list \<Rightarrow> EExpression option" where
  "exprAtPath e [] = Some e"
| "exprAtPath (EFunction f args) (p # ps) =
     (if f = ''newObj''
      then (case lookupArg args p of None \<Rightarrow> None | Some v \<Rightarrow> exprAtPath v ps)
      else None)"
| "exprAtPath e (p # ps) = None"

definition directionOf :: "SortPatternPart \<Rightarrow> SortDirection" where
  "directionOf part = (if isAscending part then Ascending else Descending)"

definition sortAbAc :: SortParams where
  "sortAbAc = \<lparr>snPattern = [\<lparr>isAscending = True, fieldPath = Some (FieldPath ''a'' [''b''])\<rparr>,
                             \<lparr>isAscending = True, fieldPath = Some (FieldPath ''a'' [''c''])\<rparr>],
               snLimit = 0, snMaxMemoryUsageBytes = 100\<rparr>"





definition slotRank :: "IndexKeysInclusionSet \<Rightarrow> nat \<Rightarrow> nat" where
  "slotRank bits pos = length (filter (\<lambda>i. i \<in> bits) [0..<pos])"

definition ixScanAB :: IndexScanParams where
  "ixScanAB = \<lparr>ixnIndexName = ''i'', ixnKeyPattern = [''a'', ''b''], ixnAddKeyMetadata = False\<rparr>"

definition resultAndSecondKey :: PlanStageReqs where
  "resultAndSecondKey = (reqsSet emptyReqs kResult)\<lparr>reqIndexKeyBitset := Some {1}\<rparr>"

definition parentBits :: "PlanStageReqs \<Rightarrow> IndexKeysInclusionSet" where
  "parentBits reqs = (case reqIndexKeyBitset reqs of None \<Rightarrow> {} | Some bits \<Rightarrow> bits)"

text \<open>
  The shape of the stages of the per-field sort regime, written after the description of the
  sort-key traversal: \<open>isSortKeyTraversal\<close> recognises the traverse stage (and the projection
  on it) that reads one level of a field path from \<open>inputSlot\<close> and folds the values of the
  levels below, and \<open>isTraversalChain\<close> a stage built from \<open>base\<close> by one such traversal per
  part of the pattern, the last part outermost (keys and sort-key slots are given last part
  first).
\<close>

definition sortKeyFold :: "SortDirection \<Rightarrow> SlotId \<Rightarrow> SlotId \<Rightarrow> EExpression" where
  "sortKeyFold direction innerSlot traverseSlot =
     EIf (EPrimBinary (if direction = Ascending then BinaryOp.less else BinaryOp.greater)
            (EPrimBinary cmp3w (EVariable innerSlot) (EVariable traverseSlot))
            (EConstant (NumberInt64 0)))
         (EVariable innerSlot) (EVariable traverseSlot)"

definition sortKeyLeaf :: "SlotId option \<Rightarrow> SlotId \<Rightarrow> EExpression" where
  "sortKeyLeaf collatorSlot fieldSlot =
     (case collatorSlot of
        None \<Rightarrow> EVariable fieldSlot
      | Some c \<Rightarrow> EFunction ''collComparisonKey'' [EVariable fieldSlot, EVariable c])"

definition getFieldOf :: "SlotId \<Rightarrow> string \<Rightarrow> EExpression" where
  "getFieldOf slot name = EFunction ''getField'' [EVariable slot, EConstant (StringV name)]"

definition orNull :: "EExpression \<Rightarrow> EExpression" where
  "orNull e = EFunction ''fillEmpty'' [e, EConstant Null]"

definition orUndefined :: "EExpression \<Rightarrow> EExpression" where
  "orUndefined e = EFunction ''fillEmpty'' [e, EConstant BsonUndefined]"

definition limitOneCoScan :: "PlanNodeId \<Rightarrow> PlanStage" where
  "limitOneCoScan nid = LimitSkipStage (CoScanStage nid) (Some 1) None nid"

fun isSortKeyTraversal ::
  "PlanStage \<Rightarrow> SlotId \<Rightarrow> string list \<Rightarrow> bool \<Rightarrow> SortDirection \<Rightarrow> PlanNodeId \<Rightarrow> SlotId option
    \<Rightarrow> SlotId \<Rightarrow> PlanStage \<Rightarrow> bool" where
  "isSortKeyTraversal inputStage inputSlot [] atTop direction nid collatorSlot outputSlot stage = False"
| "isSortKeyTraversal inputStage inputSlot (name # rest) atTop direction nid collatorSlot outputSlot
      stage =
     (case stage of
        ProjectStage (TraverseStage fromBranch innerBranch fieldSlot traverseSlot innerSlot foldExpr n1)
            [(slot, final)] n2 \<Rightarrow>
          n1 = nid \<and> n2 = nid \<and> slot = outputSlot \<and>
          foldExpr = sortKeyFold direction innerSlot traverseSlot \<and>
          (if atTop then fieldSlot = inputSlot \<and> fromBranch = inputStage
           else fromBranch = ProjectStage inputStage
                  [(fieldSlot, if rest = [] then orNull (getFieldOf inputSlot name)
                               else getFieldOf inputSlot name)] nid) \<and>
          (if rest = []
           then final = orUndefined (EVariable traverseSlot) \<and>
                innerBranch = ProjectStage (limitOneCoScan nid)
                                [(innerSlot, sortKeyLeaf collatorSlot fieldSlot)] nid
           else final = orNull (EVariable traverseSlot) \<and>
                isSortKeyTraversal (limitOneCoScan nid) fieldSlot rest False direction nid
                  collatorSlot innerSlot innerBranch)
      | _ \<Rightarrow> False)"

fun traversalInput :: "PlanStage \<Rightarrow> PlanStage option" where
  "traversalInput (ProjectStage (TraverseStage fromBranch i f t s e n1) ps n2) = Some fromBranch"
| "traversalInput other = None"

fun isTraversalChain ::
  "PlanStage \<Rightarrow> (SlotId \<times> FieldPath \<times> SortDirection) list \<Rightarrow> SlotId list \<Rightarrow> PlanNodeId
    \<Rightarrow> SlotId option \<Rightarrow> PlanStage \<Rightarrow> bool" where
  "isTraversalChain base [] [] nid collatorSlot stage = (stage = base)"
| "isTraversalChain base ((slot, fp, direction) # keys) (out # outs) nid collatorSlot stage =
     (case traversalInput stage of
        None \<Rightarrow> False
      | Some previous \<Rightarrow>
          isSortKeyTraversal previous slot (fieldNames fp) True direction nid collatorSlot out stage
          \<and> isTraversalChain base keys outs nid collatorSlot previous)"
| "isTraversalChain base keys outs nid collatorSlot stage = False"

definition sortAB :: SortParams where
  "sortAB = \<lparr>snPattern = [\<lparr>isAscending = True, fieldPath = Some (FieldPath ''a'' [])\<rparr>,
                            \<lparr>isAscending = False, fieldPath = Some (FieldPath ''b'' [])\<rparr>],
             snLimit = 0, snMaxMemoryUsageBytes = 100\<rparr>"

definition eofResultStage :: PlanStage where
  "eofResultStage =
     ProjectStage (LimitSkipStage (CoScanStage 1) (Some 0) None 1) [(1, EConstant Nothing)] 1"

definition sortABChecked :: PlanStage where
  "sortABChecked =
     ProjectStage
       (ProjectStage eofResultStage
          [(2, orNull (getFieldOf 1 ''a'')), (3, orNull (getFieldOf 1 ''b''))] 3)
       [(4, EPrimBinary logicOr (EPrimUnary logicNot (EFunction ''isArray'' [EVariable 2]))
              (EPrimBinary logicOr (EPrimUnary logicNot (EFunction ''isArray'' [EVariable 3]))
                 (EFail BadValue ''cannot sort with keys that are parallel arrays'')))] 3"

definition sortABKeys :: PlanStage where
  "sortABKeys =
     ProjectStage
       (TraverseStage
          (ProjectStage
             (TraverseStage sortABChecked
                (ProjectStage (limitOneCoScan 3) [(5, EVariable 2)] 3)
                2 6 5 (sortKeyFold Ascending 5 6) 3)
             [(7, orUndefined (EVariable 6))] 3)
          (ProjectStage (limitOneCoScan 3) [(8, EVariable 3)] 3)
          3 9 8 (sortKeyFold Descending 8 9) 3)
       [(10, orUndefined (EVariable 9))] 3"

definition shardKeyB :: BuildContext where
  "shardKeyB = modelContext\<lparr>shardKeyPattern := [(''b'', False)]\<rparr>"

definition firstKeyOnly :: PlanStageReqs where
  "firstKeyOnly = emptyReqs\<lparr>reqIndexKeyBitset := Some {0}\<rparr>"

text \<open>
  The expressions of a stage and of the stages below it, and the number of \<^verbatim>\<open>EFail\<close>
  expressions with the code \<^verbatim>\<open>BadValue\<close> among them. \<open>twoPartsCheck\<close> and
  \<open>manyPartsCheck\<close> are the two shapes of the parallel-arrays check over the array checks
  \<open>cs\<close> of the parts.
\<close>

fun exprBadValueFails :: "EExpression \<Rightarrow> nat" where
  "exprBadValueFails (EConstant v) = 0"
| "exprBadValueFails (EVariable s) = 0"
| "exprBadValueFails (ELocalVariable f n) = 0"
| "exprBadValueFails (EFunction name args) = sum_list (map exprBadValueFails args)"
| "exprBadValueFails (EPrimBinary op l r) = exprBadValueFails l + exprBadValueFails r"
| "exprBadValueFails (EPrimUnary op e) = exprBadValueFails e"
| "exprBadValueFails (EIf c t e) = exprBadValueFails c + exprBadValueFails t + exprBadValueFails e"
| "exprBadValueFails (EFail code msg) = (if code = BadValue then 1 else 0)"
| "exprBadValueFails (ELocalBind fr binds body) =
     sum_list (map exprBadValueFails binds) + exprBadValueFails body"


definition badValueFails :: "EExpression list \<Rightarrow> nat" where
  "badValueFails es = sum_list (map exprBadValueFails es)"



definition arrayCount :: "EExpression \<Rightarrow> EExpression" where
  "arrayCount c = EPrimBinary cmp3w c (EConstant (Boolean False))"




section \<open>Lemmas\<close>

lemma slotAt_emptyNode [simp]: "slotAt emptyNode q = (None::SlotId option)"
  by (cases q) (simp_all add: emptyNode_def)

lemma map_of_replaceChild:
  "map_of (replaceChild n c cs) k = (if k = n \<and> map_of cs n \<noteq> None then Some c else map_of cs k)"
  by (induction cs) auto

lemma insertPath_emptyNode: "insertPath ps s emptyNode \<noteq> None"
  by (induction ps) (auto simp: emptyNode_def split: option.splits)

lemma insertPath_slotAt:
  "insertPath path s t = Some t' \<Longrightarrow> slotAt t' q = (if q = path then Some s else slotAt t q)"
proof (induction path arbitrary: t t' q)
  case Nil
  then show ?case by (cases q) auto
next
  case (Cons p ps)
  show ?case
  proof (cases "map_of (children t) p")
    case None
    with Cons.prems obtain c' where c': "insertPath ps s emptyNode = Some c'"
      and t': "t' = IndexKeyPatternTreeNode (children t @ [(p, c')]) (indexKeySlot t)"
      by (auto split: option.splits)
    show ?thesis
    proof (cases q)
      case Nil
      then show ?thesis using t' by simp
    next
      case (Cons a qs)
      then show ?thesis using t' None Cons.IH[OF c', of qs]
        by (auto simp: map_add_def split: option.splits)
    qed
  next
    case (Some child)
    with Cons.prems obtain c' where c': "insertPath ps s child = Some c'"
      and t': "t' = IndexKeyPatternTreeNode (replaceChild p c' (children t)) (indexKeySlot t)"
      by (auto split: option.splits if_splits)
    show ?thesis
    proof (cases q)
      case Nil
      then show ?thesis using t' by simp
    next
      case (Cons a qs)
      then show ?thesis using t' Some Cons.IH[OF c', of qs]
        by (auto simp: map_of_replaceChild split: option.splits)
    qed
  qed
qed

lemma insertPath_skip_iff:
  "insertPath path s t = None \<longleftrightarrow> (\<exists>q. q \<noteq> [] \<and> prefix q path \<and> slotAt t q \<noteq> None)"
proof (induction path arbitrary: t)
  case Nil
  then show ?case by auto
next
  case (Cons p ps)
  show ?case
  proof (cases "map_of (children t) p")
    case None
    have "insertPath (p # ps) s t \<noteq> None"
      using None insertPath_emptyNode[of ps s] by (auto split: option.splits)
    moreover have "\<not> (\<exists>q. q \<noteq> [] \<and> prefix q (p # ps) \<and> slotAt t q \<noteq> None)"
    proof
      assume "\<exists>q. q \<noteq> [] \<and> prefix q (p # ps) \<and> slotAt t q \<noteq> None"
      then obtain q where q: "q \<noteq> []" "prefix q (p # ps)" "slotAt t q \<noteq> None" by blast
      then obtain qs where "q = p # qs" by (cases q) auto
      with q None show False by simp
    qed
    ultimately show ?thesis by blast
  next
    case (Some child)
    show ?thesis
    proof (cases "indexKeySlot child")
      case None
      have "insertPath (p # ps) s t = None \<longleftrightarrow> insertPath ps s child = None"
        using Some None by (auto split: option.splits)
      also have "\<dots> \<longleftrightarrow> (\<exists>q. q \<noteq> [] \<and> prefix q ps \<and> slotAt child q \<noteq> None)"
        by (rule Cons.IH)
      also have "\<dots> \<longleftrightarrow> (\<exists>q. q \<noteq> [] \<and> prefix q (p # ps) \<and> slotAt t q \<noteq> None)"
      proof
        assume "\<exists>q. q \<noteq> [] \<and> prefix q ps \<and> slotAt child q \<noteq> None"
        then obtain q where "q \<noteq> []" "prefix q ps" "slotAt child q \<noteq> None" by blast
        then have "p # q \<noteq> [] \<and> prefix (p # q) (p # ps) \<and> slotAt t (p # q) \<noteq> None"
          using Some by simp
        then show "\<exists>q. q \<noteq> [] \<and> prefix q (p # ps) \<and> slotAt t q \<noteq> None" by blast
      next
        assume "\<exists>q. q \<noteq> [] \<and> prefix q (p # ps) \<and> slotAt t q \<noteq> None"
        then obtain q where q: "q \<noteq> []" "prefix q (p # ps)" "slotAt t q \<noteq> None" by blast
        then obtain qs where qs: "q = p # qs" by (cases q) auto
        with q Some None have "qs \<noteq> []" by (cases qs) auto
        moreover from q qs Some have "prefix qs ps" "slotAt child qs \<noteq> None" by auto
        ultimately show "\<exists>q. q \<noteq> [] \<and> prefix q ps \<and> slotAt child q \<noteq> None" by blast
      qed
      finally show ?thesis .
    next
      case (Some a)
      have "insertPath (p # ps) s t = None" using \<open>map_of (children t) p = Some child\<close> Some by simp
      moreover have "[p] \<noteq> [] \<and> prefix [p] (p # ps) \<and> slotAt t [p] \<noteq> None"
        using \<open>map_of (children t) p = Some child\<close> Some by simp
      ultimately show ?thesis by blast
    qed
  qed
qed

lemma wfNode_emptyNode [simp]: "wfNode emptyNode"
  by (simp add: emptyNode_def)

lemma fst_replaceChild [simp]: "map fst (replaceChild n c cs) = map fst cs"
  by (induction cs) auto

lemma set_replaceChild: "(a, b) \<in> set (replaceChild n c cs) \<Longrightarrow> b = c \<or> (a, b) \<in> set cs"
  by (induction cs) (auto split: if_splits)

lemma insertPath_wf:
  "insertPath path s t = Some t' \<Longrightarrow> wfNode t \<Longrightarrow> wfNode t'"
proof (induction path arbitrary: t t')
  case Nil
  then show ?case by (cases t) auto
next
  case (Cons p ps)
  obtain cs sl where t: "t = IndexKeyPatternTreeNode cs sl" by (cases t)
  show ?case
  proof (cases "map_of cs p")
    case None
    with Cons.prems t obtain c' where c': "insertPath ps s emptyNode = Some c'"
      and t': "t' = IndexKeyPatternTreeNode (cs @ [(p, c')]) sl"
      by (auto split: option.splits)
    have "wfNode c'" using Cons.IH[OF c'] by simp
    moreover have "p \<notin> fst ` set cs" using None by (simp add: map_of_eq_None_iff)
    ultimately show ?thesis using Cons.prems(2) t t' by auto
  next
    case (Some child)
    with Cons.prems t obtain c' where c': "insertPath ps s child = Some c'"
      and t': "t' = IndexKeyPatternTreeNode (replaceChild p c' cs) sl"
      by (auto split: option.splits if_splits)
    have "child \<in> snd ` set cs" using Some by (force dest: map_of_SomeD)
    then have "wfNode child" using Cons.prems(2) t by auto
    then have "wfNode c'" using Cons.IH[OF c'] by simp
    then show ?thesis using Cons.prems(2) t t' by (auto dest: set_replaceChild)
  qed
qed

lemma loop_foldl:
  "i + length es = length slots \<Longrightarrow>
   buildKeyPatternTreeLoop es slots i root = Some (foldl stepElem root (zip es (drop i slots)))"
proof (induction es arbitrary: i root)
  case Nil
  then show ?case by simp
next
  case (Cons e es)
  then have i: "i < length slots" by simp
  then have d: "drop i slots = slots ! i # drop (Suc i) slots" by (simp add: Cons_nth_drop_Suc)
  have "Suc i + length es = length slots" using Cons.prems by simp
  from Cons.IH[OF this] show ?case using i d
    by (simp add: stepElem_def split: option.splits)
qed

lemma buildKeyPatternTree_foldl:
  "length keyPattern = length slots \<Longrightarrow>
   buildKeyPatternTree keyPattern slots = Some (foldl stepElem emptyNode (zip keyPattern slots))"
  using loop_foldl[of 0 keyPattern slots emptyNode] by (simp add: buildKeyPatternTree_def)

lemma stepElem_wf: "wfNode t \<Longrightarrow> wfNode (stepElem t es)"
  by (auto simp: stepElem_def insertPath_wf split: option.splits)

lemma foldl_wf: "wfNode t \<Longrightarrow> wfNode (foldl stepElem t ps)"
  by (induction ps arbitrary: t) (auto simp: stepElem_wf)

lemma stepElem_slotAt_keeps:
  "slotAt t q = Some s \<Longrightarrow> q \<noteq> [] \<Longrightarrow> slotAt (stepElem t es) q = Some s"
proof (cases "insertPath (fieldRefParts (fst es)) (snd es) t")
  case None
  assume "slotAt t q = Some s"
  then show ?thesis using None by (simp add: stepElem_def)
next
  case (Some r)
  assume a: "slotAt t q = Some s" "q \<noteq> []"
  have "q \<noteq> fieldRefParts (fst es)"
  proof
    assume "q = fieldRefParts (fst es)"
    then have "\<exists>q'. q' \<noteq> [] \<and> prefix q' (fieldRefParts (fst es)) \<and> slotAt t q' \<noteq> None"
      using a by auto
    then have "insertPath (fieldRefParts (fst es)) (snd es) t = None"
      by (simp add: insertPath_skip_iff)
    with Some show False by simp
  qed
  then show ?thesis using insertPath_slotAt[OF Some, of q] a Some by (simp add: stepElem_def)
qed

lemma stepElem_slotAt_origin:
  "slotAt (stepElem t es) q = Some s \<Longrightarrow>
   slotAt t q = Some s \<or> (q = fieldRefParts (fst es) \<and> s = snd es)"
  by (cases "insertPath (fieldRefParts (fst es)) (snd es) t")
     (auto simp: stepElem_def dest: insertPath_slotAt[where q = q] split: if_splits)

lemma foldl_slotAt_keeps:
  "slotAt t q = Some s \<Longrightarrow> q \<noteq> [] \<Longrightarrow> slotAt (foldl stepElem t ps) q = Some s"
  by (induction ps arbitrary: t) (auto simp: stepElem_slotAt_keeps)

lemma foldl_slotAt_origin:
  "slotAt (foldl stepElem t ps) q = Some s \<Longrightarrow>
   slotAt t q = Some s \<or> (\<exists>es \<in> set ps. q = fieldRefParts (fst es) \<and> s = snd es)"
proof (induction ps arbitrary: t)
  case Nil
  then show ?case by simp
next
  case (Cons a ps)
  from Cons.IH[of "stepElem t a"] Cons.prems
  have "slotAt (stepElem t a) q = Some s \<or> (\<exists>es \<in> set ps. q = fieldRefParts (fst es) \<and> s = snd es)"
    by simp
  then show ?case using stepElem_slotAt_origin[of t a q s] by auto
qed

text \<open>Every processed element with a path leaves a non-empty prefix of its path bound.\<close>

lemma stepElem_covers:
  assumes "fieldRefParts (fst es) \<noteq> []"
  shows "\<exists>q. q \<noteq> [] \<and> prefix q (fieldRefParts (fst es)) \<and> slotAt (stepElem t es) q \<noteq> None"
proof (cases "insertPath (fieldRefParts (fst es)) (snd es) t")
  case None
  then have "\<exists>q. q \<noteq> [] \<and> prefix q (fieldRefParts (fst es)) \<and> slotAt t q \<noteq> None"
    by (simp only: insertPath_skip_iff)
  moreover have "stepElem t es = t" using None by (simp add: stepElem_def)
  ultimately show ?thesis by simp
next
  case (Some r)
  have "slotAt r (fieldRefParts (fst es)) = Some (snd es)"
    using insertPath_slotAt[OF Some, of "fieldRefParts (fst es)"] by simp
  then show ?thesis using Some assms by (auto simp: stepElem_def)
qed

lemma foldl_covers:
  assumes "es \<in> set ps" "fieldRefParts (fst es) \<noteq> []"
  shows "\<exists>q. q \<noteq> [] \<and> prefix q (fieldRefParts (fst es)) \<and> slotAt (foldl stepElem t ps) q \<noteq> None"
  using assms(1)
proof (induction ps arbitrary: t)
  case Nil
  then show ?case by simp
next
  case (Cons a ps)
  show ?case
  proof (cases "es = a")
    case True
    from stepElem_covers[OF assms(2), of t]
    obtain q s where q: "q \<noteq> []" "prefix q (fieldRefParts (fst es))" "slotAt (stepElem t es) q = Some s"
      by auto
    then have "slotAt (foldl stepElem (stepElem t es) ps) q = Some s"
      by (simp add: foldl_slotAt_keeps)
    then show ?thesis using q True by auto
  next
    case False
    then have "es \<in> set ps" using Cons.prems by simp
    from Cons.IH[OF this, of "stepElem t a"] show ?thesis by simp
  qed
qed

text \<open>An element that no other element's path is a prefix of keeps its own slot.\<close>

lemma foldl_undominated:
  assumes "distinct (map (\<lambda>x. fieldRefParts (fst x)) ps)"
    and "es \<in> set ps"
    and "\<forall>q. q \<noteq> [] \<and> prefix q (fieldRefParts (fst es)) \<longrightarrow> slotAt t q = None"
    and "\<forall>es' \<in> set ps. \<not> strict_prefix (fieldRefParts (fst es')) (fieldRefParts (fst es))"
  shows "slotAt (foldl stepElem t ps) (fieldRefParts (fst es)) = Some (snd es)"
  using assms
proof (induction ps arbitrary: t)
  case Nil
  then show ?case by simp
next
  case (Cons a ps)
  let ?path = "fieldRefParts (fst es)"
  show ?case
  proof (cases "es = a")
    case True
    have "insertPath ?path (snd es) t \<noteq> None"
      using Cons.prems(3) by (auto simp: insertPath_skip_iff)
    then obtain r where r: "insertPath ?path (snd es) t = Some r" by auto
    then have sr: "stepElem t a = r" using True by (simp add: stepElem_def)
    have "slotAt r ?path = Some (snd es)" using insertPath_slotAt[OF r, of ?path] by simp
    show ?thesis
    proof (cases "?path = []")
      case True
      have "slotAt (foldl stepElem r ps) [] = Some (snd es)"
      proof -
        have "\<And>u. indexKeySlot u = Some (snd es) \<Longrightarrow> (\<forall>x \<in> set ps. fieldRefParts (fst x) \<noteq> []) \<Longrightarrow>
                indexKeySlot (foldl stepElem u ps) = Some (snd es)"
        proof (induction ps)
          case Nil
          then show ?case by simp
        next
          case (Cons b bs)
          have "indexKeySlot (stepElem u b) = Some (snd es)"
          proof (cases "insertPath (fieldRefParts (fst b)) (snd b) u")
            case None
            then show ?thesis using Cons.prems by (simp add: stepElem_def)
          next
            case (Some r')
            from insertPath_slotAt[OF Some, of "[]"] Cons.prems show ?thesis
              by (auto simp: stepElem_def Some)
          qed
          then show ?case using Cons by simp
        qed
        moreover have "\<forall>x \<in> set ps. fieldRefParts (fst x) \<noteq> []"
          using Cons.prems(1) True \<open>es = a\<close> by (auto simp: image_iff) 
        ultimately show ?thesis using \<open>slotAt r ?path = Some (snd es)\<close> True by simp
      qed
      then show ?thesis using sr True by simp
    next
      case False
      then show ?thesis using sr \<open>slotAt r ?path = Some (snd es)\<close>
        by (simp add: foldl_slotAt_keeps)
    qed
  next
    case False
    then have mem: "es \<in> set ps" using Cons.prems(2) by simp
    have d: "distinct (map (\<lambda>x. fieldRefParts (fst x)) ps)" using Cons.prems(1) by simp
    have ne: "fieldRefParts (fst a) \<noteq> ?path"
      using Cons.prems(1) mem by (auto simp: image_iff)
    have "\<forall>q. q \<noteq> [] \<and> prefix q ?path \<longrightarrow> slotAt (stepElem t a) q = None"
    proof (intro allI impI)
      fix q assume q: "q \<noteq> [] \<and> prefix q ?path"
      show "slotAt (stepElem t a) q = None"
      proof (rule ccontr)
        assume "slotAt (stepElem t a) q \<noteq> None"
        then obtain s where "slotAt (stepElem t a) q = Some s" by auto
        from stepElem_slotAt_origin[OF this] Cons.prems(3) q
        have "q = fieldRefParts (fst a)" by auto
        with q ne have "strict_prefix (fieldRefParts (fst a)) ?path" by (auto simp: strict_prefix_def)
        with Cons.prems(4) show False by simp
      qed
    qed
    from Cons.IH[OF d mem this] Cons.prems(4) show ?thesis by simp
  qed
qed

lemma splitDots_nonempty [simp]: "splitDots s \<noteq> []" "[] \<noteq> splitDots s"
  by (induction s) (auto split: list.splits)

lemma splitDots_inj: "splitDots s = splitDots t \<Longrightarrow> s = t"
proof (induction s arbitrary: t)
  case Nil
  then show ?case by (cases t) (auto split: list.splits if_splits)
next
  case (Cons c cs)
  show ?case
  proof (cases t)
    case Nil
    with Cons.prems show ?thesis by (auto split: list.splits if_splits)
  next
    case (Cons d ds)
    with Cons.prems Cons.IH[of ds] show ?thesis
      by (auto split: list.splits if_splits)
  qed
qed

lemma fieldRefParts_inj: "fieldRefParts s = fieldRefParts t \<Longrightarrow> s = t"
  by (auto simp: fieldRefParts_def dest: splitDots_inj split: if_splits)

lemma fieldRefParts_Nil_iff: "fieldRefParts s = [] \<longleftrightarrow> s = []"
  by (simp add: fieldRefParts_def)

lemma distinct_fieldRefParts:
  "distinct keyPattern \<Longrightarrow> distinct (map fieldRefParts keyPattern)"
  by (simp add: distinct_map inj_on_def fieldRefParts_inj)

lemma eval_buildNewObj:
  "evalExpr env (buildNewObjExpr t) = Some (objOf env t)"
  "evalNewObjArgs env (buildNewObjArgs cs) = Some (fieldsOf env cs)"
  by (induction t and cs rule: buildNewObjExpr_buildNewObjArgs.induct)
     (auto simp: makeConstant_def makeVariable_def split: option.splits)

lemma map_of_fieldsOf:
  "map_of (fieldsOf env cs) p =
     map_option (\<lambda>c. case indexKeySlot c of Some s \<Rightarrow> env s | None \<Rightarrow> objOf env c) (map_of cs p)"
  by (induction cs) (auto split: option.splits)

lemma lookupArg_buildNewObjArgs:
  "lookupArg (buildNewObjArgs cs) p =
     map_option (\<lambda>c. case indexKeySlot c of Some s \<Rightarrow> makeVariable s | None \<Rightarrow> buildNewObjExpr c)
       (map_of cs p)"
  by (induction cs) (auto simp: makeConstant_def split: option.splits)

lemma objOf_children: "objOf env t = ObjectV (fieldsOf env (children t))"
  by (cases t) simp

lemma buildNewObjExpr_children: "buildNewObjExpr t = EFunction ''newObj'' (buildNewObjArgs (children t))"
  by (cases t) simp

lemma getPath_objOf:
  "slotAt t path = Some s \<Longrightarrow> path \<noteq> [] \<Longrightarrow>
   (\<forall>q. q \<noteq> [] \<and> strict_prefix q path \<longrightarrow> slotAt t q = None) \<Longrightarrow>
   getPath (objOf env t) path = Some (env s)"
proof (induction path arbitrary: t)
  case Nil
  then show ?case by simp
next
  case (Cons p ps)
  from Cons.prems(1) obtain c where c: "map_of (children t) p = Some c" and sc: "slotAt c ps = Some s"
    by (auto split: option.splits)
  show ?case
  proof (cases ps)
    case Nil
    then show ?thesis using c sc by (simp add: objOf_children map_of_fieldsOf)
  next
    case (Cons a list)
    then have "strict_prefix [p] (p # ps)" by (simp add: strict_prefix_def)
    then have "slotAt t [p] = None" using Cons.prems(3) by blast
    then have n: "indexKeySlot c = None" using c by simp
    have "\<forall>q. q \<noteq> [] \<and> strict_prefix q ps \<longrightarrow> slotAt c q = None"
    proof (intro allI impI)
      fix q assume "q \<noteq> [] \<and> strict_prefix q ps"
      then have "p # q \<noteq> [] \<and> strict_prefix (p # q) (p # ps)" by (simp add: strict_prefix_def)
      then have "slotAt t (p # q) = None" using Cons.prems(3) by blast
      then show "slotAt c q = None" using c by simp
    qed
    from Cons.IH[OF sc _ this] Cons have "getPath (objOf env c) ps = Some (env s)" by simp
    then show ?thesis using c n by (simp add: objOf_children[of env t] map_of_fieldsOf)
  qed
qed

lemma exprAtPath_buildNewObjExpr:
  "slotAt t path = Some s \<Longrightarrow> path \<noteq> [] \<Longrightarrow>
   (\<forall>q. q \<noteq> [] \<and> strict_prefix q path \<longrightarrow> slotAt t q = None) \<Longrightarrow>
   exprAtPath (buildNewObjExpr t) path = Some (EVariable s)"
proof (induction path arbitrary: t)
  case Nil
  then show ?case by simp
next
  case (Cons p ps)
  from Cons.prems(1) obtain c where c: "map_of (children t) p = Some c" and sc: "slotAt c ps = Some s"
    by (auto split: option.splits)
  show ?case
  proof (cases ps)
    case Nil
    then show ?thesis using c sc
      by (simp add: buildNewObjExpr_children lookupArg_buildNewObjArgs makeVariable_def)
  next
    case (Cons a list)
    then have "strict_prefix [p] (p # ps)" by (simp add: strict_prefix_def)
    then have "slotAt t [p] = None" using Cons.prems(3) by blast
    then have n: "indexKeySlot c = None" using c by simp
    have "\<forall>q. q \<noteq> [] \<and> strict_prefix q ps \<longrightarrow> slotAt c q = None"
    proof (intro allI impI)
      fix q assume "q \<noteq> [] \<and> strict_prefix q ps"
      then have "p # q \<noteq> [] \<and> strict_prefix (p # q) (p # ps)" by (simp add: strict_prefix_def)
      then have "slotAt t (p # q) = None" using Cons.prems(3) by blast
      then show "slotAt c q = None" using c by simp
    qed
    from Cons.IH[OF sc _ this] Cons have "exprAtPath (buildNewObjExpr c) ps = Some (EVariable s)" by simp
    then show ?thesis using c n
      by (simp add: buildNewObjExpr_children[of t] lookupArg_buildNewObjArgs)
  qed
qed

text \<open>A path below a bound path cannot be followed in the expression.\<close>

lemma exprAtPath_below_bound:
  "slotAt t q = Some s \<Longrightarrow> q \<noteq> [] \<Longrightarrow> strict_prefix q path \<Longrightarrow>
   (\<forall>r. r \<noteq> [] \<and> strict_prefix r q \<longrightarrow> slotAt t r = None) \<Longrightarrow>
   exprAtPath (buildNewObjExpr t) path = None"
proof -
  assume a: "slotAt t q = Some s" "q \<noteq> []" "strict_prefix q path"
    "\<forall>r. r \<noteq> [] \<and> strict_prefix r q \<longrightarrow> slotAt t r = None"
  from a(3) obtain z zs where path: "path = q @ z # zs"
    by (auto simp: strict_prefix_def prefix_def) (metis list.exhaust append_Nil2)
  have gen: "\<And>e. exprAtPath e q = Some (EVariable s) \<Longrightarrow> exprAtPath e (q @ z # zs) = None"
  proof (induction q)
    case Nil
    then show ?case by simp
  next
    case (Cons x xs)
    show ?case
    proof (cases e)
      case (EFunction f args)
      with Cons.prems Cons.IH show ?thesis by (auto split: if_splits option.splits)
    qed (use Cons.prems in auto)
  qed
  from exprAtPath_buildNewObjExpr[OF a(1) a(2) a(4)] gen path show ?thesis by simp
qed

lemma set_exprSlots_args:
  "s \<in> set (concat (map exprSlots (buildNewObjArgs cs))) \<Longrightarrow>
     \<exists>n c. (n, c) \<in> set cs \<and>
        s \<in> (case indexKeySlot c of Some s \<Rightarrow> {s}
              | None \<Rightarrow> set (exprSlots (buildNewObjExpr c)))"
proof (induction cs)
  case Nil
  then show ?case by simp
next
  case (Cons a cs)
  obtain n c where a: "a = (n, c)" by (cases a)
  show ?case
  proof (cases "s \<in> set (concat (map exprSlots (buildNewObjArgs cs)))")
    case True
    from Cons.IH[OF this] show ?thesis by auto
  next
    case False
    with Cons.prems a
    have "s \<in> set (exprSlots (case indexKeySlot c of Some sl \<Rightarrow> makeVariable sl | None \<Rightarrow> buildNewObjExpr c))"
      by (auto simp: makeConstant_def)
    then have "s \<in> (case indexKeySlot c of Some s \<Rightarrow> {s}
              | None \<Rightarrow> set (exprSlots (buildNewObjExpr c)))"
      by (cases "indexKeySlot c") (auto simp: makeVariable_def)
    then show ?thesis using a by auto
  qed
qed

lemma exprSlots_bound:
  "s \<in> set (exprSlots (buildNewObjExpr t)) \<Longrightarrow> wfNode t \<Longrightarrow>
   \<exists>path. path \<noteq> [] \<and> slotAt t path = Some s \<and>
          (\<forall>q. q \<noteq> [] \<and> strict_prefix q path \<longrightarrow> slotAt t q = None)"
proof (induction t arbitrary: s)
  case (IndexKeyPatternTreeNode cs sl)
  from IndexKeyPatternTreeNode.prems(1) obtain n c where nc: "(n, c) \<in> set cs"
    and s: "s \<in> (case indexKeySlot c of Some s \<Rightarrow> {s} | None \<Rightarrow> set (exprSlots (buildNewObjExpr c)))"
    using set_exprSlots_args[of s cs] by auto
  have m: "map_of cs n = Some c" using nc IndexKeyPatternTreeNode.prems(2) by simp
  have wc: "wfNode c" using nc IndexKeyPatternTreeNode.prems(2) by force
  show ?case
  proof (cases "indexKeySlot c")
    case None
    with s have "s \<in> set (exprSlots (buildNewObjExpr c))" by simp
    from IndexKeyPatternTreeNode.IH[OF nc _ this wc]
    obtain path where p: "path \<noteq> []" "slotAt c path = Some s"
      "\<forall>q. q \<noteq> [] \<and> strict_prefix q path \<longrightarrow> slotAt c q = None" by auto
    have "\<forall>q. q \<noteq> [] \<and> strict_prefix q (n # path) \<longrightarrow> slotAt (IndexKeyPatternTreeNode cs sl) q = None"
    proof (intro allI impI)
      fix q assume q: "q \<noteq> [] \<and> strict_prefix q (n # path)"
      then obtain qs where qs: "q = n # qs" by (cases q) (auto simp: strict_prefix_def)
      show "slotAt (IndexKeyPatternTreeNode cs sl) q = None"
      proof (cases qs)
        case Nil
        then show ?thesis using qs m None by simp
      next
        case (Cons a list)
        then have "qs \<noteq> [] \<and> strict_prefix qs path" using q qs by (auto simp: strict_prefix_def)
        then show ?thesis using p(3) qs m by simp
      qed
    qed
    then have "n # path \<noteq> [] \<and> slotAt (IndexKeyPatternTreeNode cs sl) (n # path) = Some s \<and>
          (\<forall>q. q \<noteq> [] \<and> strict_prefix q (n # path) \<longrightarrow> slotAt (IndexKeyPatternTreeNode cs sl) q = None)"
      using p m by simp
    then show ?thesis by blast
  next
    case (Some a)
    with s have "a = s" by simp
    have "\<forall>q. q \<noteq> [] \<and> strict_prefix q [n] \<longrightarrow> slotAt (IndexKeyPatternTreeNode cs sl) q = None"
      by (auto simp: strict_prefix_def prefix_Cons)
    then have "[n] \<noteq> [] \<and> slotAt (IndexKeyPatternTreeNode cs sl) [n] = Some s \<and>
          (\<forall>q. q \<noteq> [] \<and> strict_prefix q [n] \<longrightarrow> slotAt (IndexKeyPatternTreeNode cs sl) q = None)"
      using m Some \<open>a = s\<close> by simp
    then show ?thesis by blast
  qed
qed

lemma zip_nth_mem:
  "length slots = length keyPattern \<Longrightarrow> i < length keyPattern \<Longrightarrow>
   (keyPattern ! i, slots ! i) \<in> set (zip keyPattern slots)"
  by (auto simp: in_set_zip)

lemma distinct_zip_paths:
  "length slots = length keyPattern \<Longrightarrow> distinct keyPattern \<Longrightarrow>
   distinct (map (\<lambda>x. fieldRefParts (fst x)) (zip keyPattern slots))"
proof -
  assume a: "length slots = length keyPattern" "distinct keyPattern"
  have "map (\<lambda>x. fieldRefParts (fst x)) (zip keyPattern slots) = map fieldRefParts (map fst (zip keyPattern slots))"
    by simp
  also have "\<dots> = map fieldRefParts keyPattern" using a(1) by simp
  finally show ?thesis using distinct_fieldRefParts[OF a(2)] by simp
qed

lemma final_undominated:
  assumes len: "length slots = length keyPattern"
    and dk: "distinct keyPattern"
    and i: "i < length keyPattern"
    and und: "\<forall>j < length keyPattern.
        \<not> strict_prefix (fieldRefParts (keyPattern ! j)) (fieldRefParts (keyPattern ! i))"
  shows "slotAt (foldl stepElem emptyNode (zip keyPattern slots)) (fieldRefParts (keyPattern ! i))
           = Some (slots ! i)"
    and "\<forall>q. q \<noteq> [] \<and> strict_prefix q (fieldRefParts (keyPattern ! i)) \<longrightarrow>
           slotAt (foldl stepElem emptyNode (zip keyPattern slots)) q = None"
proof -
  let ?ps = "zip keyPattern slots"
  have und': "\<forall>es' \<in> set ?ps. \<not> strict_prefix (fieldRefParts (fst es')) (fieldRefParts (keyPattern ! i))"
    using und by (auto simp: in_set_zip)
  have "slotAt (foldl stepElem emptyNode ?ps) (fieldRefParts (fst (keyPattern ! i, slots ! i)))
          = Some (snd (keyPattern ! i, slots ! i))"
    by (rule foldl_undominated[OF distinct_zip_paths[OF len dk] zip_nth_mem[OF len i]])
       (use und' in simp_all)
  then show "slotAt (foldl stepElem emptyNode ?ps) (fieldRefParts (keyPattern ! i)) = Some (slots ! i)"
    by simp
  show "\<forall>q. q \<noteq> [] \<and> strict_prefix q (fieldRefParts (keyPattern ! i)) \<longrightarrow>
           slotAt (foldl stepElem emptyNode ?ps) q = None"
  proof (intro allI impI)
    fix q assume q: "q \<noteq> [] \<and> strict_prefix q (fieldRefParts (keyPattern ! i))"
    show "slotAt (foldl stepElem emptyNode ?ps) q = None"
    proof (rule ccontr)
      assume "slotAt (foldl stepElem emptyNode ?ps) q \<noteq> None"
      then obtain s where "slotAt (foldl stepElem emptyNode ?ps) q = Some s" by auto
      from foldl_slotAt_origin[OF this] obtain es where "es \<in> set ?ps" "q = fieldRefParts (fst es)"
        by auto
      with und' q show False by auto
    qed
  qed
qed

lemma final_dominated:
  assumes len: "length slots = length keyPattern"
    and dk: "distinct keyPattern"
    and ne: "[] \<notin> set keyPattern"
    and ds: "distinct slots"
    and j: "j < length keyPattern" and k: "k < length keyPattern"
    and dom: "strict_prefix (fieldRefParts (keyPattern ! k)) (fieldRefParts (keyPattern ! j))"
  shows "slots ! j \<notin> set (exprSlots (buildNewObjExpr (foldl stepElem emptyNode (zip keyPattern slots))))"
proof
  let ?ps = "zip keyPattern slots"
  let ?t = "foldl stepElem emptyNode ?ps"
  assume a: "slots ! j \<in> set (exprSlots (buildNewObjExpr ?t))"
  have w: "wfNode ?t" by (rule foldl_wf) simp
  from exprSlots_bound[OF a w]
  obtain path where pp: "path \<noteq> [] \<and> slotAt ?t path = Some (slots ! j) \<and>
      (\<forall>q. q \<noteq> [] \<and> strict_prefix q path \<longrightarrow> slotAt ?t q = None)" ..
  then have p: "path \<noteq> []" "slotAt ?t path = Some (slots ! j)"
      "\<forall>q. q \<noteq> [] \<and> strict_prefix q path \<longrightarrow> slotAt ?t q = None"
    by simp_all
  from foldl_slotAt_origin[OF p(2)] obtain es where es: "es \<in> set ?ps"
      "path = fieldRefParts (fst es)" "slots ! j = snd es" by auto
  from es(1) obtain m where m: "m < length keyPattern" "es = (keyPattern ! m, slots ! m)"
    using len by (auto simp: in_set_zip)
  have "slots ! j = slots ! m" using es(3) m by simp
  moreover have "j < length slots" "m < length slots" using j m len by simp_all
  ultimately have "m = j" using ds nth_eq_iff_index_eq[of slots j m] by simp
  then have path: "path = fieldRefParts (keyPattern ! j)" using es(2) m by simp
  have "keyPattern ! k \<in> set keyPattern" using k by simp
  then have "keyPattern ! k \<noteq> []" using ne by auto
  then have "fieldRefParts (fst (keyPattern ! k, slots ! k)) \<noteq> []"
    by (simp add: fieldRefParts_Nil_iff)
  from foldl_covers[OF zip_nth_mem[OF len k] this, of emptyNode]
  obtain q where q: "q \<noteq> []" "prefix q (fieldRefParts (keyPattern ! k))" "slotAt ?t q \<noteq> None"
    by auto
  have "strict_prefix q (fieldRefParts (keyPattern ! j))" using q(2) dom by (rule prefix_order.le_less_trans)
  then have "strict_prefix q path" using path by simp
  with q(1) have "slotAt ?t q = None" using p(3) by simp
  with q(3) show False by simp
qed

lemma final_dominated_path:
  assumes len: "length slots = length keyPattern"
    and ne: "[] \<notin> set keyPattern"
    and k: "k < length keyPattern"
    and dom: "strict_prefix (fieldRefParts (keyPattern ! k)) path"
  shows "exprAtPath (buildNewObjExpr (foldl stepElem emptyNode (zip keyPattern slots))) path = None"
proof -
  let ?ps = "zip keyPattern slots"
  let ?t = "foldl stepElem emptyNode ?ps"
  define P where "P = (\<lambda>q. q \<noteq> [] \<and> prefix q (fieldRefParts (keyPattern ! k)) \<and> slotAt ?t q \<noteq> None)"
  have "keyPattern ! k \<in> set keyPattern" using k by simp
  then have "keyPattern ! k \<noteq> []" using ne by auto
  then have "fieldRefParts (fst (keyPattern ! k, slots ! k)) \<noteq> []"
    by (simp add: fieldRefParts_Nil_iff)
  from foldl_covers[OF zip_nth_mem[OF len k] this, of emptyNode]
  obtain q0 where "P q0" unfolding P_def by auto
  from ex_has_least_nat[of P q0 length, OF this]
  obtain q where q: "P q" and least: "\<forall>y. P y \<longrightarrow> length q \<le> length y"
    by auto
  from q obtain s where s: "slotAt ?t q = Some s" unfolding P_def by auto
  have q1: "q \<noteq> []" and q2: "prefix q (fieldRefParts (keyPattern ! k))"
    using q unfolding P_def by auto
  have np: "\<forall>r. r \<noteq> [] \<and> strict_prefix r q \<longrightarrow> slotAt ?t r = None"
  proof (intro allI impI, rule ccontr)
    fix r assume r: "r \<noteq> [] \<and> strict_prefix r q" and b: "slotAt ?t r \<noteq> None"
    have "prefix r q" using r by (simp add: strict_prefix_def)
    then have "prefix r (fieldRefParts (keyPattern ! k))" using q2 by (rule prefix_order.trans)
    then have "P r" using r b unfolding P_def by simp
    with least have "length q \<le> length r" by simp
    moreover have "length r < length q" using r by (auto simp: strict_prefix_def prefix_def)
    ultimately show False by simp
  qed
  have "strict_prefix q path" using q2 dom by (rule prefix_order.le_less_trans)
  from exprAtPath_below_bound[OF s q1 this np] show ?thesis .
qed

lemma allSlotNames_UNIV: "set allSlotNames = UNIV"
proof -
  have "\<And>n. n \<in> set allSlotNames" by (case_tac n) (simp_all add: allSlotNames_def)
  then show ?thesis by auto
qed

lemma makeSlotsLoop_dom:
  "makeSlotsLoop names reqs outputs st = (outputs', st') \<Longrightarrow>
   dom (slotMap outputs') = dom (slotMap outputs) \<union> (set names \<inter> reqSlots reqs)
   \<and> indexKeySlots outputs' = indexKeySlots outputs"
proof (induction names arbitrary: outputs st)
  case Nil
  then show ?case by simp
next
  case (Cons n names)
  show ?case
  proof (cases "reqsHas reqs n")
    case True
    with Cons.prems have "makeSlotsLoop names reqs (slotsSet outputs n (Suc (slotIdGenerator st)))
        (st\<lparr>slotIdGenerator := Suc (slotIdGenerator st)\<rparr>) = (outputs', st')"
      by (simp add: generateSlotId_def)
    from Cons.IH[OF this] True show ?thesis
      by (auto simp: slotsSet_def reqsHas_def split: if_splits)
  next
    case False
    with Cons.prems have "makeSlotsLoop names reqs outputs st = (outputs', st')" by simp
    from Cons.IH[OF this] False show ?thesis by (auto simp: reqsHas_def)
  qed
qed

lemma makePlanStageSlots_dom:
  "makePlanStageSlots reqs st = (outputs, st') \<Longrightarrow>
   dom (slotMap outputs) = reqSlots reqs \<and> indexKeySlots outputs = None"
  using makeSlotsLoop_dom[of allSlotNames reqs emptySlots st outputs st']
  by (simp add: makePlanStageSlots_def allSlotNames_UNIV emptySlots_def)

lemma forEachSlotLoop_total:
  "\<forall>n \<in> set names. reqsHas reqs n \<longrightarrow> slotMap outputs n \<noteq> None \<Longrightarrow>
   forEachSlotLoop names outputs reqs
     = Inr (map (\<lambda>n. the (slotMap outputs n)) (filter (reqsHas reqs) names))"
  by (induction names) auto

lemma forEachSlot_total:
  "reqSlots reqs \<subseteq> dom (slotMap outputs) \<Longrightarrow>
   forEachSlot outputs reqs
     = Inr (map (\<lambda>n. the (slotMap outputs n)) (filter (reqsHas reqs) allSlotNames))"
  unfolding forEachSlot_def by (rule forEachSlotLoop_total) (auto simp: reqsHas_def)



lemma ran_exact:
  "dom m = S \<Longrightarrow> set (map (\<lambda>n. the (m n)) (filter (\<lambda>n. n \<in> S) allSlotNames)) = ran m"
proof -
  assume d: "dom m = S"
  have "set (map (\<lambda>n. the (m n)) (filter (\<lambda>n. n \<in> S) allSlotNames)) = (\<lambda>n. the (m n)) ` S"
    by (auto simp: allSlotNames_UNIV)
  also have "\<dots> = ran m"
  proof
    show "(\<lambda>n. the (m n)) ` S \<subseteq> ran m" using d by (auto simp: ran_def)
    show "ran m \<subseteq> (\<lambda>n. the (m n)) ` S"
    proof
      fix x assume "x \<in> ran m"
      then obtain a where a: "m a = Some x" by (auto simp: ran_def)
      then have "a \<in> S" using d by auto
      moreover have "x = the (m a)" using a by simp
      ultimately show "x \<in> (\<lambda>n. the (m n)) ` S" by blast
    qed
  qed
  finally show ?thesis .
qed

lemma lookupArg_mem: "lookupArg args name = Some v \<Longrightarrow> v \<in> set args"
  by (induction args name rule: lookupArg.induct) (auto split: if_splits)

lemma exprAtPath_slots:
  "exprAtPath e path = Some e' \<Longrightarrow> set (exprSlots e') \<subseteq> set (exprSlots e)"
proof (induction e path rule: exprAtPath.induct)
  case (1 e)
  then show ?case by simp
next
  case (2 f args p ps)
  from "2.prems" obtain v where f: "f = ''newObj''" and l: "lookupArg args p = Some v"
    and r: "exprAtPath v ps = Some e'"
    by (auto split: if_splits option.splits)
  from "2.IH"[OF f l r] lookupArg_mem[OF l] show ?case by auto
qed simp_all

lemma final_slotAt:
  assumes len: "length slots = length keyPattern"
    and dk: "distinct keyPattern"
    and ne: "[] \<notin> set keyPattern"
    and j: "j < length keyPattern"
  shows "slotAt (foldl stepElem emptyNode (zip keyPattern slots)) (fieldRefParts (keyPattern ! j))
         = (if \<exists>k<j. strict_prefix (fieldRefParts (keyPattern ! k)) (fieldRefParts (keyPattern ! j))
            then None else Some (slots ! j))"
proof -
  let ?ps = "zip keyPattern slots"
  let ?pj = "fieldRefParts (keyPattern ! j)"
  let ?t1 = "foldl stepElem emptyNode (take j ?ps)"
  let ?ej = "(keyPattern ! j, slots ! j)"
  have lps: "length ?ps = length keyPattern" using len by simp
  have nth: "\<And>k. k < length keyPattern \<Longrightarrow> ?ps ! k = (keyPattern ! k, slots ! k)"
    using len by simp
  have split: "?ps = take j ?ps @ ?ej # drop (Suc j) ?ps"
    using j lps nth[OF j] by (metis id_take_nth_drop)
  have dp: "distinct (map fieldRefParts keyPattern)" by (rule distinct_fieldRefParts[OF dk])
  have neq: "\<And>k. k < length keyPattern \<Longrightarrow> k \<noteq> j \<Longrightarrow> fieldRefParts (keyPattern ! k) \<noteq> ?pj"
  proof
    fix k assume k: "k < length keyPattern" "k \<noteq> j" "fieldRefParts (keyPattern ! k) = ?pj"
    then have "keyPattern ! k = keyPattern ! j" by (simp add: fieldRefParts_inj)
    with dk k(1) j have "k = j" using nth_eq_iff_index_eq[of keyPattern k j] by simp
    with k(2) show False by simp
  qed
  have pne: "?pj \<noteq> []"
  proof -
    have "keyPattern ! j \<in> set keyPattern" using j by simp
    then have "keyPattern ! j \<noteq> []" using ne by auto
    then show ?thesis by (simp add: fieldRefParts_Nil_iff)
  qed
  have before: "\<And>es. es \<in> set (take j ?ps) \<Longrightarrow> \<exists>k<j. es = (keyPattern ! k, slots ! k)"
  proof -
    fix es assume "es \<in> set (take j ?ps)"
    then obtain k where k: "k < length (take j ?ps)" "take j ?ps ! k = es"
      by (auto simp: in_set_conv_nth)
    then have "k < j" by simp
    moreover have "es = (keyPattern ! k, slots ! k)" using k j len by simp
    ultimately show "\<exists>k<j. es = (keyPattern ! k, slots ! k)" by blast
  qed
  have after: "\<And>es. es \<in> set (drop (Suc j) ?ps)
                 \<Longrightarrow> \<exists>k. j < k \<and> k < length keyPattern \<and> es = (keyPattern ! k, slots ! k)"
  proof -
    fix es assume "es \<in> set (drop (Suc j) ?ps)"
    then obtain m where m: "m < length (drop (Suc j) ?ps)" "drop (Suc j) ?ps ! m = es"
      by (auto simp: in_set_conv_nth)
    then have b: "Suc j + m < length keyPattern" using lps by simp
    have "es = ?ps ! (Suc j + m)" using m lps by simp
    then have "es = (keyPattern ! (Suc j + m), slots ! (Suc j + m))" using nth[OF b] by simp
    with b show "\<exists>k. j < k \<and> k < length keyPattern \<and> es = (keyPattern ! k, slots ! k)"
      by (intro exI[of _ "Suc j + m"]) simp
  qed
  have t1_none: "slotAt ?t1 ?pj = None"
  proof (rule ccontr)
    assume "slotAt ?t1 ?pj \<noteq> None"
    then obtain s where "slotAt ?t1 ?pj = Some s" by auto
    from foldl_slotAt_origin[OF this] obtain es where
      "es \<in> set (take j ?ps)" "?pj = fieldRefParts (fst es)" by auto
    with before obtain k where "k < j" "?pj = fieldRefParts (keyPattern ! k)" by fastforce
    with neq[of k] j show False by simp
  qed
  have A: "(\<exists>q. q \<noteq> [] \<and> prefix q ?pj \<and> slotAt ?t1 q \<noteq> None)
           \<longleftrightarrow> (\<exists>k<j. strict_prefix (fieldRefParts (keyPattern ! k)) ?pj)"
  proof
    assume "\<exists>q. q \<noteq> [] \<and> prefix q ?pj \<and> slotAt ?t1 q \<noteq> None"
    then obtain q s where q: "q \<noteq> []" "prefix q ?pj" "slotAt ?t1 q = Some s" by auto
    from foldl_slotAt_origin[OF q(3)] obtain es where
      "es \<in> set (take j ?ps)" "q = fieldRefParts (fst es)" by auto
    with before obtain k where k: "k < j" "q = fieldRefParts (keyPattern ! k)" by fastforce
    have "fieldRefParts (keyPattern ! k) \<noteq> ?pj" using neq[of k] k(1) j by simp
    with q(2) k(2) have "strict_prefix (fieldRefParts (keyPattern ! k)) ?pj"
      by (simp add: strict_prefix_def)
    with k(1) show "\<exists>k<j. strict_prefix (fieldRefParts (keyPattern ! k)) ?pj" by blast
  next
    assume "\<exists>k<j. strict_prefix (fieldRefParts (keyPattern ! k)) ?pj"
    then obtain k where k: "k < j" "strict_prefix (fieldRefParts (keyPattern ! k)) ?pj" by auto
    have kl: "k < length keyPattern" using k(1) j by simp
    have mem: "(keyPattern ! k, slots ! k) \<in> set (take j ?ps)"
    proof -
      have "take j ?ps ! k = (keyPattern ! k, slots ! k)" using k(1) j len by simp
      moreover have "k < length (take j ?ps)" using k(1) j lps by simp
      ultimately show ?thesis by (metis nth_mem)
    qed
    have "keyPattern ! k \<in> set keyPattern" using kl by simp
    then have "keyPattern ! k \<noteq> []" using ne by auto
    then have "fieldRefParts (fst (keyPattern ! k, slots ! k)) \<noteq> []"
      by (simp add: fieldRefParts_Nil_iff)
    from foldl_covers[OF mem this, of emptyNode] obtain q where
      q: "q \<noteq> []" "prefix q (fieldRefParts (keyPattern ! k))" "slotAt ?t1 q \<noteq> None" by auto
    have "prefix q ?pj" using q(2) k(2) by (meson prefix_order.trans strict_prefix_def prefix_order.less_imp_le)
    with q show "\<exists>q. q \<noteq> [] \<and> prefix q ?pj \<and> slotAt ?t1 q \<noteq> None" by blast
  qed
  have fin: "foldl stepElem emptyNode ?ps = foldl stepElem (stepElem ?t1 ?ej) (drop (Suc j) ?ps)"
    by (subst split) simp
  show ?thesis
  proof (cases "\<exists>k<j. strict_prefix (fieldRefParts (keyPattern ! k)) ?pj")
    case True
    with A have "insertPath ?pj (slots ! j) ?t1 = None" by (simp add: insertPath_skip_iff)
    then have st: "stepElem ?t1 ?ej = ?t1" by (simp add: stepElem_def)
    have "slotAt (foldl stepElem ?t1 (drop (Suc j) ?ps)) ?pj = None"
    proof (rule ccontr)
      assume "slotAt (foldl stepElem ?t1 (drop (Suc j) ?ps)) ?pj \<noteq> None"
      then obtain s where "slotAt (foldl stepElem ?t1 (drop (Suc j) ?ps)) ?pj = Some s" by auto
      from foldl_slotAt_origin[OF this] t1_none obtain es where
        "es \<in> set (drop (Suc j) ?ps)" "?pj = fieldRefParts (fst es)" by auto
      with after obtain k where "j < k" "k < length keyPattern" "?pj = fieldRefParts (keyPattern ! k)"
        by fastforce
      with neq[of k] show False by simp
    qed
    then show ?thesis using True fin st by simp
  next
    case False
    with A have "insertPath ?pj (slots ! j) ?t1 \<noteq> None" by (simp add: insertPath_skip_iff)
    then obtain r where r: "insertPath ?pj (slots ! j) ?t1 = Some r" by auto
    then have st: "stepElem ?t1 ?ej = r" by (simp add: stepElem_def)
    have "slotAt r ?pj = Some (slots ! j)" using insertPath_slotAt[OF r, of ?pj] by simp
    then have "slotAt (foldl stepElem r (drop (Suc j) ?ps)) ?pj = Some (slots ! j)"
      using pne by (rule foldl_slotAt_keeps)
    then show ?thesis using False fin st by simp
  qed
qed

lemma fieldRefParts_abc:
  "fieldRefParts ''a'' = [''a'']" "fieldRefParts ''a.b'' = [''a'', ''b'']"
  "fieldRefParts ''a.b.c'' = [''a'', ''b'', ''c'']"
  by (simp_all add: fieldRefParts_def)

lemma getFieldName_0 [simp]: "getFieldName fp 0 = topField fp"
  by (simp add: getFieldName_def fieldNames_def)

lemma sortPatternLoop_spec:
  "sortPatternLoop parts S h = Inr (h', dirs, paths) \<Longrightarrow>
   map fieldPath parts = map Some paths \<and> dirs = map directionOf parts \<and>
   (h' \<longleftrightarrow> h \<or> \<not> distinct (map topField paths) \<or> (\<exists>t \<in> set (map topField paths). t \<in> S))"
proof (induction parts arbitrary: S h h' dirs paths)
  case Nil
  then show ?case by auto
next
  case (Cons part parts)
  from Cons.prems obtain fp where fp: "fieldPath part = Some fp"
    by (auto split: option.splits)
  show ?case
  proof (cases h)
    case True
    with Cons.prems fp obtain d p where r: "sortPatternLoop parts S True = Inr (h', d, p)"
      and e: "dirs = directionOf part # d" "paths = fp # p"
      by (auto simp: directionOf_def split: sum.splits)
    from Cons.IH[OF r] e fp True show ?thesis by auto
  next
    case False
    with Cons.prems fp obtain d p where
      r: "sortPatternLoop parts (insert (topField fp) S) (topField fp \<in> S) = Inr (h', d, p)"
      and e: "dirs = directionOf part # d" "paths = fp # p"
      by (auto simp: directionOf_def split: sum.splits)
    from Cons.IH[OF r] have i1: "map fieldPath parts = map Some p" and i2: "d = map directionOf parts"
      and i3: "h' \<longleftrightarrow> topField fp \<in> S \<or> \<not> distinct (map topField p) \<or>
                 (\<exists>t \<in> set (map topField p). t \<in> insert (topField fp) S)" by auto
    have "h' \<longleftrightarrow> h \<or> \<not> distinct (map topField paths) \<or> (\<exists>t \<in> set (map topField paths). t \<in> S)"
    proof -
      have m: "\<And>t. t \<in> set p \<Longrightarrow> topField t = topField fp \<Longrightarrow> topField fp \<in> topField ` set p"
        by (metis imageI)
      show ?thesis unfolding i3 using e False
        by (cases "topField fp \<in> topField ` set p") (auto dest: m)
    qed
    with i1 i2 e fp show ?thesis by simp
  qed
qed

lemma sortProjectLoop_length:
  "sortProjectLoop paths resultSlot st = (projectMap, orderBy, st') \<Longrightarrow>
   length orderBy = length paths \<and> length projectMap = length paths"
  by (induction paths arbitrary: st projectMap orderBy st')
     (auto split: prod.splits)

lemma sortKeyLoop_length:
  "sortKeyLoop stage keys nid collatorSlot st = Inr (stage', orderBy, st') \<Longrightarrow>
   length orderBy = length keys"
  by (induction keys arbitrary: stage st stage' orderBy st')
     (auto split: prod.splits sum.splits)

lemma sort_example:
  "buildNode modelGenerators modelContext (SortNode 3 True sortAbAc (EofNode 1))
      (reqsSet emptyReqs kResult) initialState
   = Inr (SortStage
           (ProjectStage
              (ProjectStage (LimitSkipStage (CoScanStage 1) (Some 0) None 1) [(1, EConstant Nothing)] 1)
              [(2, EFunction ''generateSortKey''
                     [EConstant (SortSpecV (snPattern sortAbAc) False), EVariable 1])] 3)
           [2] [Ascending] [1] None 100 False 3,
          \<lparr>slotMap = [kResult \<mapsto> 1], indexKeySlots = None\<rparr>,
          \<lparr>slotIdGenerator = 2, frameIdGenerator = 0, spoolIdGenerator = 0, runtimeEnv = []\<rparr>)"
  by (simp add: build.simps sortAbAc_def modelContext_def initialState_def emptyReqs_def reqsSet_def
        reqsHas_def generateEofPlan_def makePlanStageSlots_def allSlotNames_def emptySlots_def
        forEachSlot_def slotsSet_def generateSlotId_def buildSortAfterChild_def buildSortSlow_def
        slotsGet_def makeProjectStage_def makeFunction_def makeVariable_def getFieldName_def
        fieldNames_def)

lemma traversal_is:
  "generateSortKeyTraversal inputStage inputSlot fp direction level nid collatorSlot st
     = Inr ((out, stage), st') \<Longrightarrow>
   isSortKeyTraversal inputStage inputSlot (drop level (fieldNames fp)) (level = 0) direction nid
     collatorSlot out stage"
proof (induction inputStage inputSlot fp direction level nid collatorSlot st
        arbitrary: out stage st' rule: generateSortKeyTraversal.induct)
  case (1 inputStage inputSlot fp direction level planNodeId collatorSlot st)
  from "1.prems" have lv: "level < getPathLength fp"
    by (subst (asm) generateSortKeyTraversal.simps) (auto split: if_splits)
  then have lv': "level < length (fieldNames fp)" by (simp add: getPathLength_def)
  define isLeaf where "isLeaf = (level = getPathLength fp - 1)"
  define getFieldExpr where "getFieldExpr = makeFunction ''getField''
                        [EVariable inputSlot, EConstant (StringV (getFieldName fp level))]"
  define first where "first = (if level > 0 then
                 (case generateSlotId st of
                    (fieldSlot, st1) \<Rightarrow>
                      (fieldSlot,
                       makeProjectStage inputStage planNodeId fieldSlot
                         (if isLeaf then makeFillEmptyNull getFieldExpr else getFieldExpr),
                       st1))
               else (inputSlot, inputStage, st))"
  obtain fieldSlot fromBranch st1 where f: "first = (fieldSlot, fromBranch, st1)"
    by (cases first)
  have dr: "drop level (fieldNames fp) = getFieldName fp level # drop (Suc level) (fieldNames fp)"
    using lv' by (simp add: getFieldName_def Cons_nth_drop_Suc)
  have leaf: "isLeaf \<longleftrightarrow> drop (Suc level) (fieldNames fp) = []"
    using lv' by (auto simp: isLeaf_def getPathLength_def)
  have fb: "if level = 0 then fieldSlot = inputSlot \<and> fromBranch = inputStage
            else fromBranch = ProjectStage inputStage
                   [(fieldSlot, if isLeaf then orNull (getFieldOf inputSlot (getFieldName fp level))
                                else getFieldOf inputSlot (getFieldName fp level))] planNodeId"
    using f unfolding first_def getFieldExpr_def
    by (auto simp: makeProjectStage_def makeFillEmptyNull_def makeFunction_def generateSlotId_def
             orNull_def getFieldOf_def split: if_splits)
  define inner where "inner = (if isLeaf then
                      (case generateSlotId st1 of
                         (innerSlot, st2) \<Rightarrow>
                           Inr ((innerSlot,
                                 makeProjectStage (makeLimitCoScanTree planNodeId) planNodeId
                                   innerSlot (makeSortKey collatorSlot fieldSlot)),
                                st2))
                    else generateSortKeyTraversal (makeLimitCoScanTree planNodeId) fieldSlot fp
                           direction (level + 1) planNodeId collatorSlot st1)"
  from "1.prems" lv f obtain innerSlot innerBranch st2 where
    i: "inner = Inr ((innerSlot, innerBranch), st2)"
    apply (subst (asm) generateSortKeyTraversal.simps)
    apply (simp only: Let_def first_def[symmetric] isLeaf_def[symmetric] getFieldExpr_def[symmetric])
    apply (simp only: f prod.case inner_def[symmetric])
    apply (auto split: if_splits sum.splits)
    done
  have ib: "if isLeaf
            then innerBranch = ProjectStage (limitOneCoScan planNodeId)
                                [(innerSlot, sortKeyLeaf collatorSlot fieldSlot)] planNodeId
            else isSortKeyTraversal (limitOneCoScan planNodeId) fieldSlot
                   (drop (Suc level) (fieldNames fp)) False direction planNodeId collatorSlot
                   innerSlot innerBranch"
  proof (cases isLeaf)
    case True
    with i show ?thesis unfolding inner_def
      by (auto simp: makeProjectStage_def makeLimitCoScanTree_def makeSortKey_def makeVariable_def
               makeFunction_def generateSlotId_def limitOneCoScan_def sortKeyLeaf_def
               split: option.splits)
  next
    case False
    with i have r: "generateSortKeyTraversal (makeLimitCoScanTree planNodeId) fieldSlot fp
                           direction (level + 1) planNodeId collatorSlot st1
                    = Inr ((innerSlot, innerBranch), st2)"
      unfolding inner_def by simp
    have "(fieldSlot, fromBranch, st1)
          = (if 0 < level
             then let getFieldExpr = makeFunction ''getField''
                        [EVariable inputSlot, EConstant (StringV (getFieldName fp level))]
                  in case generateSlotId st of
                     (fieldSlot, st1) \<Rightarrow>
                       (fieldSlot,
                        makeProjectStage inputStage planNodeId fieldSlot
                          (if level = getPathLength fp - 1 then makeFillEmptyNull getFieldExpr
                           else getFieldExpr),
                        st1)
             else (inputSlot, inputStage, st))"
      using f unfolding first_def isLeaf_def getFieldExpr_def Let_def by simp
    from "1.IH"[OF _ refl this refl _ r] lv False
    show ?thesis by (simp add: isLeaf_def makeLimitCoScanTree_def limitOneCoScan_def)
  qed
  from "1.prems" lv f i obtain traverseSlot where
    o: "stage = ProjectStage
            (TraverseStage fromBranch innerBranch fieldSlot traverseSlot innerSlot
               (sortKeyFold direction innerSlot traverseSlot) planNodeId)
            [(out, if isLeaf then orUndefined (EVariable traverseSlot)
                   else orNull (EVariable traverseSlot))] planNodeId"
    apply (subst (asm) generateSortKeyTraversal.simps)
    apply (simp only: Let_def first_def[symmetric] isLeaf_def[symmetric] getFieldExpr_def[symmetric])
    apply (simp only: f prod.case inner_def[symmetric] i sum.case)
    apply (auto simp: generateSlotId_def makeProjectStage_def makeBinaryOp_def makeVariable_def
              makeFillEmptyUndefined_def makeFillEmptyNull_def makeFunction_def sortKeyFold_def
              orUndefined_def orNull_def split: if_splits)
    done
  show ?case
    unfolding dr o using fb ib leaf by (auto split: if_splits)
qed

lemma isSortKeyTraversal_input:
  "isSortKeyTraversal inputStage inputSlot names True direction nid collatorSlot out stage \<Longrightarrow>
   traversalInput stage = Some inputStage"
proof (cases names)
  case Nil
  assume "isSortKeyTraversal inputStage inputSlot names True direction nid collatorSlot out stage"
  with Nil show ?thesis by simp
next
  case (Cons name rest)
  assume a: "isSortKeyTraversal inputStage inputSlot names True direction nid collatorSlot out stage"
  show ?thesis
  proof (cases stage rule: traversalInput.cases)
    case (1 fromBranch i f t s e n1 ps n2)
    show ?thesis
    proof (cases ps)
      case Nil
      with a Cons 1 show ?thesis by simp
    next
      case (Cons p ps')
      obtain slot final where p: "p = (slot, final)" by (cases p)
      show ?thesis
      proof (cases ps')
        case Nil
        with a \<open>names = name # rest\<close> 1 Cons p show ?thesis by simp
      next
        case (Cons q qs)
        with a \<open>names = name # rest\<close> 1 \<open>ps = p # ps'\<close> p show ?thesis by simp
      qed
    qed
  qed (use a Cons in \<open>simp_all split: PlanStage.splits\<close>)
qed

lemma isTraversalChain_snoc:
  "isTraversalChain stage1 keys outs nid collatorSlot stage \<Longrightarrow>
   isSortKeyTraversal base slot (fieldNames fp) True direction nid collatorSlot out stage1 \<Longrightarrow>
   isTraversalChain base (keys @ [(slot, fp, direction)]) (outs @ [out]) nid collatorSlot stage"
proof (induction stage1 keys outs nid collatorSlot stage rule: isTraversalChain.induct)
  case (1 base' nid collatorSlot stage)
  then show ?case by (simp add: isSortKeyTraversal_input)
next
  case (2 base' slot' fp' direction' keys out' outs nid collatorSlot stage)
  then show ?case by (auto split: option.splits)
qed simp_all

lemma sortKeyLoop_chain:
  "sortKeyLoop base keys nid collatorSlot st = Inr (stage, outs, st') \<Longrightarrow>
   isTraversalChain base (rev keys) (rev outs) nid collatorSlot stage"
proof (induction keys arbitrary: base st stage outs st')
  case Nil
  then show ?case by simp
next
  case (Cons key keys)
  obtain slot fp direction where k: "key = (slot, fp, direction)" by (cases key)
  from Cons.prems k obtain sortKeySlot stage1 st1 ob where
    t: "generateSortKeyTraversal base slot fp direction 0 nid collatorSlot st
          = Inr ((sortKeySlot, stage1), st1)"
    and l: "sortKeyLoop stage1 keys nid collatorSlot st1 = Inr (stage, ob, st')"
    and o: "outs = sortKeySlot # ob"
    by (auto simp del: generateSortKeyTraversal.simps split: sum.splits)
  from traversal_is[OF t] have
    "isSortKeyTraversal base slot (fieldNames fp) True direction nid collatorSlot sortKeySlot stage1"
    by simp
  from isTraversalChain_snoc[OF Cons.IH[OF l] this] show ?case by (simp add: k o)
qed

lemma sortProjectLoop_spec:
  "sortProjectLoop paths resultSlot st = (projectMap, fieldSlots, st') \<Longrightarrow>
   fieldSlots = [Suc (slotIdGenerator st) ..< Suc (slotIdGenerator st) + length paths] \<and>
   projectMap = map2 (\<lambda>slot fp. (slot, orNull (getFieldOf resultSlot (topField fp)))) fieldSlots paths \<and>
   st' = st\<lparr>slotIdGenerator := slotIdGenerator st + length paths\<rparr>"
proof (induction paths arbitrary: st projectMap fieldSlots st')
  case Nil
  then show ?case by simp
next
  case (Cons fp paths)
  let ?st1 = "st\<lparr>slotIdGenerator := Suc (slotIdGenerator st)\<rparr>"
  from Cons.prems obtain pm fs where
    l: "sortProjectLoop paths resultSlot ?st1 = (pm, fs, st')"
    and p: "projectMap = (Suc (slotIdGenerator st), orNull (getFieldOf resultSlot (topField fp))) # pm"
    and f: "fieldSlots = Suc (slotIdGenerator st) # fs"
    by (auto simp: generateSlotId_def makeFillEmptyNull_def makeFunction_def makeVariable_def
          orNull_def getFieldOf_def split: prod.splits)
  from Cons.IH[OF l] have
    fs: "fs = [Suc (Suc (slotIdGenerator st)) ..< Suc (Suc (slotIdGenerator st)) + length paths]"
    and pm: "pm = map2 (\<lambda>slot fp. (slot, orNull (getFieldOf resultSlot (topField fp)))) fs paths"
    and s: "st' = ?st1\<lparr>slotIdGenerator := Suc (slotIdGenerator st) + length paths\<rparr>"
    by simp_all
  have u: "[Suc (slotIdGenerator st) ..< Suc (slotIdGenerator st) + length (fp # paths)]
        = Suc (slotIdGenerator st) # fs"
    unfolding fs
    using upt_conv_Cons[of "Suc (slotIdGenerator st)" "Suc (slotIdGenerator st) + length (fp # paths)"]
    by simp
  have c1: "fieldSlots
            = [Suc (slotIdGenerator st) ..< Suc (slotIdGenerator st) + length (fp # paths)]"
    unfolding u by (rule f)
  have c2: "projectMap = map2 (\<lambda>slot fp. (slot, orNull (getFieldOf resultSlot (topField fp))))
                          fieldSlots (fp # paths)"
    unfolding f p pm by simp
  have c3: "st' = st\<lparr>slotIdGenerator := slotIdGenerator st + length (fp # paths)\<rparr>"
    unfolding s by simp
  from c1 c2 c3 show ?case by (intro conjI)
qed

lemma failOnParallelArrays_None_iff:
  "failOnParallelArrays secondFirst keys st = Inr (r, st') \<Longrightarrow> (r = None \<longleftrightarrow> length keys < 2)"
  by (auto simp: failOnParallelArrays_def split: if_splits sum.splits)

lemma sort_fast_example:
  "buildNode modelGenerators modelContext (SortNode 3 True sortAB (EofNode 1))
      (reqsSet emptyReqs kResult) initialState
   = Inr (SortStage sortABKeys [7, 10] [Ascending, Descending] [1] None 100 False 3,
          \<lparr>slotMap = [kResult \<mapsto> 1], indexKeySlots = None\<rparr>,
          \<lparr>slotIdGenerator = 10, frameIdGenerator = 0, spoolIdGenerator = 0, runtimeEnv = []\<rparr>)"
  by (simp add: build.simps sortAB_def modelContext_def initialState_def emptyReqs_def reqsSet_def
        reqsHas_def generateEofPlan_def makePlanStageSlots_def allSlotNames_def emptySlots_def
        forEachSlot_def slotsSet_def generateSlotId_def buildSortAfterChild_def buildSortFast_def
        slotsGet_def makeProjectStage_def makeFunction_def makeVariable_def getFieldName_def
        fieldNames_def getPathLength_def failOnParallelArrays_def makeIsNotArrayCheck_def
        generateArrayCheckForSort_def makeNot_def makeBinaryOp_def parallelArraysError_def
        makeFillEmptyNull_def makeFillEmptyUndefined_def makeLimitCoScanTree_def makeSortKey_def
        getSlotIfExists_def sortABKeys_def sortABChecked_def eofResultStage_def orNull_def
        orUndefined_def getFieldOf_def sortKeyFold_def limitOneCoScan_def Let_def)

lemma badValueFails_simps [simp]:
  "badValueFails [] = 0" "badValueFails (e # es) = exprBadValueFails e + badValueFails es"
  "badValueFails (xs @ ys) = badValueFails xs + badValueFails ys"
  by (simp_all add: badValueFails_def)





lemma arrayCount_fails [simp]: "exprBadValueFails (arrayCount c) = exprBadValueFails c"
  by (simp add: arrayCount_def)
















lemma generateMultiple_numeral:
  "generateMultiple (numeral k) st =
     (case generateSlotId st of
        (slot, st1) \<Rightarrow> (case generateMultiple (pred_numeral k) st1 of (slots, st2) \<Rightarrow> (slot # slots, st2)))"
  by (simp add: numeral_eq_Suc)



lemma matchingParentReqsLoop_spec:
  "matchingParentReqsLoop [a..<b] p c slots idx = Inr r \<Longrightarrow>
   r = map (\<lambda>pos. slots ! (idx + length (filter (\<lambda>i. i \<in> c) [a..<pos])))
           (filter (\<lambda>i. i \<in> p) [a..<b]) \<and>
   (\<forall>pos \<in> set (filter (\<lambda>i. i \<in> p) [a..<b]).
       idx + length (filter (\<lambda>i. i \<in> c) [a..<pos]) < length slots)"
proof (induction "b - a" arbitrary: a idx r)
  case 0
  then show ?case by simp
next
  case (Suc n)
  let ?idx' = "if a \<in> c then Suc idx else idx"
  from Suc.hyps have ab: "a < b" and n: "n = b - Suc a" by auto
  have u: "[a..<b] = a # [Suc a..<b]" using ab by (simp add: upt_conv_Cons)
  have key: "\<And>pos. Suc a \<le> pos \<Longrightarrow>
      idx + length (filter (\<lambda>i. i \<in> c) [a..<pos])
      = ?idx' + length (filter (\<lambda>i. i \<in> c) [Suc a..<pos])"
    by (simp add: upt_conv_Cons)
  have m: "map (\<lambda>pos. slots ! (idx + length (filter (\<lambda>i. i \<in> c) [a..<pos])))
             (filter (\<lambda>i. i \<in> p) [Suc a..<b])
         = map (\<lambda>pos. slots ! (?idx' + length (filter (\<lambda>i. i \<in> c) [Suc a..<pos])))
             (filter (\<lambda>i. i \<in> p) [Suc a..<b])"
    by (rule map_cong[OF refl]) (simp add: key)
  show ?case
  proof (cases "a \<in> p")
    case True
    with Suc.prems u obtain r' where
      i: "idx < length slots"
      and l: "matchingParentReqsLoop [Suc a..<b] p c slots ?idx' = Inr r'"
      and r: "r = slots ! idx # r'"
      by (auto simp: Let_def split: if_splits sum.splits)
    from Suc.hyps(1)[OF n l] have
      r': "r' = map (\<lambda>pos. slots ! (?idx' + length (filter (\<lambda>i. i \<in> c) [Suc a..<pos])))
                  (filter (\<lambda>i. i \<in> p) [Suc a..<b])"
      and b': "\<forall>pos \<in> set (filter (\<lambda>i. i \<in> p) [Suc a..<b]).
                 ?idx' + length (filter (\<lambda>i. i \<in> c) [Suc a..<pos]) < length slots"
      by blast+
    have "r = map (\<lambda>pos. slots ! (idx + length (filter (\<lambda>i. i \<in> c) [a..<pos])))
           (filter (\<lambda>i. i \<in> p) [a..<b])"
      unfolding u using True r r' m by simp
    moreover have "\<forall>pos \<in> set (filter (\<lambda>i. i \<in> p) [a..<b]).
       idx + length (filter (\<lambda>i. i \<in> c) [a..<pos]) < length slots"
    proof
      fix pos assume "pos \<in> set (filter (\<lambda>i. i \<in> p) [a..<b])"
      then have "pos = a \<or> pos \<in> set (filter (\<lambda>i. i \<in> p) [Suc a..<b])"
        unfolding u using True by auto
      then show "idx + length (filter (\<lambda>i. i \<in> c) [a..<pos]) < length slots"
      proof
        assume "pos = a" then show ?thesis using i by simp
      next
        assume q: "pos \<in> set (filter (\<lambda>i. i \<in> p) [Suc a..<b])"
        then have "Suc a \<le> pos" by simp
        from key[OF this] b' q show ?thesis by simp
      qed
    qed
    ultimately show ?thesis by blast
  next
    case False
    with Suc.prems u have
      l: "matchingParentReqsLoop [Suc a..<b] p c slots ?idx' = Inr r"
      by (auto simp: Let_def split: if_splits sum.splits)
    from Suc.hyps(1)[OF n l] have
      r': "r = map (\<lambda>pos. slots ! (?idx' + length (filter (\<lambda>i. i \<in> c) [Suc a..<pos])))
                  (filter (\<lambda>i. i \<in> p) [Suc a..<b])"
      and b': "\<forall>pos \<in> set (filter (\<lambda>i. i \<in> p) [Suc a..<b]).
                 ?idx' + length (filter (\<lambda>i. i \<in> c) [Suc a..<pos]) < length slots"
      by blast+
    have "r = map (\<lambda>pos. slots ! (idx + length (filter (\<lambda>i. i \<in> c) [a..<pos])))
           (filter (\<lambda>i. i \<in> p) [a..<b])"
      unfolding u using False r' m by simp
    moreover have "\<forall>pos \<in> set (filter (\<lambda>i. i \<in> p) [a..<b]).
       idx + length (filter (\<lambda>i. i \<in> c) [a..<pos]) < length slots"
    proof
      fix pos assume "pos \<in> set (filter (\<lambda>i. i \<in> p) [a..<b])"
      then have q: "pos \<in> set (filter (\<lambda>i. i \<in> p) [Suc a..<b])"
        unfolding u using False by auto
      then have "Suc a \<le> pos" by simp
      from key[OF this] b' q
      show "idx + length (filter (\<lambda>i. i \<in> c) [a..<pos]) < length slots" by simp
    qed
    ultimately show ?thesis by blast
  qed
qed

lemma narrow_spec:
  assumes "makeIndexKeyOutputSlotsMatchingParentReqs kp p c slots = Inr r"
  shows "r = map (\<lambda>pos. slots ! slotRank c pos) (bitPositions p)"
    and "\<forall>pos \<in> set (bitPositions p). slotRank c pos < length slots"
    and "bitCount p \<le> bitCount c"
proof -
  from assms have l: "matchingParentReqsLoop [0..<kMaxCompoundIndexKeys] p c slots 0 = Inr r"
    and c: "bitCount p \<le> bitCount c"
    by (auto simp: makeIndexKeyOutputSlotsMatchingParentReqs_def split: if_splits)
  from matchingParentReqsLoop_spec[OF l]
  show "r = map (\<lambda>pos. slots ! slotRank c pos) (bitPositions p)"
    and "\<forall>pos \<in> set (bitPositions p). slotRank c pos < length slots"
    by (simp_all add: slotRank_def bitPositions_def)
  show "bitCount p \<le> bitCount c" by (rule c)
qed

lemma filter_less_upt: "filter (\<lambda>i. i < n) [0..<m] = [0..<min m n]"
proof (induction m)
  case 0
  then show ?case by simp
next
  case (Suc m)
  show ?case
  proof (cases "m < n")
    case True
    then have "min (Suc m) n = Suc m" "min m n = m" by simp_all
    with Suc True show ?thesis by simp
  next
    case False
    then have "min (Suc m) n = n" "min m n = n" by simp_all
    with Suc False show ?thesis by simp
  qed
qed

lemma slotRank_upt: "slotRank {0..<n} pos = min pos n"
  by (simp add: slotRank_def filter_less_upt)

lemma bitCount_upt: "n \<le> kMaxCompoundIndexKeys \<Longrightarrow> bitCount {0..<n} = n"
  by (simp add: bitCount_def bitPositions_def filter_less_upt)

lemma bitPositions_subset: "set (bitPositions p) \<subseteq> p"
  by (auto simp: bitPositions_def)

lemma indexScanReturnKey_iks:
  "indexScanReturnKey nid ixn reqs stage outputs st = Inr (s2, o2, st2) \<Longrightarrow>
   indexKeySlots o2 = indexKeySlots outputs"
  by (auto simp: indexScanReturnKey_def slotsSet_def generateSlotId_def
           split: if_splits sum.splits prod.splits)

lemma indexScanResult_iks:
  "indexScanResult nid ixn reqs stage outputs st = Inr (s2, o2, st2) \<Longrightarrow>
   indexKeySlots o2 = indexKeySlots outputs"
  by (auto simp: indexScanResult_def slotsSet_def generateSlotId_def
           split: if_splits sum.splits prod.splits option.splits)

lemma indexScanKeyBitset_spec:
  "indexScanKeyBitset ixn reqs = Inr bits \<Longrightarrow>
   bits = (if reqsHas reqs kResult \<or> reqsHas reqs kReturnKey
           then {0..<length (ixnKeyPattern ixn)}
           else (case reqIndexKeyBitset reqs of Some p \<Rightarrow> p | None \<Rightarrow> {}))
   \<and> (reqsHas reqs kResult \<or> reqsHas reqs kReturnKey
        \<longrightarrow> length (ixnKeyPattern ixn) \<le> kMaxCompoundIndexKeys)"
  by (auto simp: indexScanKeyBitset_def split: if_splits option.splits)

lemma makeIndexKeyInclusionSetLoop_spec:
  "makeIndexKeyInclusionSetLoop kp F i = Inr (bits, names) \<Longrightarrow>
   bits = (\<lambda>j. i + j) ` {j. j < length kp \<and> kp ! j \<in> F} \<and> names = filter (\<lambda>f. f \<in> F) kp"
proof (induction kp arbitrary: i bits names)
  case Nil
  then show ?case by simp
next
  case (Cons e rest)
  have s: "{j. j < length (e # rest) \<and> (e # rest) ! j \<in> F}
           = (if e \<in> F then {0} else {}) \<union> Suc ` {j. j < length rest \<and> rest ! j \<in> F}"
  proof (rule set_eqI)
    fix j show "j \<in> {j. j < length (e # rest) \<and> (e # rest) ! j \<in> F}
           \<longleftrightarrow> j \<in> (if e \<in> F then {0} else {}) \<union> Suc ` {j. j < length rest \<and> rest ! j \<in> F}"
      by (cases j) auto
  qed
  have sh: "(\<lambda>j. i + j) ` Suc ` {j. j < length rest \<and> rest ! j \<in> F}
            = (\<lambda>j. Suc i + j) ` {j. j < length rest \<and> rest ! j \<in> F}"
    by (simp add: image_image)
  show ?case
  proof (cases "e \<in> F")
    case True
    with Cons.prems obtain b n where
      l: "makeIndexKeyInclusionSetLoop rest F (Suc i) = Inr (b, n)"
      and e: "bits = insert i b" "names = e # n"
      by (auto split: if_splits sum.splits)
    from Cons.IH[OF l] e True show ?thesis
      unfolding s by (simp add: image_Un sh)
  next
    case False
    with Cons.prems have l: "makeIndexKeyInclusionSetLoop rest F (Suc i) = Inr (bits, names)"
      by simp
    from Cons.IH[OF l] False show ?thesis
      unfolding s by (simp add: sh)
  qed
qed

lemma makeIndexKeyInclusionSet_spec:
  "makeIndexKeyInclusionSet kp F = Inr (bits, names) \<Longrightarrow>
   bits = {j. j < length kp \<and> kp ! j \<in> F} \<and> names = filter (\<lambda>f. f \<in> F) kp"
  by (auto simp: makeIndexKeyInclusionSet_def dest!: makeIndexKeyInclusionSetLoop_spec)

lemma bitPositions_insert:
  "bitPositions {0, 1} = [0, 1]" "bitPositions {1} = [1]" "bitPositions {0} = [0]"
  by (simp_all add: bitPositions_def kMaxCompoundIndexKeys_def upt_rec)

lemma fieldRefParts_ab: "fieldRefParts ''a'' = [''a'']" "fieldRefParts ''b'' = [''b'']"
  by (simp_all add: fieldRefParts_def)

lemma indexScan_example:
  "buildIndexScan modelGenerators 2 ixScanAB resultAndSecondKey initialState
   = Inr (ProjectStage (GeneratedStage ''ixscan'' [] [1, 2, 3])
            [(4, EFunction ''newObj''
                   [EConstant (StringV ''a''), EVariable 2, EConstant (StringV ''b''), EVariable 3])] 2,
          \<lparr>slotMap = [kRecordId \<mapsto> 1, kResult \<mapsto> 4], indexKeySlots = Some [3]\<rparr>,
          \<lparr>slotIdGenerator = 4, frameIdGenerator = 0, spoolIdGenerator = 0, runtimeEnv = []\<rparr>)"
  by (simp add: buildIndexScan_def ixScanAB_def resultAndSecondKey_def indexScanKeyBitset_def
      kMaxCompoundIndexKeys_def indexScanReturnKey_def indexScanResult_def indexScanOutputSlots_def
      makeIndexKeyOutputSlotsMatchingParentReqs_def bitCount_def bitPositions_def
      rehydrateIndexKey_def buildKeyPatternTree_def
      modelContext_def initialState_def emptyReqs_def reqsSet_def reqsHas_def slotsSet_def
      setIndexKeySlots_def generateSlotId_def makeProjectStage_def makeFunction_def
      modelGenerators_def modelGenerateIndexScan_def upt_rec fieldRefParts_ab emptyNode_def
      makeConstant_def makeVariable_def)
     (simp add: eval_nat_numeral)

lemma bitCount_card: "bitCount w = card (w \<inter> {0..<kMaxCompoundIndexKeys})"
proof -
  have "distinct (filter (\<lambda>i. i \<in> w) [0..<kMaxCompoundIndexKeys])" by simp
  from distinct_card[OF this]
  have "bitCount w = card (set (filter (\<lambda>i. i \<in> w) [0..<kMaxCompoundIndexKeys]))"
    unfolding bitCount_def bitPositions_def by (rule sym)
  also have "set (filter (\<lambda>i. i \<in> w) [0..<kMaxCompoundIndexKeys]) = w \<inter> {0..<kMaxCompoundIndexKeys}"
    by auto
  finally show ?thesis .
qed

lemma set_bitPositions: "set (bitPositions w) = w \<inter> {0..<kMaxCompoundIndexKeys}"
  by (auto simp: bitPositions_def)

lemma bitCount_union_eq_iff:
  assumes "\<forall>b \<in> s. b < kMaxCompoundIndexKeys"
  shows "bitCount s = bitCount (p \<union> s) \<longleftrightarrow> set (bitPositions p) \<subseteq> s"
proof -
  let ?R = "{0..<kMaxCompoundIndexKeys}"
  have sub: "s \<inter> ?R \<subseteq> (p \<union> s) \<inter> ?R" by auto
  have fin: "finite ((p \<union> s) \<inter> ?R)" by simp
  have "card (s \<inter> ?R) = card ((p \<union> s) \<inter> ?R) \<longleftrightarrow> s \<inter> ?R = (p \<union> s) \<inter> ?R"
    using card_subset_eq[OF fin sub] by auto
  also have "\<dots> \<longleftrightarrow> p \<inter> ?R \<subseteq> s" using assms by auto
  finally show ?thesis by (simp add: bitCount_card set_bitPositions)
qed

lemma inclusionSetLoop_bound:
  "makeIndexKeyInclusionSetLoop kp F i = Inr (bits, names) \<Longrightarrow>
   (\<forall>b \<in> bits. i \<le> b \<and> b < kMaxCompoundIndexKeys) \<and> finite bits \<and> length names = card bits"
proof (induction kp arbitrary: i bits names)
  case Nil
  then show ?case by simp
next
  case (Cons e rest)
  show ?case
  proof (cases "e \<in> F")
    case True
    with Cons.prems obtain b n where
      l: "makeIndexKeyInclusionSetLoop rest F (Suc i) = Inr (b, n)"
      and i: "i < kMaxCompoundIndexKeys"
      and e: "bits = insert i b" "names = e # n"
      by (auto split: if_splits sum.splits)
    from Cons.IH[OF l] have ih: "\<forall>x \<in> b. Suc i \<le> x \<and> x < kMaxCompoundIndexKeys" "finite b"
      "length n = card b" by simp_all
    have "i \<notin> b" using ih(1) by auto
    with ih e i show ?thesis by auto
  next
    case False
    with Cons.prems have l: "makeIndexKeyInclusionSetLoop rest F (Suc i) = Inr (bits, names)"
      by simp
    from Cons.IH[OF l] show ?thesis by auto
  qed
qed

lemma inclusionSet_bound:
  "makeIndexKeyInclusionSet kp F = Inr (bits, names) \<Longrightarrow> \<forall>b \<in> bits. b < kMaxCompoundIndexKeys"
  by (auto simp: makeIndexKeyInclusionSet_def dest!: inclusionSetLoop_bound)

lemma inclusionSet_names:
  "makeIndexKeyInclusionSet kp F = Inr (bits, names) \<Longrightarrow> length names = bitCount bits"
proof -
  assume a: "makeIndexKeyInclusionSet kp F = Inr (bits, names)"
  then have "(\<forall>b \<in> bits. b < kMaxCompoundIndexKeys) \<and> length names = card bits"
    by (auto simp: makeIndexKeyInclusionSet_def dest!: inclusionSetLoop_bound)
  moreover then have "bits \<inter> {0..<kMaxCompoundIndexKeys} = bits" by auto
  ultimately show ?thesis by (simp add: bitCount_card)
qed

lemma shardFilter_failing_example:
  "buildNode modelGenerators shardKeyB (ShardingFilterNode 3 (IndexScanNode 2 ixScanAB))
      firstKeyOnly initialState
   = Inr (FilterStage False
            (MakeBsonObjStage (GeneratedStage ''ixscan'' [] [1, 2, 3]) 4 None [] [''b''] [2, 3] 3)
            (EFunction ''shardFilter'' [EConstant ShardFiltererV, EVariable 4]) 3,
          \<lparr>slotMap = [kRecordId \<mapsto> 1], indexKeySlots = Some [2]\<rparr>,
          \<lparr>slotIdGenerator = 4, frameIdGenerator = 0, spoolIdGenerator = 0, runtimeEnv = []\<rparr>)"
  by (simp add: build.simps buildIndexScan_def ixScanAB_def firstKeyOnly_def shardKeyB_def
      indexScanKeyBitset_def
      kMaxCompoundIndexKeys_def indexScanReturnKey_def indexScanResult_def indexScanOutputSlots_def
      makeIndexKeyOutputSlotsMatchingParentReqs_def bitCount_def bitPositions_def
      makeIndexKeyInclusionSet_def shardFilterCoveredChildReqs_def reqsSetIf_def
      buildShardFilterCoveredAfterChild_def buildShardFilterGivenShardKeySlot_def
      modelContext_def initialState_def emptyReqs_def reqsSet_def reqsHas_def slotsSet_def
      setIndexKeySlots_def generateSlotId_def makeProjectStage_def makeFunction_def
      modelGenerators_def modelGenerateIndexScan_def upt_rec
      makeConstant_def makeVariable_def generateMultiple_numeral)

section \<open>The claims about index key rehydration\<close>

lemma ex_less_two: "(\<exists>j<Suc (Suc 0). P j) \<longleftrightarrow> P 0 \<or> P (Suc 0)"
  by (auto simp: less_Suc_eq)

lemma all_less_two: "(\<forall>j<Suc (Suc 0). P j) \<longleftrightarrow> P 0 \<and> P (Suc 0)"
  by (auto simp: less_Suc_eq)

lemma fieldRefParts_examples:
  "fieldRefParts ''a'' = [''a'']" "fieldRefParts ''a.b'' = [''a'', ''b'']"
  by (simp_all add: fieldRefParts_def)

text \<open>
  Claim C3. For a key pattern of distinct, non-empty field names and a slot vector of the
  same length, \<^verbatim>\<open>rehydrateIndexKey\<close> projects an expression \<open>e\<close> such that, for every
  position \<open>i\<close> of the pattern: when no path of the pattern is a strict prefix of the path
  of \<open>i\<close>, \<open>e\<close> evaluates (under every valuation of the slots) to an object whose extraction
  at that dotted path is the value of slot \<open>i\<close>; and when some path of the pattern is a
  strict prefix, the shorter path dominates and (the slots being distinct) slot \<open>i\<close> does
  not occur in \<open>e\<close>.
\<close>


theorem rehydrateIndexKey_extracts_slots:
  assumes "length slots = length keyPattern"
    and "distinct keyPattern"
    and "[] \<notin> set keyPattern"
  shows "\<exists>e. rehydrateIndexKey stage keyPattern nodeId slots resultSlot
              = Some (ProjectStage stage [(resultSlot, e)] nodeId) \<and>
          (\<forall>i < length keyPattern.
             if \<exists>j < length keyPattern.
                  strict_prefix (fieldRefParts (keyPattern ! j)) (fieldRefParts (keyPattern ! i))
             then distinct slots \<longrightarrow> slots ! i \<notin> set (exprSlots e)
             else \<forall>env. \<exists>obj. evalExpr env e = Some obj \<and>
                    getPath obj (fieldRefParts (keyPattern ! i)) = Some (env (slots ! i)))"
proof -
  let ?t = "foldl stepElem emptyNode (zip keyPattern slots)"
  have b: "buildKeyPatternTree keyPattern slots = Some ?t"
    using assms(1) by (simp add: buildKeyPatternTree_foldl)
  have r: "rehydrateIndexKey stage keyPattern nodeId slots resultSlot
             = Some (ProjectStage stage [(resultSlot, buildNewObjExpr ?t)] nodeId)"
    by (simp add: rehydrateIndexKey_def b makeProjectStage_def)
  have "\<forall>i < length keyPattern.
             if \<exists>j < length keyPattern.
                  strict_prefix (fieldRefParts (keyPattern ! j)) (fieldRefParts (keyPattern ! i))
             then distinct slots \<longrightarrow> slots ! i \<notin> set (exprSlots (buildNewObjExpr ?t))
             else \<forall>env. \<exists>obj. evalExpr env (buildNewObjExpr ?t) = Some obj \<and>
                    getPath obj (fieldRefParts (keyPattern ! i)) = Some (env (slots ! i))"
  proof (intro allI impI)
    fix i assume i: "i < length keyPattern"
    show "if \<exists>j < length keyPattern.
                  strict_prefix (fieldRefParts (keyPattern ! j)) (fieldRefParts (keyPattern ! i))
             then distinct slots \<longrightarrow> slots ! i \<notin> set (exprSlots (buildNewObjExpr ?t))
             else \<forall>env. \<exists>obj. evalExpr env (buildNewObjExpr ?t) = Some obj \<and>
                    getPath obj (fieldRefParts (keyPattern ! i)) = Some (env (slots ! i))"
    proof (cases "\<exists>j < length keyPattern.
                  strict_prefix (fieldRefParts (keyPattern ! j)) (fieldRefParts (keyPattern ! i))")
      case True
      then obtain j where j: "j < length keyPattern"
        "strict_prefix (fieldRefParts (keyPattern ! j)) (fieldRefParts (keyPattern ! i))" by auto
      have "distinct slots \<longrightarrow> slots ! i \<notin> set (exprSlots (buildNewObjExpr ?t))"
        using final_dominated[OF assms(1) assms(2) assms(3) _ i j(1) j(2)] by blast
      then show ?thesis unfolding if_P[OF True] .
    next
      case False
      then have und: "\<forall>j < length keyPattern.
        \<not> strict_prefix (fieldRefParts (keyPattern ! j)) (fieldRefParts (keyPattern ! i))" by simp
      have "keyPattern ! i \<in> set keyPattern" using i by simp
      then have "keyPattern ! i \<noteq> []" using assms(3) by auto
      then have pne: "fieldRefParts (keyPattern ! i) \<noteq> []"
        by (simp add: fieldRefParts_Nil_iff)
      have "\<forall>env. evalExpr env (buildNewObjExpr ?t) = Some (objOf env ?t) \<and>
                 getPath (objOf env ?t) (fieldRefParts (keyPattern ! i)) = Some (env (slots ! i))"
        using getPath_objOf[OF final_undominated(1)[OF assms(1) assms(2) i und] pne
                 final_undominated(2)[OF assms(1) assms(2) i und]]
        by (simp add: eval_buildNewObj)
      then have "\<forall>env. \<exists>obj. evalExpr env (buildNewObjExpr ?t) = Some obj \<and>
                    getPath obj (fieldRefParts (keyPattern ! i)) = Some (env (slots ! i))"
        by blast
      then show ?thesis unfolding if_not_P[OF False] .
    qed
  qed
  then show ?thesis
    by (intro exI[where x = "buildNewObjExpr ?t"] conjI r)
qed

theorem rehydrateIndexKey_extracts_slots_witness:
  "\<exists>e. rehydrateIndexKey (CoScanStage 0) [''a'', ''a.b''] 1 [10, 11] 5
          = Some (ProjectStage (CoScanStage 0) [(5, e)] 1)
       \<and> 11 \<notin> set (exprSlots e)
       \<and> (\<forall>env. \<exists>obj. evalExpr env e = Some obj \<and> getPath obj [''a''] = Some (env 10))"
proof -
  have h: "length [10, 11 :: nat] = length [''a'', ''a.b'']" "distinct [''a'', ''a.b'']"
    "[] \<notin> set [''a'', ''a.b'']" by simp_all
  from rehydrateIndexKey_extracts_slots[OF h, of "CoScanStage 0" 1 5]
  obtain e where e: "rehydrateIndexKey (CoScanStage 0) [''a'', ''a.b''] 1 [10, 11] 5
          = Some (ProjectStage (CoScanStage 0) [(5, e)] 1)"
    and a: "\<forall>i < length [''a'', ''a.b''].
             if \<exists>j < length [''a'', ''a.b''].
                  strict_prefix (fieldRefParts ([''a'', ''a.b''] ! j))
                    (fieldRefParts ([''a'', ''a.b''] ! i))
             then distinct [10, 11 :: nat] \<longrightarrow> [10, 11] ! i \<notin> set (exprSlots e)
             else \<forall>env. \<exists>obj. evalExpr env e = Some obj \<and>
                    getPath obj (fieldRefParts ([''a'', ''a.b''] ! i)) = Some (env ([10, 11] ! i))"
    by blast
  from a[rule_format, of 0]
  have c0: "\<forall>env. \<exists>obj. evalExpr env e = Some obj \<and> getPath obj [''a''] = Some (env 10)"
    by (simp add: ex_less_two fieldRefParts_examples cong: if_cong)
  from a[rule_format, of 1] have c1: "11 \<notin> set (exprSlots e)"
    by (simp add: ex_less_two fieldRefParts_examples cong: if_cong)
  from e c0 c1 show ?thesis by blast
qed

text \<open>
  Claim C10. When the path at position \<open>i\<close> of a key pattern (distinct non-empty names,
  distinct slots) is a strict prefix of the path at position \<open>j\<close>, \<open>i\<close> before \<open>j\<close> or after
  it, \<^verbatim>\<open>buildKeyPatternTree\<close> returns a tree without raising anything, the slot of the
  longer path occurs nowhere in the expression \<^verbatim>\<open>buildNewObjExpr\<close> emits for the tree, and
  following the longer path in that expression finds nothing. The slot of the prefix path
  occurs in the expression, as the variable its own path leads to, exactly when no path of
  the pattern is a strict prefix of the prefix path; otherwise it is dropped as well. In the
  tree the longer path has no slot when one of its strict prefixes stands before it in the
  pattern, and it keeps its node with its slot (below the node of the prefix, where the
  expression does not look) when it stands before all of them.
\<close>

theorem buildKeyPatternTree_prefix_dominates:
  assumes "length slots = length keyPattern"
    and "distinct keyPattern"
    and "[] \<notin> set keyPattern"
    and "distinct slots"
    and "i < length keyPattern" and "j < length keyPattern"
    and "strict_prefix (fieldRefParts (keyPattern ! i)) (fieldRefParts (keyPattern ! j))"
  shows "\<exists>kpTree. buildKeyPatternTree keyPattern slots = Some kpTree \<and>
           slots ! j \<notin> set (exprSlots (buildNewObjExpr kpTree)) \<and>
           exprAtPath (buildNewObjExpr kpTree) (fieldRefParts (keyPattern ! j)) = None \<and>
           (if \<forall>k < length keyPattern.
                 \<not> strict_prefix (fieldRefParts (keyPattern ! k)) (fieldRefParts (keyPattern ! i))
            then exprAtPath (buildNewObjExpr kpTree) (fieldRefParts (keyPattern ! i))
                   = Some (EVariable (slots ! i))
                 \<and> slots ! i \<in> set (exprSlots (buildNewObjExpr kpTree))
            else slots ! i \<notin> set (exprSlots (buildNewObjExpr kpTree))) \<and>
           slotAt kpTree (fieldRefParts (keyPattern ! j))
             = (if \<exists>k<j. strict_prefix (fieldRefParts (keyPattern ! k))
                             (fieldRefParts (keyPattern ! j))
                then None else Some (slots ! j))"
proof -
  let ?t = "foldl stepElem emptyNode (zip keyPattern slots)"
  have b: "buildKeyPatternTree keyPattern slots = Some ?t"
    using assms(1) by (simp add: buildKeyPatternTree_foldl)
  have c1: "slots ! j \<notin> set (exprSlots (buildNewObjExpr ?t))"
    by (rule final_dominated[OF assms(1) assms(2) assms(3) assms(4) assms(6) assms(5) assms(7)])
  have c2: "exprAtPath (buildNewObjExpr ?t) (fieldRefParts (keyPattern ! j)) = None"
    by (rule final_dominated_path[OF assms(1) assms(3) assms(5) assms(7)])
  have "keyPattern ! i \<in> set keyPattern" using assms(5) by simp
  then have "keyPattern ! i \<noteq> []" using assms(3) by auto
  then have pne: "fieldRefParts (keyPattern ! i) \<noteq> []"
    by (simp add: fieldRefParts_Nil_iff)
  have c3: "if \<forall>k < length keyPattern.
                 \<not> strict_prefix (fieldRefParts (keyPattern ! k)) (fieldRefParts (keyPattern ! i))
            then exprAtPath (buildNewObjExpr ?t) (fieldRefParts (keyPattern ! i))
                   = Some (EVariable (slots ! i))
                 \<and> slots ! i \<in> set (exprSlots (buildNewObjExpr ?t))
            else slots ! i \<notin> set (exprSlots (buildNewObjExpr ?t))"
  proof (cases "\<forall>k < length keyPattern.
                 \<not> strict_prefix (fieldRefParts (keyPattern ! k)) (fieldRefParts (keyPattern ! i))")
    case True
    have e: "exprAtPath (buildNewObjExpr ?t) (fieldRefParts (keyPattern ! i))
             = Some (EVariable (slots ! i))"
      by (rule exprAtPath_buildNewObjExpr[OF final_undominated(1)[OF assms(1) assms(2) assms(5) True]
                 pne final_undominated(2)[OF assms(1) assms(2) assms(5) True]])
    from exprAtPath_slots[OF e] have "slots ! i \<in> set (exprSlots (buildNewObjExpr ?t))" by simp
    with e show ?thesis unfolding if_P[OF True] by simp
  next
    case False
    then obtain k where k: "k < length keyPattern"
      "strict_prefix (fieldRefParts (keyPattern ! k)) (fieldRefParts (keyPattern ! i))" by auto
    have "slots ! i \<notin> set (exprSlots (buildNewObjExpr ?t))"
      by (rule final_dominated[OF assms(1) assms(2) assms(3) assms(4) assms(5) k(1) k(2)])
    then show ?thesis unfolding if_not_P[OF False] .
  qed
  have c4: "slotAt ?t (fieldRefParts (keyPattern ! j))
             = (if \<exists>k<j. strict_prefix (fieldRefParts (keyPattern ! k))
                             (fieldRefParts (keyPattern ! j))
                then None else Some (slots ! j))"
    by (rule final_slotAt[OF assms(1) assms(2) assms(3) assms(6)])
  show ?thesis
    by (rule exI[where x = ?t], intro conjI, rule b, rule c1, rule c2, rule c3, rule c4)
qed

theorem buildKeyPatternTree_prefix_dominates_witness:
  "\<exists>kpTree. buildKeyPatternTree [''a.b'', ''a''] [10, 11] = Some kpTree
       \<and> 10 \<notin> set (exprSlots (buildNewObjExpr kpTree))
       \<and> exprAtPath (buildNewObjExpr kpTree) [''a'', ''b''] = None
       \<and> exprAtPath (buildNewObjExpr kpTree) [''a''] = Some (EVariable 11)
       \<and> 11 \<in> set (exprSlots (buildNewObjExpr kpTree))
       \<and> slotAt kpTree [''a'', ''b''] = Some 10"
proof -
  have h: "length [10, 11 :: nat] = length [''a.b'', ''a'']" "distinct [''a.b'', ''a'']"
    "[] \<notin> set [''a.b'', ''a'']" "distinct [10, 11 :: nat]"
    "1 < length [''a.b'', ''a'']" "0 < length [''a.b'', ''a'']"
    "strict_prefix (fieldRefParts ([''a.b'', ''a''] ! 1)) (fieldRefParts ([''a.b'', ''a''] ! 0))"
    by (simp_all add: fieldRefParts_abc)
  from buildKeyPatternTree_prefix_dominates[OF h]
  show ?thesis by (simp add: ex_less_two fieldRefParts_abc all_less_two)
qed

theorem buildKeyPatternTree_prefix_itself_dropped:
  "buildKeyPatternTree [''a'', ''a.b'', ''a.b.c''] [1, 2, 3]
     = Some (IndexKeyPatternTreeNode [(''a'', IndexKeyPatternTreeNode [] (Some 1))] None)
   \<and> buildNewObjExpr (IndexKeyPatternTreeNode [(''a'', IndexKeyPatternTreeNode [] (Some 1))] None)
     = EFunction ''newObj'' [EConstant (StringV ''a''), EVariable 1]
   \<and> strict_prefix (fieldRefParts ''a.b'') (fieldRefParts ''a.b.c'')
   \<and> buildKeyPatternTree [''a.b'', ''a''] [10, 11]
     = Some (IndexKeyPatternTreeNode
               [(''a'', IndexKeyPatternTreeNode [(''b'', IndexKeyPatternTreeNode [] (Some 10))]
                          (Some 11))] None)"
  by (simp add: buildKeyPatternTree_def fieldRefParts_abc emptyNode_def makeConstant_def
        makeVariable_def)

section \<open>The claims about the EOF plan and the entry point\<close>

text \<open>
  Claim C8. For every requirements set, the EOF translator returns a co-scan under limit 0
  (which produces no row), under a projection that defines one slot per requested name as
  the constant Nothing when any name is requested; the bindings hold exactly the requested
  names, and every bound slot is one the projection defines.
\<close>


theorem buildEof_binds_requested_slots_to_Nothing:
  "\<exists>outputs st' slots.
     buildNode ext ctx (EofNode nid) reqs st
       = Inr (if slots = [] then LimitSkipStage (CoScanStage nid) (Some 0) None nid
              else ProjectStage (LimitSkipStage (CoScanStage nid) (Some 0) None nid)
                     (map (\<lambda>slot. (slot, EConstant Nothing)) slots) nid,
              outputs, st')
     \<and> dom (slotMap outputs) = reqSlots reqs
     \<and> set slots = ran (slotMap outputs)"
proof -
  obtain outputs st' where m: "makePlanStageSlots reqs st = (outputs, st')"
    by (cases "makePlanStageSlots reqs st")
  then have d: "dom (slotMap outputs) = reqSlots reqs" by (simp add: makePlanStageSlots_dom)
  let ?slots = "map (\<lambda>n. the (slotMap outputs n)) (filter (reqsHas reqs) allSlotNames)"
  have f: "forEachSlot outputs reqs = Inr ?slots" using d by (simp add: forEachSlot_total)
  have r: "set ?slots = ran (slotMap outputs)"
    using ran_exact[OF d] by (simp add: reqsHas_def)
  have "buildNode ext ctx (EofNode nid) reqs st
       = Inr (if ?slots = [] then LimitSkipStage (CoScanStage nid) (Some 0) None nid
              else ProjectStage (LimitSkipStage (CoScanStage nid) (Some 0) None nid)
                     (map (\<lambda>slot. (slot, EConstant Nothing)) ?slots) nid,
              outputs, st')"
    using m f by (simp add: generateEofPlan_def Let_def)
  with d r show ?thesis by blast
qed

theorem buildEof_binds_requested_slots_to_Nothing_witness:
  "\<exists>outputs st' slots.
     buildNode modelGenerators modelContext (EofNode 7)
        (reqsSet (reqsSet emptyReqs kResult) kRecordId) initialState
       = Inr (if slots = [] then LimitSkipStage (CoScanStage 7) (Some 0) None 7
              else ProjectStage (LimitSkipStage (CoScanStage 7) (Some 0) None 7)
                     (map (\<lambda>slot. (slot, EConstant Nothing)) slots) 7,
              outputs, st')
     \<and> dom (slotMap outputs) = {kRecordId, kResult}
     \<and> set slots = ran (slotMap outputs)"
  using buildEof_binds_requested_slots_to_Nothing[of modelGenerators modelContext 7
      "reqsSet (reqsSet emptyReqs kResult) kRecordId" initialState]
  by (simp add: reqsSet_def emptyReqs_def)

text \<open>
  Claim C9. Whatever the first call of the entry point returned, a second call on the same
  builder object fails the invariant that the has-started flag is unset.
\<close>


theorem build_twice_fails:
  "fst (buildTopLevel ext ctx root2 (snd (buildTopLevel ext ctx root1 sb)))
     = Inl (InvariantFailure ''!_buildHasStarted'')"
proof -
  have "buildHasStarted (snd (buildTopLevel ext ctx root1 sb))"
    by (auto simp: buildTopLevel_def split: sum.splits prod.splits)
  then show ?thesis by (simp add: buildTopLevel_def)
qed

theorem build_twice_fails_witness:
  "fst (buildTopLevel modelGenerators modelContext (EofNode 2)
          (snd (buildTopLevel modelGenerators modelContext (OtherNode 1 [])
                  \<lparr>builderState = initialState, buildHasStarted = False,
                     shouldProduceRecordIdSlot = False, shouldTrackLatestOplogTimestamp = False,
                     shouldTrackResumeToken = False, shouldUseTailableScan = False,
                     dataOutputs = emptySlots\<rparr>)))
     = Inl (InvariantFailure ''!_buildHasStarted'')"
  by (rule build_twice_fails)

section \<open>The claims about sort\<close>

text \<open>
  Claim C6. When the translation of a sort node succeeds, every part of the pattern has a
  field path, the child was built with result added to the requirements, and the stage is a
  sort stage over the sort-key slots with the directions, the slots of the child's
  requirements, the limit, the memory cap and the disk-use flag. The regime follows from the
  top-level field names of the paths alone. If they are pairwise distinct: fresh slots, one
  per part, are projected from \<^verbatim>\<open>fillEmpty(getField(result, top-level field), null)\<close>; for
  two or more parts one more projection (the parallel-arrays check) is put on it; on that
  stage there is one sort-key traversal per part, reading the part's slot, and the slots of
  the traversals are the sort keys, with the directions of the parts. Otherwise one fresh
  slot is projected from \<^verbatim>\<open>generateSortKey(sortSpec, result)\<close> and is the only sort key,
  ascending.
\<close>

theorem buildSort_regime:
  assumes "buildNode ext ctx (SortNode nid simple sn child) reqs st = Inr (stage, outputs, st')"
  shows "\<exists>paths childStage st1 resultSlot stage1 orderBy direction vals.
      map fieldPath (snPattern sn) = map Some paths \<and>
      build ext ctx child (reqsSet reqs kResult) st = Inr (childStage, outputs, st1) \<and>
      slotMap outputs kResult = Some resultSlot \<and>
      forEachSlot outputs (reqsSet reqs kResult) = Inr vals \<and>
      stage = SortStage stage1 orderBy direction vals
                (if snLimit sn \<noteq> 0 then Some (snLimit sn) else None)
                (snMaxMemoryUsageBytes sn) (cqAllowDiskUse ctx) nid \<and>
      (if distinct (map topField paths)
       then (\<exists>fieldSlots base.
               fieldSlots = [Suc (slotIdGenerator st1) ..< Suc (slotIdGenerator st1) + length paths] \<and>
               (if length paths < 2
                then base = ProjectStage childStage
                       (map2 (\<lambda>slot fp. (slot, orNull (getFieldOf resultSlot (topField fp))))
                          fieldSlots paths) nid
                else (\<exists>slot chk.
                        base = ProjectStage
                          (ProjectStage childStage
                             (map2 (\<lambda>slot fp. (slot, orNull (getFieldOf resultSlot (topField fp))))
                                fieldSlots paths) nid)
                          [(slot, chk)] nid)) \<and>
               isTraversalChain base (rev (zip fieldSlots (zip paths direction))) (rev orderBy) nid
                 (getSlotIfExists st1 ''collator'') stage1 \<and>
               length orderBy = length paths \<and>
               direction = map directionOf (snPattern sn))
       else stage1 = ProjectStage childStage
                       [(Suc (slotIdGenerator st1),
                         EFunction ''generateSortKey''
                           [EConstant (SortSpecV (snPattern sn) (cqHasCollator ctx)),
                            EVariable resultSlot])] nid
            \<and> orderBy = [Suc (slotIdGenerator st1)] \<and> direction = [Ascending])"
proof -
  from assms obtain childStage childOutputs st1 where
    c: "build ext ctx child (reqsSet reqs kResult) st = Inr (childStage, childOutputs, st1)"
    and a: "buildSortAfterChild ctx nid sn (reqsSet reqs kResult) childStage childOutputs st1
              = Inr (stage, outputs, st')"
    by (auto split: if_splits sum.splits)
  from a obtain h dirs paths where l: "sortPatternLoop (snPattern sn) {} False = Inr (h, dirs, paths)"
    by (auto simp: buildSortAfterChild_def split: sum.splits)
  from sortPatternLoop_spec[OF l] have
    p: "map fieldPath (snPattern sn) = map Some paths"
    and d: "dirs = map directionOf (snPattern sn)"
    and h: "h \<longleftrightarrow> \<not> distinct (map topField paths)" by auto
  have len: "length paths = length (snPattern sn)" using p by (metis length_map)
  from a l obtain stage1 orderBy direction vals where
    r: "(if \<not> h then buildSortFast (secondArgumentFirst ctx) nid paths dirs
                        (getSlotIfExists st1 ''collator'') childStage childOutputs st1
         else buildSortSlow ctx nid sn childStage childOutputs st1)
        = Inr (stage1, orderBy, direction, st')"
    and v: "forEachSlot childOutputs (reqsSet reqs kResult) = Inr vals"
    and s: "stage = SortStage stage1 orderBy direction vals
                  (if snLimit sn \<noteq> 0 then Some (snLimit sn) else None)
                  (snMaxMemoryUsageBytes sn) (cqAllowDiskUse ctx) nid"
    and o: "outputs = childOutputs"
    by (auto simp: buildSortAfterChild_def split: sum.splits)
  from r obtain resultSlot where rs: "slotMap outputs kResult = Some resultSlot"
    using o by (auto simp: buildSortFast_def buildSortSlow_def slotsGet_def generateSlotId_def
                  split: if_splits sum.splits option.splits)
  have g: "slotsGet childOutputs kResult = Inr resultSlot"
    using rs o by (simp add: slotsGet_def)
  let ?P = "\<lambda>fieldSlots. ProjectStage childStage
              (map2 (\<lambda>slot fp. (slot, orNull (getFieldOf resultSlot (topField fp)))) fieldSlots paths)
              nid"
  have branch: "if distinct (map topField paths)
       then (\<exists>fieldSlots base.
               fieldSlots = [Suc (slotIdGenerator st1) ..< Suc (slotIdGenerator st1) + length paths] \<and>
               (if length paths < 2 then base = ?P fieldSlots
                else (\<exists>slot chk. base = ProjectStage (?P fieldSlots) [(slot, chk)] nid)) \<and>
               isTraversalChain base (rev (zip fieldSlots (zip paths direction))) (rev orderBy) nid
                 (getSlotIfExists st1 ''collator'') stage1 \<and>
               length orderBy = length paths \<and>
               direction = map directionOf (snPattern sn))
       else stage1 = ProjectStage childStage
                       [(Suc (slotIdGenerator st1),
                         EFunction ''generateSortKey''
                           [EConstant (SortSpecV (snPattern sn) (cqHasCollator ctx)),
                            EVariable resultSlot])] nid
            \<and> orderBy = [Suc (slotIdGenerator st1)] \<and> direction = [Ascending]"
  proof (cases "distinct (map topField paths)")
    case True
    with r h have f: "buildSortFast (secondArgumentFirst ctx) nid paths dirs
                        (getSlotIfExists st1 ''collator'') childStage childOutputs st1
                      = Inr (stage1, orderBy, direction, st')" by simp
    obtain projectMap fieldSlots s2 where
      pl: "sortProjectLoop paths resultSlot st1 = (projectMap, fieldSlots, s2)"
      by (cases "sortProjectLoop paths resultSlot st1")
    from sortProjectLoop_spec[OF pl] have
      fs: "fieldSlots = [Suc (slotIdGenerator st1) ..< Suc (slotIdGenerator st1) + length paths]"
      and pm: "projectMap = map2 (\<lambda>slot fp. (slot, orNull (getFieldOf resultSlot (topField fp))))
                               fieldSlots paths"
      by simp_all
    have fl: "length fieldSlots = length paths" unfolding fs length_upt by simp
    from f g pl obtain chk s3 where
      fa: "failOnParallelArrays (secondArgumentFirst ctx) (zip fieldSlots paths) s2 = Inr (chk, s3)"
      by (auto simp: buildSortFast_def Let_def split: sum.splits)
    define base where "base = (case chk of
                             None \<Rightarrow> (ProjectStage childStage projectMap nid, s3)
                           | Some e \<Rightarrow>
                               (case generateSlotId s3 of
                                  (slot, s4) \<Rightarrow>
                                    (makeProjectStage (ProjectStage childStage projectMap nid)
                                       nid slot e, s4)))"
    from f g pl fa have
      k: "sortKeyLoop (fst base) (zip fieldSlots (zip paths dirs)) nid
            (getSlotIfExists st1 ''collator'') (snd base) = Inr (stage1, orderBy, st')"
      and dd: "direction = dirs"
      by (auto simp: buildSortFast_def Let_def base_def split: sum.splits prod.splits)
    from failOnParallelArrays_None_iff[OF fa] fl
    have n: "chk = None \<longleftrightarrow> length paths < 2" by simp
    have b: "if length paths < 2 then fst base = ?P fieldSlots
             else (\<exists>slot chk. fst base = ProjectStage (?P fieldSlots) [(slot, chk)] nid)"
      using n unfolding base_def pm
      by (auto simp: makeProjectStage_def generateSlotId_def split: option.splits)
    from sortKeyLoop_length[OF k] fl len have ol: "length orderBy = length paths"
      using d by simp
    have ch: "isTraversalChain (fst base) (rev (zip fieldSlots (zip paths direction))) (rev orderBy)
                nid (getSlotIfExists st1 ''collator'') stage1"
      unfolding dd by (rule sortKeyLoop_chain[OF k])
    have "\<exists>fieldSlots base.
               fieldSlots = [Suc (slotIdGenerator st1) ..< Suc (slotIdGenerator st1) + length paths] \<and>
               (if length paths < 2 then base = ?P fieldSlots
                else (\<exists>slot chk. base = ProjectStage (?P fieldSlots) [(slot, chk)] nid)) \<and>
               isTraversalChain base (rev (zip fieldSlots (zip paths direction))) (rev orderBy) nid
                 (getSlotIfExists st1 ''collator'') stage1 \<and>
               length orderBy = length paths \<and>
               direction = map directionOf (snPattern sn)"
      by (intro exI[of _ fieldSlots] exI[of _ "fst base"] conjI)
         (rule fs, rule b, rule ch, rule ol, simp add: dd d)
    then show ?thesis unfolding if_P[OF True] .
  next
    case False
    with r h have f: "buildSortSlow ctx nid sn childStage childOutputs st1
        = Inr (stage1, orderBy, direction, st')" by simp
    then have "stage1 = ProjectStage childStage
                       [(Suc (slotIdGenerator st1),
                         EFunction ''generateSortKey''
                           [EConstant (SortSpecV (snPattern sn) (cqHasCollator ctx)),
                            EVariable resultSlot])] nid
            \<and> orderBy = [Suc (slotIdGenerator st1)] \<and> direction = [Ascending]"
      using g by (auto simp: buildSortSlow_def makeProjectStage_def makeFunction_def
          makeVariable_def generateSlotId_def split: sum.splits option.splits)
    then show ?thesis unfolding if_not_P[OF False] .
  qed
  from p c[folded o] rs v[folded o] s branch show ?thesis
    by (intro exI conjI)
qed

theorem buildSort_regime_witness:
  "(\<exists>paths childStage st1 resultSlot stage1 orderBy direction vals.
      map fieldPath (snPattern sortAB) = map Some paths \<and>
      build modelGenerators modelContext (EofNode 1) (reqsSet (reqsSet emptyReqs kResult) kResult) initialState = Inr (childStage, \<lparr>slotMap = [kResult \<mapsto> 1], indexKeySlots = None\<rparr>, st1) \<and>
      slotMap \<lparr>slotMap = [kResult \<mapsto> 1], indexKeySlots = None\<rparr> kResult = Some resultSlot \<and>
      forEachSlot \<lparr>slotMap = [kResult \<mapsto> 1], indexKeySlots = None\<rparr> (reqsSet (reqsSet emptyReqs kResult) kResult) = Inr vals \<and>
      (SortStage sortABKeys [7, 10] [Ascending, Descending] [1] None 100 False 3) = SortStage stage1 orderBy direction vals
                (if snLimit sortAB \<noteq> 0 then Some (snLimit sortAB) else None)
                (snMaxMemoryUsageBytes sortAB) (cqAllowDiskUse modelContext) 3 \<and>
      (if distinct (map topField paths)
       then (\<exists>fieldSlots base.
               fieldSlots = [Suc (slotIdGenerator st1) ..< Suc (slotIdGenerator st1) + length paths] \<and>
               (if length paths < 2
                then base = ProjectStage childStage
                       (map2 (\<lambda>slot fp. (slot, orNull (getFieldOf resultSlot (topField fp))))
                          fieldSlots paths) 3
                else (\<exists>slot chk.
                        base = ProjectStage
                          (ProjectStage childStage
                             (map2 (\<lambda>slot fp. (slot, orNull (getFieldOf resultSlot (topField fp))))
                                fieldSlots paths) 3)
                          [(slot, chk)] 3)) \<and>
               isTraversalChain base (rev (zip fieldSlots (zip paths direction))) (rev orderBy) 3
                 (getSlotIfExists st1 ''collator'') stage1 \<and>
               length orderBy = length paths \<and>
               direction = map directionOf (snPattern sortAB))
       else stage1 = ProjectStage childStage
                       [(Suc (slotIdGenerator st1),
                         EFunction ''generateSortKey''
                           [EConstant (SortSpecV (snPattern sortAB) (cqHasCollator modelContext)),
                            EVariable resultSlot])] 3
            \<and> orderBy = [Suc (slotIdGenerator st1)] \<and> direction = [Ascending]))
   \<and>
   (\<exists>paths childStage st1 resultSlot stage1 orderBy direction vals.
      map fieldPath (snPattern sortAbAc) = map Some paths \<and>
      build modelGenerators modelContext (EofNode 1) (reqsSet (reqsSet emptyReqs kResult) kResult) initialState = Inr (childStage, \<lparr>slotMap = [kResult \<mapsto> 1], indexKeySlots = None\<rparr>, st1) \<and>
      slotMap \<lparr>slotMap = [kResult \<mapsto> 1], indexKeySlots = None\<rparr> kResult = Some resultSlot \<and>
      forEachSlot \<lparr>slotMap = [kResult \<mapsto> 1], indexKeySlots = None\<rparr> (reqsSet (reqsSet emptyReqs kResult) kResult) = Inr vals \<and>
      (SortStage
           (ProjectStage
              (ProjectStage (LimitSkipStage (CoScanStage 1) (Some 0) None 1) [(1, EConstant Nothing)] 1)
              [(2, EFunction ''generateSortKey''
                     [EConstant (SortSpecV (snPattern sortAbAc) False), EVariable 1])] 3)
           [2] [Ascending] [1] None 100 False 3) = SortStage stage1 orderBy direction vals
                (if snLimit sortAbAc \<noteq> 0 then Some (snLimit sortAbAc) else None)
                (snMaxMemoryUsageBytes sortAbAc) (cqAllowDiskUse modelContext) 3 \<and>
      (if distinct (map topField paths)
       then (\<exists>fieldSlots base.
               fieldSlots = [Suc (slotIdGenerator st1) ..< Suc (slotIdGenerator st1) + length paths] \<and>
               (if length paths < 2
                then base = ProjectStage childStage
                       (map2 (\<lambda>slot fp. (slot, orNull (getFieldOf resultSlot (topField fp))))
                          fieldSlots paths) 3
                else (\<exists>slot chk.
                        base = ProjectStage
                          (ProjectStage childStage
                             (map2 (\<lambda>slot fp. (slot, orNull (getFieldOf resultSlot (topField fp))))
                                fieldSlots paths) 3)
                          [(slot, chk)] 3)) \<and>
               isTraversalChain base (rev (zip fieldSlots (zip paths direction))) (rev orderBy) 3
                 (getSlotIfExists st1 ''collator'') stage1 \<and>
               length orderBy = length paths \<and>
               direction = map directionOf (snPattern sortAbAc))
       else stage1 = ProjectStage childStage
                       [(Suc (slotIdGenerator st1),
                         EFunction ''generateSortKey''
                           [EConstant (SortSpecV (snPattern sortAbAc) (cqHasCollator modelContext)),
                            EVariable resultSlot])] 3
            \<and> orderBy = [Suc (slotIdGenerator st1)] \<and> direction = [Ascending]))"
  by (rule conjI[OF buildSort_regime[OF sort_fast_example] buildSort_regime[OF sort_example]])




section \<open>The claim about the union for a tailable collection scan\<close>




section \<open>The claims about index-key bitsets\<close>

text \<open>
  Claim C5. When \<^verbatim>\<open>buildIndexScan\<close> succeeds, the bitset it passed to the index-scan body
  generator is the set of all positions of the key pattern if the requirements include
  result or returnKey, and the parent's bitset (empty if there is none) otherwise. With no
  parent bitset the returned bindings carry no index-key slots. With a parent bitset \<open>p\<close> they
  carry, for each position of \<open>p\<close> in increasing order, the slot that the generator's vector
  \<open>iks\<close> holds at the rank of this position among the positions passed down, every such rank
  being within \<open>iks\<close>; and if \<open>iks\<close> has one slot per position passed down, every position of
  \<open>p\<close> is among these, so the slot is the one of this position.
\<close>

theorem buildIndexScan_bitset_and_narrowing:
  assumes "buildIndexScan ext nid ixn reqs st = Inr (stage, outputs, st')"
  shows "\<exists>bits genStage genOut st1.
      bits = (if reqsHas reqs kResult \<or> reqsHas reqs kReturnKey
              then {0..<length (ixnKeyPattern ixn)}
              else (case reqIndexKeyBitset reqs of Some p \<Rightarrow> p | None \<Rightarrow> {})) \<and>
      generateIndexScan ext nid ixn bits st = Inr (genStage, genOut, st1) \<and>
      (case reqIndexKeyBitset reqs of
         None \<Rightarrow> indexKeySlots outputs = None
       | Some p \<Rightarrow>
           (\<exists>iks. indexKeySlots genOut = Some iks \<and>
              indexKeySlots outputs
                = Some (map (\<lambda>pos. iks ! slotRank bits pos) (bitPositions p)) \<and>
              (\<forall>pos \<in> set (bitPositions p). slotRank bits pos < length iks) \<and>
              (length iks = bitCount bits \<longrightarrow> set (bitPositions p) \<subseteq> bits)))"
proof -
  from assms obtain bits genStage genOut st1 s2 o2 st2 s3 o3 st3 where
    b: "indexScanKeyBitset ixn reqs = Inr bits"
    and g: "generateIndexScan ext nid ixn bits st = Inr (genStage, genOut, st1)"
    and k: "indexScanReturnKey nid ixn reqs genStage genOut st1 = Inr (s2, o2, st2)"
    and r: "indexScanResult nid ixn reqs s2 o2 st2 = Inr (s3, o3, st3)"
    and n: "indexScanOutputSlots ixn reqs bits s3 o3 st3 = Inr (stage, outputs, st')"
    by (auto simp: buildIndexScan_def split: if_splits sum.splits)
  from indexScanKeyBitset_spec[OF b] have
    bs: "bits = (if reqsHas reqs kResult \<or> reqsHas reqs kReturnKey
              then {0..<length (ixnKeyPattern ixn)}
              else (case reqIndexKeyBitset reqs of Some p \<Rightarrow> p | None \<Rightarrow> {}))"
    and bl: "reqsHas reqs kResult \<or> reqsHas reqs kReturnKey
             \<Longrightarrow> length (ixnKeyPattern ixn) \<le> kMaxCompoundIndexKeys"
    by blast+
  from indexScanReturnKey_iks[OF k] indexScanResult_iks[OF r]
  have i3: "indexKeySlots o3 = indexKeySlots genOut" by simp
  have c: "(case reqIndexKeyBitset reqs of
         None \<Rightarrow> indexKeySlots outputs = None
       | Some p \<Rightarrow>
           (\<exists>iks. indexKeySlots genOut = Some iks \<and>
              indexKeySlots outputs
                = Some (map (\<lambda>pos. iks ! slotRank bits pos) (bitPositions p)) \<and>
              (\<forall>pos \<in> set (bitPositions p). slotRank bits pos < length iks) \<and>
              (length iks = bitCount bits \<longrightarrow> set (bitPositions p) \<subseteq> bits)))"
  proof (cases "reqIndexKeyBitset reqs")
    case None
    with n show ?thesis
      by (auto simp: indexScanOutputSlots_def setIndexKeySlots_def)
  next
    case (Some p)
    with n i3 obtain iks slots where
      iks: "indexKeySlots genOut = Some iks"
      and m: "makeIndexKeyOutputSlotsMatchingParentReqs (ixnKeyPattern ixn) p bits iks = Inr slots"
      and o: "indexKeySlots outputs = Some slots"
      by (auto simp: indexScanOutputSlots_def setIndexKeySlots_def split: option.splits sum.splits)
    note sp = narrow_spec[OF m]
    have sub: "set (bitPositions p) \<subseteq> bits" if len: "length iks = bitCount bits"
    proof (cases "reqsHas reqs kResult \<or> reqsHas reqs kReturnKey")
      case True
      with bs have be: "bits = {0..<length (ixnKeyPattern ixn)}" by simp
      from bl[OF True] have cnt: "bitCount bits = length (ixnKeyPattern ixn)"
        unfolding be by (rule bitCount_upt)
      show ?thesis
      proof
        fix pos assume "pos \<in> set (bitPositions p)"
        with sp(2) have "slotRank bits pos < length iks" by blast
        then have "min pos (length (ixnKeyPattern ixn)) < length (ixnKeyPattern ixn)"
          using len cnt by (simp add: be slotRank_upt)
        then show "pos \<in> bits" unfolding be by simp
      qed
    next
      case False
      with bs Some have "bits = p" by simp
      then show ?thesis using bitPositions_subset by simp
    qed
    from iks o sp(1) sp(2) sub Some show ?thesis by simp
  qed
  from bs g c show ?thesis by blast
qed

theorem buildIndexScan_bitset_and_narrowing_witness:
  "\<exists>bits genStage genOut st1.
      bits = (if reqsHas resultAndSecondKey kResult \<or> reqsHas resultAndSecondKey kReturnKey
              then {0..<length (ixnKeyPattern ixScanAB)}
              else (case reqIndexKeyBitset resultAndSecondKey of Some p \<Rightarrow> p | None \<Rightarrow> {})) \<and>
      generateIndexScan modelGenerators 2 ixScanAB bits initialState = Inr (genStage, genOut, st1) \<and>
      (case reqIndexKeyBitset resultAndSecondKey of
         None \<Rightarrow> indexKeySlots \<lparr>slotMap = [kRecordId \<mapsto> 1, kResult \<mapsto> 4],
                                 indexKeySlots = Some [3]\<rparr> = None
       | Some p \<Rightarrow>
           (\<exists>iks. indexKeySlots genOut = Some iks \<and>
              indexKeySlots \<lparr>slotMap = [kRecordId \<mapsto> 1, kResult \<mapsto> 4], indexKeySlots = Some [3]\<rparr>
                = Some (map (\<lambda>pos. iks ! slotRank bits pos) (bitPositions p)) \<and>
              (\<forall>pos \<in> set (bitPositions p). slotRank bits pos < length iks) \<and>
              (length iks = bitCount bits \<longrightarrow> set (bitPositions p) \<subseteq> bits)))"
  by (rule buildIndexScan_bitset_and_narrowing[OF indexScan_example])

text \<open>
  Claim C4. When the translation of a sharding-filter node succeeds, its child has an index
  key pattern and the requirements do not include result, then: the child was built with the
  parent's requirements and the bitset of the parent's positions united with the positions
  of the key pattern whose field is a shard key field; the stage is a filter on
  \<^verbatim>\<open>shardFilter(shardFilterer, shardKeySlot)\<close> over a make-object stage; the named bindings
  are the child's; and the index-key slots handed back are absent without a parent bitset,
  and otherwise the child's slots at the ranks of the parent's positions. The make-object
  stage is given the names of the shard key fields of the index, but every index-key slot the
  child returned for the union: when the child returns one slot per requested position,
  there are as many names as slots only if every position the parent asked for is a position
  of the shard key. In every other case the object bound to \<open>shardKeySlot\<close> is not made from
  the shard key's slots alone, which is what \<^verbatim>\<open>buildShardFilterCovered\<close> is meant to build.
\<close>

theorem buildShardFilterCovered_union_and_narrowing:
  assumes "buildNode ext ctx (ShardingFilterNode nid child) reqs st = Inr (stage, outputs, st')"
    and "childIndexKeyPattern child \<noteq> []"
    and "\<not> reqsHas reqs kResult"
  shows "\<exists>shardBits projectFields childStage childOut st1 iks shardKeySlot.
      shardBits = {j. j < length (childIndexKeyPattern child)
                      \<and> childIndexKeyPattern child ! j \<in> fst ` set (shardKeyPattern ctx)} \<and>
      projectFields = filter (\<lambda>f. f \<in> fst ` set (shardKeyPattern ctx)) (childIndexKeyPattern child) \<and>
      build ext ctx child (reqs\<lparr>reqIndexKeyBitset := Some (parentBits reqs \<union> shardBits)\<rparr>) st
        = Inr (childStage, childOut, st1) \<and>
      indexKeySlots childOut = Some iks \<and>
      stage = FilterStage False
                (MakeBsonObjStage childStage shardKeySlot None [] projectFields iks nid)
                (EFunction ''shardFilter'' [EConstant ShardFiltererV, EVariable shardKeySlot]) nid \<and>
      slotMap outputs = slotMap childOut \<and>
      indexKeySlots outputs
        = (case reqIndexKeyBitset reqs of
             None \<Rightarrow> None
           | Some p \<Rightarrow> Some (map (\<lambda>pos. iks ! slotRank (p \<union> shardBits) pos) (bitPositions p))) \<and>
      (length iks = bitCount (parentBits reqs \<union> shardBits) \<longrightarrow>
         (length projectFields = length iks
          \<longleftrightarrow> set (bitPositions (parentBits reqs)) \<subseteq> shardBits))"
proof -
  let ?kp = "childIndexKeyPattern child"
  from assms(2,3) have e: "reqsSetIf reqs kResult (?kp = []) = reqs"
    and nr: "\<not> reqsHas (reqsSetIf reqs kResult (?kp = [])) kResult"
    by (simp_all add: reqsSetIf_def)
  from assms(1) nr obtain shardBits projectFields childStage childOut st1 where
    m: "makeIndexKeyInclusionSet ?kp (fst ` set (shardKeyPattern ctx)) = Inr (shardBits, projectFields)"
    and c: "build ext ctx child (shardFilterCoveredChildReqs shardBits reqs) st
              = Inr (childStage, childOut, st1)"
    and a: "buildShardFilterCoveredAfterChild nid ?kp projectFields (reqIndexKeyBitset reqs)
              (parentBits reqs \<union> shardBits) childStage childOut st1 = Inr (stage, outputs, st')"
    by (auto simp: e parentBits_def split: if_splits sum.splits)
  from makeIndexKeyInclusionSet_spec[OF m] have
    sb: "shardBits = {j. j < length ?kp \<and> ?kp ! j \<in> fst ` set (shardKeyPattern ctx)}"
    and pf: "projectFields = filter (\<lambda>f. f \<in> fst ` set (shardKeyPattern ctx)) ?kp"
    by blast+
  have cr: "shardFilterCoveredChildReqs shardBits reqs
            = reqs\<lparr>reqIndexKeyBitset := Some (parentBits reqs \<union> shardBits)\<rparr>"
    by (simp add: shardFilterCoveredChildReqs_def parentBits_def)
  from a obtain iks where iks: "indexKeySlots childOut = Some iks"
    by (auto simp: buildShardFilterCoveredAfterChild_def split: option.splits)
  obtain shardKeySlot st2 where gs: "generateSlotId st1 = (shardKeySlot, st2)"
    by (cases "generateSlotId st1")
  have st: "stage = FilterStage False
                (MakeBsonObjStage childStage shardKeySlot None [] projectFields iks nid)
                (EFunction ''shardFilter'' [EConstant ShardFiltererV, EVariable shardKeySlot]) nid"
    and sm: "slotMap outputs = slotMap childOut"
    using a iks gs
    by (auto simp: buildShardFilterCoveredAfterChild_def buildShardFilterGivenShardKeySlot_def
          makeFunction_def setIndexKeySlots_def Let_def split: option.splits sum.splits)
  have ik: "indexKeySlots outputs
        = (case reqIndexKeyBitset reqs of
             None \<Rightarrow> None
           | Some p \<Rightarrow> Some (map (\<lambda>pos. iks ! slotRank (p \<union> shardBits) pos) (bitPositions p)))"
  proof (cases "reqIndexKeyBitset reqs")
    case None
    with a iks gs show ?thesis
      by (auto simp: buildShardFilterCoveredAfterChild_def setIndexKeySlots_def Let_def)
  next
    case (Some p)
    with a iks gs obtain slots where
      n: "makeIndexKeyOutputSlotsMatchingParentReqs ?kp p (p \<union> shardBits) iks = Inr slots"
      and o: "indexKeySlots outputs = Some slots"
      by (auto simp: buildShardFilterCoveredAfterChild_def setIndexKeySlots_def Let_def
            parentBits_def split: sum.splits)
    from narrow_spec(1)[OF n] o Some show ?thesis by simp
  qed
  have mm: "length iks = bitCount (parentBits reqs \<union> shardBits) \<longrightarrow>
         (length projectFields = length iks
          \<longleftrightarrow> set (bitPositions (parentBits reqs)) \<subseteq> shardBits)"
    using inclusionSet_names[OF m] bitCount_union_eq_iff[OF inclusionSet_bound[OF m]] by simp
  from sb pf c[unfolded cr] iks st sm ik mm show ?thesis by blast
qed

theorem buildShardFilterCovered_union_and_narrowing_witness:
  "\<exists>shardBits projectFields childStage childOut st1 iks shardKeySlot.
      shardBits = {j. j < length (childIndexKeyPattern (IndexScanNode 2 ixScanAB))
                      \<and> childIndexKeyPattern (IndexScanNode 2 ixScanAB) ! j \<in> fst ` set (shardKeyPattern shardKeyB)} \<and>
      projectFields = filter (\<lambda>f. f \<in> fst ` set (shardKeyPattern shardKeyB)) (childIndexKeyPattern (IndexScanNode 2 ixScanAB)) \<and>
      build modelGenerators shardKeyB (IndexScanNode 2 ixScanAB) (firstKeyOnly\<lparr>reqIndexKeyBitset := Some (parentBits firstKeyOnly \<union> shardBits)\<rparr>) initialState
        = Inr (childStage, childOut, st1) \<and>
      indexKeySlots childOut = Some iks \<and>
      (FilterStage False
            (MakeBsonObjStage (GeneratedStage ''ixscan'' [] [1, 2, 3]) 4 None [] [''b''] [2, 3] 3)
            (EFunction ''shardFilter'' [EConstant ShardFiltererV, EVariable 4]) 3) = FilterStage False
                (MakeBsonObjStage childStage shardKeySlot None [] projectFields iks 3)
                (EFunction ''shardFilter'' [EConstant ShardFiltererV, EVariable shardKeySlot]) 3 \<and>
      slotMap \<lparr>slotMap = [kRecordId \<mapsto> 1], indexKeySlots = Some [2]\<rparr> = slotMap childOut \<and>
      indexKeySlots \<lparr>slotMap = [kRecordId \<mapsto> 1], indexKeySlots = Some [2]\<rparr>
        = (case reqIndexKeyBitset firstKeyOnly of
             None \<Rightarrow> None
           | Some p \<Rightarrow> Some (map (\<lambda>pos. iks ! slotRank (p \<union> shardBits) pos) (bitPositions p))) \<and>
      (length iks = bitCount (parentBits firstKeyOnly \<union> shardBits) \<longrightarrow>
         (length projectFields = length iks
          \<longleftrightarrow> set (bitPositions (parentBits firstKeyOnly)) \<subseteq> shardBits))"
proof -
  have a: "childIndexKeyPattern (IndexScanNode 2 ixScanAB) \<noteq> []"
    by (simp add: ixScanAB_def)
  have b: "\<not> reqsHas firstKeyOnly kResult"
    by (simp add: firstKeyOnly_def emptyReqs_def reqsHas_def)
  show ?thesis
    by (rule buildShardFilterCovered_union_and_narrowing[OF shardFilter_failing_example a b])
qed

theorem buildShardFilterCovered_object_is_not_the_shard_key:
  "buildNode modelGenerators shardKeyB (ShardingFilterNode 3 (IndexScanNode 2 ixScanAB))
      firstKeyOnly initialState
   = Inr (FilterStage False
            (MakeBsonObjStage (GeneratedStage ''ixscan'' [] [1, 2, 3]) 4 None [] [''b''] [2, 3] 3)
            (EFunction ''shardFilter'' [EConstant ShardFiltererV, EVariable 4]) 3,
          \<lparr>slotMap = [kRecordId \<mapsto> 1], indexKeySlots = Some [2]\<rparr>,
          \<lparr>slotIdGenerator = 4, frameIdGenerator = 0, spoolIdGenerator = 0, runtimeEnv = []\<rparr>)
   \<and> ixnKeyPattern ixScanAB = [''a'', ''b'']
   \<and> shardKeyPattern shardKeyB = [(''b'', False)]
   \<and> reqIndexKeyBitset firstKeyOnly = Some {0}"
  by (intro conjI, rule shardFilter_failing_example)
     (simp_all add: ixScanAB_def shardKeyB_def firstKeyOnly_def modelContext_def emptyReqs_def)

section \<open>The claim about the names bound by a translation\<close>

lemma reqs_simps [simp]:
  "reqSlots (reqsSet r n) = insert n (reqSlots r)"
  "reqSlots (reqsClear r n) = reqSlots r - {n}"
  "reqSlots (reqsSetIf r n b) = (if b then insert n (reqSlots r) else reqSlots r)"
  "reqIndexKeyBitset (reqsSet r n) = reqIndexKeyBitset r"
  "reqIndexKeyBitset (reqsClear r n) = reqIndexKeyBitset r"
  "reqIndexKeyBitset (reqsSetIf r n b) = reqIndexKeyBitset r"
  "reqsHas r n \<longleftrightarrow> n \<in> reqSlots r"
  by (simp_all add: reqsSet_def reqsClear_def reqsSetIf_def reqsHas_def)

lemma slots_simps [simp]:
  "slotMap (slotsSet out n s) = (slotMap out)(n \<mapsto> s)"
  "indexKeySlots (slotsSet out n s) = indexKeySlots out"
  "slotMap (slotsClear out n) = (slotMap out)(n := None)"
  "indexKeySlots (slotsClear out n) = indexKeySlots out"
  "slotMap (setIndexKeySlots out iks) = slotMap out"
  "indexKeySlots (setIndexKeySlots out iks) = iks"
  "slotsHas out n \<longleftrightarrow> n \<in> dom (slotMap out)"
  "slotMap emptySlots = Map.empty" "indexKeySlots emptySlots = None"
  by (auto simp: slotsSet_def slotsClear_def setIndexKeySlots_def slotsHas_def emptySlots_def)


lemma slotName_cases:
  "(\<And>n. n \<in> S \<Longrightarrow> n \<in> T) \<Longrightarrow> S \<subseteq> (T :: SlotName set)"
  by auto






























end
